(* ===== verification/Prelude.thy ===== *)
theory Prelude
  imports Main
begin

text \<open>
  Shared vocabulary of the development: Rust's \<open>Result\<close> combinators on the sum type
  (\<open>Inl\<close> is \<open>Err\<close>, \<open>Inr\<close> is \<open>Ok\<close>), the checked, saturating and wrapping operations on unsigned
  machine integers (a \<open>w\<close>-bit unsigned integer is a \<open>nat\<close>, its width is written out), and the
  ordered containers \<open>BTreeMap\<close> and \<open>BTreeSet\<close> as strictly ascending lists.
  The interface of an ordered map is the locale \<open>ordered_map\<close>, interpreted on these lists; the lemmas on
  the sum of the values of a map under insertion and removal are proved once, inside it.
\<close>

named_theorems result_simps \<open>inversion of the Result combinators\<close>
named_theorems arith_simps \<open>inversion of the checked machine operations\<close>

section \<open>Results\<close>

definition and_then :: "'e + 'a \<Rightarrow> ('a \<Rightarrow> 'e + 'b) \<Rightarrow> 'e + 'b" where
  "and_then m f = (case m of Inl e \<Rightarrow> Inl e | Inr x \<Rightarrow> f x)"

definition ensure :: "bool \<Rightarrow> 'e \<Rightarrow> 'e + unit" where
  "ensure b e = (if b then Inr () else Inl e)"

definition ok_or :: "'e \<Rightarrow> 'a option \<Rightarrow> 'e + 'a" where
  "ok_or e x = (case x of None \<Rightarrow> Inl e | Some y \<Rightarrow> Inr y)"

definition map_err :: "('e \<Rightarrow> 'f) \<Rightarrow> 'e + 'a \<Rightarrow> 'f + 'a" where
  "map_err g m = (case m of Inl e \<Rightarrow> Inl (g e) | Inr x \<Rightarrow> Inr x)"

text \<open>\<open>try_fold\<close>: a loop whose body may leave it with an error.\<close>

fun try_fold :: "('a \<Rightarrow> 's \<Rightarrow> 'e + 's) \<Rightarrow> 'a list \<Rightarrow> 's \<Rightarrow> 'e + 's" where
  "try_fold f [] s = Inr s"
| "try_fold f (x # xs) s = and_then (f x s) (try_fold f xs)"

text \<open>
  A function that fails may have changed what it holds a mutable reference to; it returns both.
  \<open>or_fail\<close> is the operator \<open>?\<close> on its result.
\<close>

definition or_fail :: "('e + unit) \<times> 'a \<Rightarrow> 'e + 'a" where
  "or_fail r = (case fst r of Inl e \<Rightarrow> Inl e | Inr _ \<Rightarrow> Inr (snd r))"

lemma or_fail_simps [simp]:
  "or_fail (Inl e, x) = Inl e"
  "or_fail (Inr u, x) = Inr x"
  by (simp_all add: or_fail_def)

lemma or_fail_Inr_iff [result_simps]: "or_fail r = Inr x \<longleftrightarrow> r = (Inr (), x)"
  by (cases r) (auto simp: or_fail_def split: sum.splits)

lemma and_then_simps [simp]:
  "and_then (Inl e) f = Inl e"
  "and_then (Inr x) f = f x"
  by (simp_all add: and_then_def)

lemma ensure_simps [simp]:
  "ensure True e = Inr ()"
  "ensure False e = Inl e"
  by (simp_all add: ensure_def)

lemma ok_or_simps [simp]:
  "ok_or e None = Inl e"
  "ok_or e (Some x) = Inr x"
  by (simp_all add: ok_or_def)

lemma map_err_simps [simp]:
  "map_err g (Inl e) = Inl (g e)"
  "map_err g (Inr x) = Inr x"
  by (simp_all add: map_err_def)

lemma and_then_cong [fundef_cong]:
  "m = m' \<Longrightarrow> (\<And>x. m' = Inr x \<Longrightarrow> f x = f' x) \<Longrightarrow> and_then m f = and_then m' f'"
  by (cases m') (auto simp: and_then_def)

lemma and_then_Inr_iff [result_simps]:
  "and_then m f = Inr y \<longleftrightarrow> (\<exists>x. m = Inr x \<and> f x = Inr y)"
  by (cases m) auto

lemma and_then_Inl_iff:
  "and_then m f = Inl e \<longleftrightarrow> m = Inl e \<or> (\<exists>x. m = Inr x \<and> f x = Inl e)"
  by (cases m) auto

lemma ensure_Inr_iff [result_simps]: "ensure b e = Inr u \<longleftrightarrow> b"
  by (cases b) auto

lemma ensure_Inl_iff: "ensure b e = Inl e' \<longleftrightarrow> \<not> b \<and> e' = e"
  by (cases b) auto

lemma ok_or_Inr_iff [result_simps]: "ok_or e x = Inr y \<longleftrightarrow> x = Some y"
  by (cases x) auto

lemma ok_or_Inl_iff: "ok_or e x = Inl e' \<longleftrightarrow> x = None \<and> e' = e"
  by (cases x) auto

lemma map_err_Inr_iff [result_simps]: "map_err g m = Inr y \<longleftrightarrow> m = Inr y"
  by (cases m) auto

text \<open>An invariant that every iteration keeps is kept by the loop.\<close>

lemma try_fold_invariant:
  assumes "try_fold f xs s = Inr s'" and "P s"
    and "\<And>x t t'. x \<in> set xs \<Longrightarrow> P t \<Longrightarrow> f x t = Inr t' \<Longrightarrow> P t'"
  shows "P s'"
  using assms
proof (induction xs arbitrary: s)
  case Nil
  then show ?case by simp
next
  case (Cons x xs)
  from Cons.prems(1) obtain t where "f x s = Inr t" and t: "try_fold f xs t = Inr s'"
    by (auto simp: result_simps)
  with Cons.prems(2,3) have "P t" by (meson list.set_intros(1))
  from Cons.IH [OF t this] Cons.prems(3) show ?case
    by (meson list.set_intros(2))
qed

section \<open>Unsigned machine integers\<close>

type_synonym u32 = nat
type_synonym u64 = nat
type_synonym u128 = nat

definition max_of :: "nat \<Rightarrow> nat" where
  "max_of w = 2 ^ w - 1"

definition checked_add :: "nat \<Rightarrow> nat \<Rightarrow> nat \<Rightarrow> nat option" where
  "checked_add w a b = (if a + b < 2 ^ w then Some (a + b) else None)"

definition checked_mul :: "nat \<Rightarrow> nat \<Rightarrow> nat \<Rightarrow> nat option" where
  "checked_mul w a b = (if a * b < 2 ^ w then Some (a * b) else None)"

definition checked_sub :: "nat \<Rightarrow> nat \<Rightarrow> nat option" where
  "checked_sub a b = (if b \<le> a then Some (a - b) else None)"

definition saturating_add :: "nat \<Rightarrow> nat \<Rightarrow> nat \<Rightarrow> nat" where
  "saturating_add w a b = min (a + b) (max_of w)"

definition saturating_sub :: "nat \<Rightarrow> nat \<Rightarrow> nat" where
  "saturating_sub a b = (if b \<le> a then a - b else 0)"

definition saturating_mul :: "nat \<Rightarrow> nat \<Rightarrow> nat \<Rightarrow> nat" where
  "saturating_mul w a b = min (a * b) (max_of w)"

text \<open>\<open>+\<close>, \<open>-\<close> and \<open>*\<close> of a release build: no overflow check, the result wraps around.\<close>

definition wrapping_add :: "nat \<Rightarrow> nat \<Rightarrow> nat \<Rightarrow> nat" where
  "wrapping_add w a b = (a + b) mod 2 ^ w"

definition wrapping_sub :: "nat \<Rightarrow> nat \<Rightarrow> nat \<Rightarrow> nat" where
  "wrapping_sub w a b = (a + (2 ^ w - b mod 2 ^ w)) mod 2 ^ w"

definition wrapping_mul :: "nat \<Rightarrow> nat \<Rightarrow> nat \<Rightarrow> nat" where
  "wrapping_mul w a b = (a * b) mod 2 ^ w"

definition saturated_into :: "nat \<Rightarrow> nat \<Rightarrow> nat" where
  "saturated_into w a = min a (max_of w)"

lemma checked_add_Some_iff [arith_simps]:
  "checked_add w a b = Some c \<longleftrightarrow> c = a + b \<and> a + b < 2 ^ w"
  by (auto simp: checked_add_def)

lemma checked_add_None_iff [arith_simps]: "checked_add w a b = None \<longleftrightarrow> 2 ^ w \<le> a + b"
  by (auto simp: checked_add_def)

lemma checked_mul_Some_iff [arith_simps]:
  "checked_mul w a b = Some c \<longleftrightarrow> c = a * b \<and> a * b < 2 ^ w"
  by (auto simp: checked_mul_def)

lemma checked_sub_Some_iff [arith_simps]:
  "checked_sub a b = Some c \<longleftrightarrow> b \<le> a \<and> c = a - b"
  by (auto simp: checked_sub_def)

lemma checked_sub_None_iff [arith_simps]: "checked_sub a b = None \<longleftrightarrow> a < b"
  by (auto simp: checked_sub_def)

lemma saturating_sub_eq [simp]: "saturating_sub a b = a - b"
  by (simp add: saturating_sub_def)

lemma saturating_add_exact: "a + b < 2 ^ w \<Longrightarrow> saturating_add w a b = a + b"
  by (auto simp: saturating_add_def max_of_def min_def)

lemma wrapping_add_exact: "a + b < 2 ^ w \<Longrightarrow> wrapping_add w a b = a + b"
  by (simp add: wrapping_add_def)

lemma wrapping_mul_exact: "a * b < 2 ^ w \<Longrightarrow> wrapping_mul w a b = a * b"
  by (simp add: wrapping_mul_def)

lemma wrapping_sub_exact:
  assumes "b \<le> a" and "a < 2 ^ w"
  shows "wrapping_sub w a b = a - b"
proof -
  have "a + (2 ^ w - b) = (a - b) + 2 ^ w" using assms by simp
  moreover have "b mod 2 ^ w = b" using assms by simp
  ultimately have "wrapping_sub w a b = ((a - b) + 2 ^ w) mod 2 ^ w"
    by (simp only: wrapping_sub_def)
  also have "\<dots> = (a - b) mod 2 ^ w" by (rule mod_add_self2)
  also have "\<dots> = a - b" using assms by (intro mod_less) simp
  finally show ?thesis .
qed

lemma less_two_power_max: "a \<le> max_of w \<longleftrightarrow> a < 2 ^ w"
proof -
  have "(0::nat) < 2 ^ w" by simp
  then show ?thesis unfolding max_of_def by linarith
qed

text \<open>\<open>to_le_bytes\<close> of a value of \<open>k\<close> bytes and \<open>from_le_bytes\<close>\<close>

fun to_le_bytes :: "nat \<Rightarrow> nat \<Rightarrow> nat list" where
  "to_le_bytes 0 x = []"
| "to_le_bytes (Suc k) x = x mod 256 # to_le_bytes k (x div 256)"

fun from_le_bytes :: "nat list \<Rightarrow> nat" where
  "from_le_bytes [] = 0"
| "from_le_bytes (b # bs) = b + 256 * from_le_bytes bs"

lemma length_to_le_bytes [simp]: "length (to_le_bytes k x) = k"
  by (induction k arbitrary: x) auto

lemma to_le_bytes_bytes: "b \<in> set (to_le_bytes k x) \<Longrightarrow> b < 256"
  by (induction k arbitrary: x) auto

lemma from_to_le_bytes: "x < 256 ^ k \<Longrightarrow> from_le_bytes (to_le_bytes k x) = x"
proof (induction k arbitrary: x)
  case (Suc k)
  then have "x div 256 < 256 ^ k" by (simp add: less_mult_imp_div_less mult.commute)
  with Suc.IH show ?case by simp
qed simp

lemma from_le_bytes_bound: "(\<forall>b \<in> set bs. b < 256) \<Longrightarrow> from_le_bytes bs < 256 ^ length bs"
  by (induction bs) auto

section \<open>Floors\<close>

text \<open>A conversion that rounds down never gives more to the parts than to the whole.\<close>

locale floor_conversion =
  fixes conv :: "nat \<Rightarrow> nat"
  assumes superadditive: "conv x + conv y \<le> conv (x + y)"
begin

lemma conv_mono: "x \<le> y \<Longrightarrow> conv x \<le> conv y"
  using superadditive [of x "y - x"] by simp

lemma conv_sum_list: "sum_list (map conv xs) \<le> conv (sum_list xs)"
proof (induction xs)
  case Nil
  then show ?case by simp
next
  case (Cons x xs)
  then show ?case using superadditive [of x "sum_list xs"] by simp
qed

lemma conv_diff: "y \<le> x \<Longrightarrow> conv (x - y) \<le> conv x - conv y"
  using superadditive [of "x - y" y] by simp

end

lemma div_superadditive: "(x :: nat) div d + y div d \<le> (x + y) div d"
proof (cases "d = 0")
  case False
  have "(x div d + y div d) * d \<le> x + y"
    by (simp add: add_mult_distrib add_mono)
  with False show ?thesis
    by (simp add: less_eq_div_iff_mult_less_eq)
qed simp

text \<open>Multiplication by the fraction \<open>n / d\<close>, rounded down.\<close>

definition mul_div :: "nat \<Rightarrow> nat \<Rightarrow> nat \<Rightarrow> nat" where
  "mul_div n d x = n * x div d"

interpretation mul_div: floor_conversion "mul_div n d" for n d :: nat
  by unfold_locales (simp add: mul_div_def add_mult_distrib2 div_superadditive)

lemma mul_div_le: "n \<le> d \<Longrightarrow> mul_div n d x \<le> x"
proof (cases "d = 0")
  case False
  assume "n \<le> d"
  then have "n * x div d \<le> d * x div d" by (intro div_le_mono mult_le_mono1)
  with False show ?thesis by (simp add: mul_div_def)
qed (simp add: mul_div_def)

lemma mul_div_mono_num: "n \<le> n' \<Longrightarrow> mul_div n d x \<le> mul_div n' d x"
  by (simp add: mul_div_def div_le_mono)

lemma mul_div_id [simp]: "0 < d \<Longrightarrow> mul_div d d x = x"
  by (simp add: mul_div_def)

lemma mul_div_zero [simp]: "mul_div 0 d x = 0" "mul_div n d 0 = 0"
  by (simp_all add: mul_div_def)

section \<open>Ordered maps and sets\<close>

text \<open>
  A \<open>BTreeMap\<close> is the list of its entries in ascending key order, a \<open>BTreeSet\<close> the ascending list of
  its elements. The maps of the pallet's storage use the \<open>Identity\<close> hasher, so that iterating over a
  prefix of a double map also visits the second keys in ascending order.
\<close>

fun om_insert :: "'k::linorder \<Rightarrow> 'v \<Rightarrow> ('k \<times> 'v) list \<Rightarrow> ('k \<times> 'v) list" where
  "om_insert k v [] = [(k, v)]"
| "om_insert k v ((k', v') # m) =
     (if k < k' then (k, v) # (k', v') # m
      else if k = k' then (k, v) # m
      else (k', v') # om_insert k v m)"

fun om_remove :: "'k \<Rightarrow> ('k \<times> 'v) list \<Rightarrow> ('k \<times> 'v) list" where
  "om_remove k [] = []"
| "om_remove k ((k', v') # m) = (if k = k' then m else (k', v') # om_remove k m)"

definition om_get :: "('k \<times> 'v) list \<Rightarrow> 'k \<Rightarrow> 'v option" where
  "om_get m k = map_of m k"

definition om_invar :: "('k::linorder \<times> 'v) list \<Rightarrow> bool" where
  "om_invar m = sorted_wrt (<) (map fst m)"

definition om_entries :: "('k \<times> 'v) list \<Rightarrow> ('k \<times> 'v) list" where
  "om_entries m = m"

definition om_keys :: "('k \<times> 'v) list \<Rightarrow> 'k list" where
  "om_keys m = map fst m"

definition om_total :: "('v \<Rightarrow> nat) \<Rightarrow> ('k \<times> 'v) list \<Rightarrow> nat" where
  "om_total f m = sum_list (map (f \<circ> snd) m)"

fun os_insert :: "'k::linorder \<Rightarrow> 'k list \<Rightarrow> 'k list" where
  "os_insert x [] = [x]"
| "os_insert x (y # ys) =
     (if x < y then x # y # ys else if x = y then y # ys else y # os_insert x ys)"

definition os_remove :: "'k \<Rightarrow> 'k list \<Rightarrow> 'k list" where
  "os_remove x ys = filter (\<lambda>y. y \<noteq> x) ys"

definition os_extend :: "'k::linorder list \<Rightarrow> 'k list \<Rightarrow> 'k list" where
  "os_extend ys xs = fold os_insert xs ys"

text \<open>
  The interface the components use: what a lookup returns after an insertion or a removal, and that the
  entries list every binding exactly once.
\<close>

locale ordered_map =
  fixes invar :: "'m \<Rightarrow> bool"
    and get :: "'m \<Rightarrow> 'k \<Rightarrow> 'v option"
    and ins :: "'k \<Rightarrow> 'v \<Rightarrow> 'm \<Rightarrow> 'm"
    and rem :: "'k \<Rightarrow> 'm \<Rightarrow> 'm"
    and entries :: "'m \<Rightarrow> ('k \<times> 'v) list"
  assumes get_ins: "invar m \<Longrightarrow> get (ins k v m) = (get m)(k \<mapsto> v)"
    and get_rem: "invar m \<Longrightarrow> get (rem k m) = (get m)(k := None)"
    and entries_get: "invar m \<Longrightarrow> map_of (entries m) = get m"
    and entries_distinct: "invar m \<Longrightarrow> distinct (map fst (entries m))"
    and invar_ins: "invar m \<Longrightarrow> invar (ins k v m)"
    and invar_rem: "invar m \<Longrightarrow> invar (rem k m)"
begin

definition total :: "('v \<Rightarrow> nat) \<Rightarrow> 'm \<Rightarrow> nat" where
  "total f m = sum_list (map (f \<circ> snd) (entries m))"

lemma total_eq_sum:
  assumes "invar m"
  shows "total f m = (\<Sum>k \<in> dom (get m). f (the (get m k)))"
proof -
  note d = entries_distinct [OF assms]
  have "total f m = (\<Sum>e \<in> set (entries m). f (snd e))"
    using d by (simp add: total_def sum_list_distinct_conv_sum_set distinct_map)
  also have "\<dots> = (\<Sum>e \<in> set (entries m). f (the (map_of (entries m) (fst e))))"
    using d by (intro sum.cong) auto
  also have "\<dots> = (\<Sum>k \<in> fst ` set (entries m). f (the (map_of (entries m) k)))"
    using d by (subst sum.reindex) (auto simp: distinct_map)
  finally show ?thesis
    by (simp add: entries_get [OF assms, symmetric] dom_map_of_conv_image_fst)
qed

lemma finite_dom: "invar m \<Longrightarrow> finite (dom (get m))"
  by (simp add: entries_get [symmetric] finite_dom_map_of)

lemma total_rem:
  assumes "invar m" and "get m k = Some v"
  shows "total f (rem k m) + f v = total f m"
proof -
  have "total f (rem k m) = (\<Sum>i \<in> dom (get m) - {k}. f (the (((get m)(k := None)) i)))"
    using assms(1) by (simp add: total_eq_sum invar_rem get_rem)
  also have "\<dots> = (\<Sum>i \<in> dom (get m) - {k}. f (the (get m i)))"
    by (intro sum.cong) auto
  finally show ?thesis
    using sum.remove [OF finite_dom [OF assms(1)], of k "\<lambda>i. f (the (get m i))"] assms
    by (simp add: total_eq_sum domI)
qed

lemma total_rem_absent:
  assumes "invar m" and "get m k = None"
  shows "total f (rem k m) = total f m"
proof -
  have "get (rem k m) = get m"
    using assms by (simp add: get_rem fun_upd_idem)
  with assms(1) show ?thesis
    by (simp add: total_eq_sum invar_rem)
qed

lemma total_ins_fresh:
  assumes "invar m" and "get m k = None"
  shows "total f (ins k v m) = total f m + f v"
proof -
  have k: "k \<notin> dom (get m)" using assms(2) by auto
  have "total f (ins k v m) = (\<Sum>i \<in> insert k (dom (get m)). f (the (((get m)(k \<mapsto> v)) i)))"
    using assms(1) by (simp add: total_eq_sum invar_ins get_ins)
  also have "\<dots> = f v + (\<Sum>i \<in> dom (get m). f (the (((get m)(k \<mapsto> v)) i)))"
    using k finite_dom [OF assms(1)] by simp
  also have "(\<Sum>i \<in> dom (get m). f (the (((get m)(k \<mapsto> v)) i))) = (\<Sum>i \<in> dom (get m). f (the (get m i)))"
    using k by (intro sum.cong) auto
  finally show ?thesis
    using assms(1) by (simp add: total_eq_sum)
qed

lemma total_ins:
  assumes "invar m" and "get m k = Some w"
  shows "total f (ins k v m) + f w = total f m + f v"
proof -
  let ?r = "rem k m"
  have r: "invar ?r" "get ?r k = None" "get (ins k v ?r) = get (ins k v m)"
    using assms(1) by (simp_all add: invar_rem get_rem get_ins)
  have "total f (ins k v m) = total f (ins k v ?r)"
    using r(3) by (simp only: total_eq_sum [OF invar_ins [OF r(1)]] total_eq_sum [OF invar_ins [OF assms(1)]])
  with total_ins_fresh [OF r(1,2), of f v] total_rem [OF assms, of f] show ?thesis by linarith
qed

lemma total_member_le: "invar m \<Longrightarrow> get m k = Some v \<Longrightarrow> f v \<le> total f m"
  using total_rem [of m k v f] by simp

end

lemma om_insert_keys: "set (map fst (om_insert k v m)) = insert k (set (map fst m))"
  by (induction k v m rule: om_insert.induct) auto

lemma om_remove_keys_subset: "set (map fst (om_remove k m)) \<subseteq> set (map fst m)"
  by (induction k m rule: om_remove.induct) auto

lemma om_invar_Cons:
  "om_invar ((k, v) # m) \<longleftrightarrow> (\<forall>k' \<in> set (map fst m). k < k') \<and> om_invar m"
  by (simp add: om_invar_def)

lemma om_invar_Nil [simp]: "om_invar []"
  by (simp add: om_invar_def)

lemma om_invar_insert: "om_invar m \<Longrightarrow> om_invar (om_insert k v m)"
proof (induction k v m rule: om_insert.induct)
  case (2 k v k' v' m)
  then show ?case
    using om_insert_keys [of k v m] by (auto simp: om_invar_Cons simp del: set_map)
qed (simp add: om_invar_def)

lemma om_invar_remove: "om_invar m \<Longrightarrow> om_invar (om_remove k m)"
proof (induction k m rule: om_remove.induct)
  case (2 k k' v' m)
  then show ?case
    using om_remove_keys_subset [of k m] by (auto simp: om_invar_Cons simp del: set_map)
qed simp

lemma om_get_Nil [simp]: "om_get [] k = None"
  by (simp add: om_get_def)

lemma om_get_Cons [simp]: "om_get ((k', v) # m) k = (if k = k' then Some v else om_get m k)"
  by (simp add: om_get_def)

lemma om_get_insert_same [simp]: "om_get (om_insert k v m) k = Some v"
  by (induction k v m rule: om_insert.induct) (auto simp: om_get_Cons)

lemma om_get_insert_other: "k' \<noteq> k \<Longrightarrow> om_get (om_insert k v m) k' = om_get m k'"
  by (induction k v m rule: om_insert.induct) (auto simp: om_get_Cons)

lemma om_get_insert: "om_get (om_insert k v m) k' = (if k' = k then Some v else om_get m k')"
  by (simp add: om_get_insert_other)

lemma om_get_None_iff: "om_get m k = None \<longleftrightarrow> k \<notin> set (map fst m)"
  by (simp add: om_get_def map_of_eq_None_iff)

lemma om_get_remove_same: "om_invar m \<Longrightarrow> om_get (om_remove k m) k = None"
  by (induction k m rule: om_remove.induct) (auto simp: om_get_Cons om_invar_Cons om_get_None_iff)

lemma om_get_remove_other: "k' \<noteq> k \<Longrightarrow> om_get (om_remove k m) k' = om_get m k'"
  by (induction k m rule: om_remove.induct) (auto simp: om_get_Cons)

interpretation btree: ordered_map om_invar om_get om_insert om_remove om_entries
  rewrites "ordered_map.total om_entries = om_total"
proof -
  show om: "ordered_map om_invar om_get om_insert om_remove (om_entries :: ('a::linorder \<times> 'b) list \<Rightarrow> _)"
  proof
    fix m :: "('a \<times> 'b) list" and k v
    assume m: "om_invar m"
    show "om_get (om_insert k v m) = (om_get m)(k \<mapsto> v)"
      by (rule ext) (simp add: om_get_insert)
    show "om_get (om_remove k m) = (om_get m)(k := None)"
      using m by (auto simp: fun_eq_iff om_get_remove_same om_get_remove_other)
    show "map_of (om_entries m) = om_get m"
      by (rule ext) (simp add: om_entries_def om_get_def)
    show "distinct (map fst (om_entries m))"
      using m by (simp add: om_entries_def om_invar_def strict_sorted_iff)
  qed (simp_all add: om_invar_insert om_invar_remove)
  show "ordered_map.total (om_entries :: ('a::linorder \<times> 'b) list \<Rightarrow> _) = om_total"
    by (simp add: fun_eq_iff ordered_map.total_def [OF om] om_total_def om_entries_def)
qed

lemma set_os_insert [simp]: "set (os_insert x ys) = insert x (set ys)"
  by (induction x ys rule: os_insert.induct) auto

lemma sorted_os_insert: "sorted_wrt (<) ys \<Longrightarrow> sorted_wrt (<) (os_insert x ys)"
  by (induction x ys rule: os_insert.induct) auto

lemma set_os_remove [simp]: "set (os_remove x ys) = set ys - {x}"
  by (auto simp: os_remove_def)

lemma sorted_os_remove: "sorted_wrt (<) ys \<Longrightarrow> sorted_wrt (<) (os_remove x ys)"
  by (simp add: os_remove_def sorted_wrt_filter)

lemma set_os_extend [simp]: "set (os_extend ys xs) = set ys \<union> set xs"
  by (induction xs arbitrary: ys) (auto simp: os_extend_def)

lemma sorted_os_extend: "sorted_wrt (<) ys \<Longrightarrow> sorted_wrt (<) (os_extend ys xs)"
  by (induction xs arbitrary: ys) (auto simp: os_extend_def sorted_os_insert)

lemma os_insert_remove: "sorted_wrt (<) ys \<Longrightarrow> x \<in> set ys \<Longrightarrow> os_insert x (os_remove x ys) = ys"
proof (induction ys)
  case (Cons y ys)
  then have *: "\<forall>z \<in> set ys. y < z" by simp
  show ?case
  proof (cases "x = y")
    case True
    then have "filter (\<lambda>z. z \<noteq> x) ys = ys" using * by (auto simp: filter_id_conv)
    moreover have "os_insert x ys = x # ys" using * True by (cases ys) auto
    ultimately show ?thesis using True by (simp add: os_remove_def)
  next
    case False
    with Cons.prems * have "y < x" by auto
    with False Cons show ?thesis by (auto simp: os_remove_def)
  qed
qed simp

lemma os_remove_insert: "x \<notin> set ys \<Longrightarrow> os_remove x (os_insert x ys) = ys"
  by (induction x ys rule: os_insert.induct) (auto simp: os_remove_def filter_id_conv)

section \<open>Transition systems\<close>

text \<open>An operation that every component offers as a step keeps an invariant along every run.\<close>

locale invariant_system =
  fixes step :: "'s \<Rightarrow> 's \<Rightarrow> bool"
    and inv :: "'s \<Rightarrow> bool"
  assumes step_inv: "step s t \<Longrightarrow> inv s \<Longrightarrow> inv t"
begin

lemma run_inv: "step\<^sup>*\<^sup>* s t \<Longrightarrow> inv s \<Longrightarrow> inv t"
  by (induction rule: rtranclp_induct) (auto intro: step_inv)

end

end
