(* ===== verification/Domain_Types.thy ===== *)
theory Domain_Types
  imports Prelude
begin

text \<open>
  The data of \<open>pallet-domains\<close> and \<open>sp-domains\<close>: identifiers, amounts, the staking structures
  (crates/pallet-domains/src/staking.rs), execution receipts (crates/sp-domains/src/execution_receipt.rs), bundles
  (crates/sp-domains/src/bundle.rs), the domain registry entries, the errors and the events of the pallet.
  A struct is a record whose field names carry a prefix of the struct's name.
\<close>

section \<open>Identifiers and amounts\<close>

type_synonym balance = u128
type_synonym share = u128
type_synonym account_id = nat
type_synonym operator_id = u64
type_synonym domain_id = u32
type_synonym epoch_index = u32
type_synonym runtime_id = u32
type_synonym block_number = u32
type_synonym domain_block_number = u32
type_synonym hash = nat
type_synonym public_key = nat
type_synonym slot = u64
type_synonym weight = "nat \<times> nat"

text \<open>A \<open>PerThing\<close> is its number of parts: a \<open>Perquintill\<close> of \<open>10 ^ 18\<close>, a \<open>Percent\<close> of \<open>100\<close>.\<close>

type_synonym perquintill = nat
type_synonym percent = nat

datatype chain_id = Consensus | Domain domain_id

text \<open>The derived \<open>Ord\<close> of the enum: the variants in the order of their declaration.\<close>

instantiation chain_id :: linorder
begin

fun less_eq_chain_id :: "chain_id \<Rightarrow> chain_id \<Rightarrow> bool" where
  "less_eq_chain_id Consensus c = True"
| "less_eq_chain_id (Domain d) Consensus = False"
| "less_eq_chain_id (Domain d) (Domain e) = (d \<le> e)"

definition less_chain_id :: "chain_id \<Rightarrow> chain_id \<Rightarrow> bool" where
  "less_chain_id c d = (c \<le> d \<and> \<not> d \<le> c)"

instance
proof
  fix x y z :: chain_id
  show "(x < y) = (x \<le> y \<and> \<not> y \<le> x)" by (simp add: less_chain_id_def)
  show "x \<le> x" by (cases x) auto
  show "x \<le> y \<Longrightarrow> y \<le> z \<Longrightarrow> x \<le> z" by (cases x; cases y; cases z) auto
  show "x \<le> y \<Longrightarrow> y \<le> x \<Longrightarrow> x = y" by (cases x; cases y) auto
  show "x \<le> y \<or> y \<le> x" by (cases x; cases y) auto
qed

end

section \<open>Staking\<close>

text \<open>\<open>SharePrice(pub Perquintill)\<close>\<close>

type_synonym share_price = perquintill

datatype domain_epoch = DomainEpoch (de_domain: domain_id) (de_epoch: epoch_index)

record new_deposit =
  nd_staking :: balance
  nd_storage_fee_deposit :: balance

record known_deposit =
  kd_shares :: share
  kd_storage_fee_deposit :: balance

record pending_deposit =
  pd_effective_domain_epoch :: domain_epoch
  pd_amount :: balance
  pd_storage_fee_deposit :: balance

record deposit =
  dep_known :: known_deposit
  dep_pending :: "pending_deposit option"

record withdrawal_in_balance =
  wb_unlock_at :: domain_block_number
  wb_amount_to_unlock :: balance
  wb_storage_fee_refund :: balance

record withdrawal_in_shares =
  ws_domain_epoch :: domain_epoch
  ws_unlock_at :: domain_block_number
  ws_shares :: share
  ws_storage_fee_refund :: balance

record withdrawal =
  w_total_withdrawal_amount :: balance
  w_total_storage_fee_withdrawal :: balance
  w_withdrawals :: "withdrawal_in_balance list"
  w_withdrawal_in_shares :: "withdrawal_in_shares option"

record operator_deregistered_info =
  odi_domain_epoch :: domain_epoch
  odi_unlock_at :: domain_block_number

datatype operator_status =
    Registered
  | Deregistered operator_deregistered_info
  | Slashed
  | PendingSlash
  | InvalidBundle hash
  | Deactivated epoch_index

record operator =
  op_signing_key :: public_key
  op_current_domain_id :: domain_id
  op_next_domain_id :: domain_id
  op_minimum_nominator_stake :: balance
  op_nomination_tax :: percent
  op_current_total_stake :: balance
  op_current_total_shares :: share
  op_partial_status :: operator_status
  op_deposits_in_epoch :: balance
  op_withdrawals_in_epoch :: share
  op_total_storage_fee_deposit :: balance

record staking_summary =
  ss_current_epoch_index :: epoch_index
  ss_current_total_stake :: balance
  ss_current_operators :: "(operator_id \<times> balance) list"
  ss_next_operators :: "operator_id list"
  ss_current_epoch_rewards :: "(operator_id \<times> balance) list"

record operator_config =
  oc_signing_key :: public_key
  oc_minimum_nominator_stake :: balance
  oc_nomination_tax :: percent

text \<open>\<open>Default::default()\<close> of a deposit and of a withdrawal.\<close>

definition deposit_default :: deposit where
  "deposit_default =
     \<lparr>dep_known = \<lparr>kd_shares = 0, kd_storage_fee_deposit = 0\<rparr>, dep_pending = None\<rparr>"

definition withdrawal_default :: withdrawal where
  "withdrawal_default =
     \<lparr>w_total_withdrawal_amount = 0, w_total_storage_fee_withdrawal = 0, w_withdrawals = [],
      w_withdrawal_in_shares = None\<rparr>"

datatype storage_fund_error =
    BundleStorageFeePayment
  | StorageFundBalanceUnderflow
  | StorageFundMintBalance
  | FailToDeposit
  | WithdrawAndHold
  | BalanceTransfer
  | FailToWithdraw

datatype staking_error =
    MaximumOperatorId
  | DomainNotInitialized
  | PendingOperatorSwitch
  | InsufficientBalance
  | InsufficientShares
  | ZeroWithdraw
  | BalanceFreeze
  | MinimumOperatorStake
  | UnknownOperator
  | MinimumNominatorStake
  | BalanceOverflow
  | BalanceUnderflow
  | NotOperatorOwner
  | OperatorNotRegistered
  | OperatorNotDeactivated
  | UnknownNominator
  | MissingOperatorOwner
  | MintBalance
  | BlockNumberOverflow
  | RemoveLock
  | EpochOverflow
  | ShareUnderflow
  | ShareOverflow
  | TooManyPendingStakingOperation
  | OperatorNotAllowed
  | InvalidOperatorSigningKey
  | MissingOperatorEpochSharePrice
  | MissingWithdrawal
  | EpochNotComplete
  | UnlockPeriodNotComplete
  | OperatorNotDeregistered
  | BundleStorageFund storage_fund_error
  | UnconfirmedER
  | TooManyWithdrawals
  | ZeroDeposit
  | ZeroSharePrice
  | ReactivationDelayPeriodIncomplete
  | OperatorNotRegisterdOrDeactivated
  | Panic \<comment> \<open>not a value of the source's enum: an index out of bounds, which aborts the call\<close>

datatype staking_epoch_error =
    FinalizeDomainEpochStaking staking_error
  | OperatorRewardStaking staking_error

section \<open>Execution receipts and bundles\<close>

datatype invalid_bundle_type =
    UndecodableTx u32
  | OutOfRangeTx u32
  | IllegalTx u32
  | InvalidXDM u32
  | InherentExtrinsic u32
  | InvalidBundleWeight

datatype bundle_validity = Invalid invalid_bundle_type | Valid hash

record inboxed_bundle =
  ib_bundle :: bundle_validity
  ib_extrinsics_root :: hash

record bundle_digest =
  bd_header_hash :: hash
  bd_extrinsics_root :: hash
  bd_size :: u32

record block_fees =
  bf_consensus_storage_fee :: balance
  bf_domain_execution_fee :: balance
  bf_burned_balance :: balance
  bf_chain_rewards :: "(chain_id \<times> balance) list"

record transfers =
  tr_transfers_in :: "(chain_id \<times> balance) list"
  tr_transfers_out :: "(chain_id \<times> balance) list"
  tr_rejected_transfers_claimed :: "(chain_id \<times> balance) list"
  tr_transfers_rejected :: "(chain_id \<times> balance) list"

record execution_receipt =
  er_domain_block_number :: domain_block_number
  er_domain_block_hash :: hash
  er_domain_block_extrinsic_root :: hash
  er_parent_domain_block_receipt_hash :: hash
  er_consensus_block_number :: block_number
  er_consensus_block_hash :: hash
  er_inboxed_bundles :: "inboxed_bundle list"
  er_final_state_root :: hash
  er_execution_trace :: "hash list"
  er_execution_trace_root :: hash
  er_block_fees :: block_fees
  er_transfers :: transfers

record block_tree_node =
  btn_execution_receipt :: execution_receipt
  btn_operator_ids :: "operator_id list"

record domain_runtime_upgrade_entry =
  rue_at_hash :: hash
  rue_reference_count :: u32

datatype block_tree_error =
    InvalidExtrinsicsRoots
  | UnknownParentBlockReceipt
  | BuiltOnUnknownConsensusBlock
  | InFutureReceipt
  | PrunedReceipt
  | StaleReceipt
  | NewBranchReceipt
  | BadGenesisReceipt
  | UnexpectedReceiptType
  | MaxHeadDomainNumber
  | MissingDomainBlock
  | InvalidTraceRoot
  | InvalidExecutionTrace
  | UnavailableConsensusBlockHash
  | InvalidStateRoot
  | BlockTreeBalanceOverflow
  | DomainTransfersTracking
  | InvalidDomainTransfers
  | OverwritingER
  | RuntimeNotFound
  | LastBlockNotFound
  | UnmatchedNewHeadReceipt
  | BlockTreePanic \<comment> \<open>not a value of the source's enum: an index out of bounds or a failed \<open>expect\<close>\<close>

datatype accepted_receipt_type = NewHead | CurrentHead

datatype rejected_receipt_type = InFuture | Pruned | Stale | NewBranch

datatype receipt_type = Accepted accepted_receipt_type | Rejected rejected_receipt_type

fun rejected_error :: "rejected_receipt_type \<Rightarrow> block_tree_error" where
  "rejected_error InFuture = InFutureReceipt"
| "rejected_error Pruned = PrunedReceipt"
| "rejected_error Stale = StaleReceipt"
| "rejected_error NewBranch = NewBranchReceipt"

record confirmed_domain_block_info =
  ci_consensus_block_number :: block_number
  ci_domain_block_number :: domain_block_number
  ci_operator_ids :: "operator_id list"
  ci_rewards :: balance
  ci_invalid_bundle_authors :: "operator_id list"
  ci_total_storage_fee :: balance
  ci_paid_bundle_storage_fees :: "(operator_id \<times> u32) list"

section \<open>The domain registry\<close>

datatype operator_allow_list = Anyone | Operators "account_id list"

record domain_config =
  dc_domain_name :: string
  dc_runtime_id :: runtime_id
  dc_max_bundle_size :: u32
  dc_max_bundle_weight :: weight
  dc_bundle_slot_probability :: "u64 \<times> u64"
  dc_operator_allow_list :: operator_allow_list
  dc_initial_balances :: "(account_id \<times> balance) list"

datatype permissioned_action_allowed_by = AllowedAccounts "account_id list" | AnyoneAllowed

datatype evm_type = PublicEvm | PrivateEvm permissioned_action_allowed_by

record evm_domain_runtime_config =
  edrc_evm_type :: evm_type

text \<open>\<open>DomainRuntimeInfo\<close>; the configuration of an AutoId domain has no fields.\<close>

datatype domain_runtime_info = Evm u64 evm_domain_runtime_config | AutoId

record domain_object =
  do_owner_account_id :: account_id
  do_created_at :: block_number
  do_genesis_receipt_hash :: hash
  do_domain_config :: domain_config
  do_domain_runtime_info :: domain_runtime_info
  do_domain_instantiation_deposit :: balance

record election_verification_params =
  evp_operators :: "(operator_id \<times> balance) list"
  evp_total_domain_stake :: balance

fun is_operator_allowed :: "operator_allow_list \<Rightarrow> account_id \<Rightarrow> bool" where
  "is_operator_allowed Anyone who = True"
| "is_operator_allowed (Operators allowed) who = (who \<in> set allowed)"

section \<open>Bundle producer election\<close>

type_synonym bytes = "nat list"

record vrf_signature =
  vrf_pre_output :: bytes
  vrf_proof :: bytes

record vrf_transcript =
  vt_label :: string
  vt_items :: "(string \<times> bytes) list"

record proof_of_election =
  poe_domain_id :: domain_id
  poe_slot_number :: slot
  poe_proof_of_time :: bytes
  poe_vrf_signature :: vrf_signature
  poe_operator_id :: operator_id

datatype proof_of_election_error = BadVrfProof | ThresholdUnsatisfied | InvalidThreshold

text \<open>\<open>Bundle\<close> with its sealed header, and \<open>SealedSingletonReceipt\<close>\<close>

datatype bundle_version = BundleV0
datatype execution_receipt_version = ReceiptV0

record bundle_and_execution_receipt_version =
  bev_bundle_version :: bundle_version
  bev_execution_receipt_version :: execution_receipt_version

record bundle_header =
  bh_proof_of_election :: proof_of_election
  bh_receipt :: execution_receipt
  bh_estimated_bundle_weight :: weight
  bh_bundle_extrinsics_root :: hash

record opaque_bundle =
  ob_header :: bundle_header
  ob_signature :: bytes
  ob_extrinsics :: "bytes list"

record singleton_receipt =
  sr_proof_of_election :: proof_of_election
  sr_receipt :: execution_receipt
  sr_signature :: bytes

datatype bundle_error =
    InvalidOperatorId
  | BadBundleSignature
  | BadVrfSignature
  | InvalidDomainId
  | BadOperator
  | BundleThresholdUnsatisfied
  | BundleInvalidThreshold
  | Receipt block_tree_error
  | BundleTooLarge
  | InvalidExtrinsicRoot
  | InvalidProofOfTime
  | SlotInTheFuture
  | SlotInThePast
  | BundleTooHeavy
  | SlotSmallerThanPreviousBlockBundle
  | EquivocatedBundle
  | BundleDomainFrozen
  | UnableToPayBundleStorageFee
  | UnexpectedReceiptGap
  | ExpectingReceiptGap
  | FailedToGetMissedUpgradeCount
  | BundleVersionMismatch
  | ExecutionVersionMismatch
  | ExecutionVersionMissing

text \<open>\<open>From<ProofOfElectionError> for BundleError\<close>\<close>

fun poe_bundle_error :: "proof_of_election_error \<Rightarrow> bundle_error" where
  "poe_bundle_error BadVrfProof = BadVrfSignature"
| "poe_bundle_error ThresholdUnsatisfied = BundleThresholdUnsatisfied"
| "poe_bundle_error InvalidThreshold = BundleInvalidThreshold"

text \<open>The errors of the calls that are not errors of the components below.\<close>

datatype call_error =
    StakingCall staking_error
  | StakingEpochCall staking_epoch_error
  | BlockTreeCall block_tree_error
  | BundleStorageFundCall storage_fund_error
  | BadReceiptNotFound
  | DomainNotFrozen
  | BadOrigin
  | CurrencyCall

section \<open>Events\<close>

datatype slashed_reason = SlashedInvalidBundle domain_block_number | BadExecutionReceipt hash

datatype operator_reward_source = Bundle block_number | XDMProtocolFees

record operator_epoch_expectations =
  oee_expected_bundles :: u64
  oee_min_required_bundles :: u64

datatype event =
    OperatorNominated operator_id account_id balance
  | StorageFeeDeposited operator_id account_id balance
  | OperatorDeactivated domain_id operator_id epoch_index
  | OperatorReactivated operator_id domain_id
  | NominatedStakedUnlocked operator_id account_id balance
  | StorageFeeUnlocked operator_id account_id balance
  | OperatorRewarded operator_reward_source operator_id balance
  | OperatorTaxCollected operator_id balance
  | OperatorSlashed operator_id slashed_reason
  | OperatorOffline operator_id domain_id u64 operator_epoch_expectations
  | OperatorRegistered operator_id domain_id
  | OperatorDeregistered operator_id
  | WithdrewStake operator_id account_id
  | NominatorUnlocked operator_id account_id
  | DomainEpochCompleted domain_id epoch_index
  | ForceDomainEpochTransition domain_id epoch_index
  | FraudProofProcessed domain_id "domain_block_number option"
  | PrunedExecutionReceipt domain_id "domain_block_number option"
  | DomainFrozen domain_id
  | DomainUnfrozen domain_id
  | DomainOperatorAllowListUpdated domain_id
  | BundleStored domain_id hash operator_id

end
