(* ===== verification/Config.thy ===== *)
theory Config
  imports Domain_Types
begin

text \<open>
  The interface of \<open>pallet-domains\<close> to the rest of the runtime: the associated types and constants of
  the trait \<open>Config\<close> (crates/pallet-domains/src/lib.rs) as the fields of a record that every operation takes
  as its argument \<open>T\<close>. Operations of other crates that are not part of the repository (the \<open>fungible\<close>
  traits behind \<open>T::Currency\<close>, the fixed-point types \<open>Perquintill\<close> and \<open>Percent\<close>) are fields too; what
  the pallet relies on is stated as predicates on these fields. \<open>'x\<close> is the state of the other pallets.
\<close>

section \<open>The currency traits\<close>

datatype preservation = Expendable | Protect | Preserve
datatype fortitude = Polite | Force
datatype precision = Exact | BestEffort
datatype restriction = Free | OnHold
datatype hold_id = StakingStaked | DomainInstantiationId | StorageFundWithdrawal

record 'x config =
  \<comment> \<open>constants\<close>
  MinOperatorStake :: balance
  MinNominatorStake :: balance
  StakeWithdrawalLockingPeriod :: domain_block_number
  StakeEpochDuration :: domain_block_number
  TreasuryAccount :: account_id
  MaxPendingStakingOperation :: u32
  WithdrawalLimit :: u32
  OperatorActivationDelayInEpochs :: epoch_index
  BlockTreePruningDepth :: domain_block_number
  BundleLongevity :: u32
  CurrentBundleAndExecutionReceiptVersion :: bundle_and_execution_receipt_version
  \<comment> \<open>\<open>PalletId::into_sub_account_truncating\<close>\<close>
  storage_fund_sub_account :: "operator_id \<Rightarrow> account_id"
  default_public_key :: public_key
  \<comment> \<open>\<open>T::Currency\<close>; \<open>None\<close> is an error, the state of the ledger is part of \<open>'x\<close>\<close>
  reducible_balance :: "'x \<Rightarrow> account_id \<Rightarrow> preservation \<Rightarrow> fortitude \<Rightarrow> balance"
  hold :: "hold_id \<Rightarrow> account_id \<Rightarrow> balance \<Rightarrow> 'x \<Rightarrow> 'x option"
  release :: "hold_id \<Rightarrow> account_id \<Rightarrow> balance \<Rightarrow> precision \<Rightarrow> 'x \<Rightarrow> 'x option"
  transfer :: "account_id \<Rightarrow> account_id \<Rightarrow> balance \<Rightarrow> preservation \<Rightarrow> 'x \<Rightarrow> ('x \<times> balance) option"
  mint_into :: "account_id \<Rightarrow> balance \<Rightarrow> 'x \<Rightarrow> 'x option"
  burn_from :: "account_id \<Rightarrow> balance \<Rightarrow> preservation \<Rightarrow> precision \<Rightarrow> fortitude \<Rightarrow> 'x \<Rightarrow> 'x option"
  transfer_on_hold :: "hold_id \<Rightarrow> account_id \<Rightarrow> account_id \<Rightarrow> balance \<Rightarrow> precision \<Rightarrow> restriction \<Rightarrow>
    fortitude \<Rightarrow> 'x \<Rightarrow> 'x option"
  transfer_and_hold :: "hold_id \<Rightarrow> account_id \<Rightarrow> account_id \<Rightarrow> balance \<Rightarrow> precision \<Rightarrow> preservation \<Rightarrow>
    fortitude \<Rightarrow> 'x \<Rightarrow> ('x \<times> balance) option"
  can_deposit :: "'x \<Rightarrow> account_id \<Rightarrow> balance \<Rightarrow> bool"
  \<comment> \<open>\<open>T::StorageFee\<close>\<close>
  transaction_byte_fee :: "'x \<Rightarrow> balance"
  note_storage_fees :: "balance \<Rightarrow> 'x \<Rightarrow> 'x"
  \<comment> \<open>\<open>T::DomainsTransfersTracker\<close>\<close>
  confirm_transfer :: "chain_id \<Rightarrow> chain_id \<Rightarrow> balance \<Rightarrow> 'x \<Rightarrow> 'x option"
  note_transfer :: "chain_id \<Rightarrow> chain_id \<Rightarrow> balance \<Rightarrow> 'x \<Rightarrow> 'x option"
  reject_transfer :: "chain_id \<Rightarrow> chain_id \<Rightarrow> balance \<Rightarrow> 'x \<Rightarrow> 'x option"
  claim_rejected_transfer :: "chain_id \<Rightarrow> chain_id \<Rightarrow> balance \<Rightarrow> 'x \<Rightarrow> 'x option"
  reduce_domain_balance :: "domain_id \<Rightarrow> balance \<Rightarrow> 'x \<Rightarrow> 'x option"
  \<comment> \<open>\<open>Subspace::find_block_reward_address\<close> and \<open>Balances::deposit_creating\<close>\<close>
  reward_block_author :: "balance \<Rightarrow> 'x \<Rightarrow> 'x"
  \<comment> \<open>\<open>frame_system\<close>\<close>
  current_block_number :: "'x \<Rightarrow> block_number"
  parent_hash :: "'x \<Rightarrow> hash"
  block_hash :: "'x \<Rightarrow> block_number \<Rightarrow> hash"
  \<comment> \<open>hashing of receipts and Merkle root of an execution trace\<close>
  er_hash :: "execution_receipt \<Rightarrow> hash"
  trace_root :: "hash list \<Rightarrow> hash option"
  \<comment> \<open>\<open>blake3\<close> and \<open>sr25519\<close>\<close>
  blake3 :: "bytes \<Rightarrow> bytes"
  vrf_verify :: "public_key \<Rightarrow> vrf_transcript \<Rightarrow> vrf_signature \<Rightarrow> bool"
  \<comment> \<open>\<open>T::BlockSlot\<close>\<close>
  current_slot :: "'x \<Rightarrow> slot"
  future_slot :: "'x \<Rightarrow> block_number \<Rightarrow> slot option"
  slot_produced_after :: "'x \<Rightarrow> slot \<Rightarrow> block_number option"
  is_proof_of_time_valid :: "'x \<Rightarrow> hash \<Rightarrow> slot \<Rightarrow> bytes \<Rightarrow> bool \<Rightarrow> bool"
  \<comment> \<open>hashing, encoding and signatures of bundles and singleton receipts\<close>
  bundle_hash :: "opaque_bundle \<Rightarrow> hash"
  bundle_header_hash :: "bundle_header \<Rightarrow> hash"
  singleton_receipt_hash :: "proof_of_election \<Rightarrow> execution_receipt \<Rightarrow> hash"
  bundle_encoded_size :: "opaque_bundle \<Rightarrow> nat"
  extrinsic_encoded_size :: "bytes \<Rightarrow> nat"
  singleton_receipt_encoded_size :: "singleton_receipt \<Rightarrow> nat"
  ordered_trie_root :: "bytes list \<Rightarrow> hash"
  signature_verify :: "public_key \<Rightarrow> hash \<Rightarrow> bytes \<Rightarrow> bool"
  \<comment> \<open>\<open>T::WeightInfo\<close>\<close>
  weight_deregister_operator :: weight
  weight_deregister_deactivated_operator :: weight
  weight_withdraw_stake :: weight
  weight_withdraw_stake_from_deactivated_operator :: weight
  \<comment> \<open>\<open>sp_runtime::{Perquintill, Percent}\<close>\<close>
  one :: perquintill
  from_percent :: "nat \<Rightarrow> perquintill"
  from_rational :: "nat \<Rightarrow> nat \<Rightarrow> perquintill"
  mul_floor :: "perquintill \<Rightarrow> balance \<Rightarrow> balance"
  plus_epsilon :: "perquintill \<Rightarrow> perquintill"
  saturating_reciprocal_mul_floor :: "perquintill \<Rightarrow> balance \<Rightarrow> balance"
  percent_mul_floor :: "percent \<Rightarrow> balance \<Rightarrow> balance"
  \<comment> \<open>\<open>sp_arithmetic::FixedU128\<close>, on the inner value of a number\<close>
  fixed_saturating_from_integer :: "nat \<Rightarrow> u128"
  fixed_saturating_mul :: "u128 \<Rightarrow> u128 \<Rightarrow> u128"
  fixed_try_sqrt :: "u128 \<Rightarrow> u128 option"

section \<open>What the pallet relies on\<close>

text \<open>The number of parts of a \<open>Perquintill\<close>.\<close>

definition ACCURACY :: nat where
  "ACCURACY = 10 ^ 18"

text \<open>
  Documented behaviour of \<open>Perquintill\<close> and \<open>Percent\<close>: the unit, percentages, multiplication rounded
  down, the next larger value, multiplication by the reciprocal rounded down and saturating, and that a
  fraction is at most one.
\<close>

definition perthing_laws :: "'x config \<Rightarrow> bool" where
  "perthing_laws T \<longleftrightarrow>
     one T = ACCURACY \<and>
     (\<forall>n. n \<le> 100 \<longrightarrow> from_percent T n = n * 10 ^ 16) \<and>
     (\<forall>p b. p \<le> ACCURACY \<longrightarrow> mul_floor T p b = mul_div p ACCURACY b) \<and>
     (\<forall>p. p \<le> ACCURACY \<longrightarrow> plus_epsilon T p = min (p + 1) ACCURACY) \<and>
     (\<forall>p b. 0 < p \<and> p \<le> ACCURACY \<longrightarrow>
        saturating_reciprocal_mul_floor T p b = min (mul_div ACCURACY p b) (max_of 128)) \<and>
     (\<forall>p q. from_rational T p q \<le> ACCURACY) \<and>
     (\<forall>t b. t \<le> 100 \<longrightarrow> percent_mul_floor T t b = mul_div t 100 b)"

text \<open>\<open>from_rational\<close> always rounds down.\<close>

definition from_rational_rounds_down :: "'x config \<Rightarrow> bool" where
  "from_rational_rounds_down T \<longleftrightarrow>
     (\<forall>p q. 0 < q \<and> p \<le> q \<longrightarrow> from_rational T p q = p * ACCURACY div q)"

lemma perthing_lawsD:
  assumes "perthing_laws T"
  shows "one T = ACCURACY"
    and "n \<le> 100 \<Longrightarrow> from_percent T n = n * 10 ^ 16"
    and "p \<le> ACCURACY \<Longrightarrow> mul_floor T p b = mul_div p ACCURACY b"
    and "p \<le> ACCURACY \<Longrightarrow> plus_epsilon T p = min (p + 1) ACCURACY"
    and "0 < p \<Longrightarrow> p \<le> ACCURACY \<Longrightarrow>
           saturating_reciprocal_mul_floor T p b = min (mul_div ACCURACY p b) (max_of 128)"
    and "from_rational T a q \<le> ACCURACY"
    and "t \<le> 100 \<Longrightarrow> percent_mul_floor T t b = mul_div t 100 b"
  using assms by (simp_all add: perthing_laws_def)

text \<open>
  Documented behaviour of \<open>FixedU128\<close>: conversion of an integer and multiplication, rounded down and
  saturating.
\<close>

definition FIXED_DIV :: u128 where
  "FIXED_DIV = 10 ^ 18"

definition fixed_laws :: "'x config \<Rightarrow> bool" where
  "fixed_laws T \<longleftrightarrow>
     (\<forall>n. fixed_saturating_from_integer T n = min (n * FIXED_DIV) (max_of 128)) \<and>
     (\<forall>a b. fixed_saturating_mul T a b = min (a * b div FIXED_DIV) (max_of 128))"

lemma ACCURACY_pos [simp]: "0 < ACCURACY"
  by (simp add: ACCURACY_def)

text \<open>
  A fraction rounded down, times its denominator, is at most its numerator; so fractions of a common
  denominator add up to at most one.
\<close>

lemma from_rational_times_le:
  assumes "from_rational_rounds_down T" and "0 < q" and "p \<le> q"
  shows "from_rational T p q * q \<le> p * ACCURACY"
  using assms by (simp add: from_rational_rounds_down_def)

lemma sum_from_rational_le:
  assumes rd: "from_rational_rounds_down T" and "0 < q" and "sum_list ws \<le> q"
  shows "sum_list (map (\<lambda>w. from_rational T w q) ws) \<le> ACCURACY"
proof -
  have le: "w \<le> q" if "w \<in> set ws" for w
    using that assms(3) member_le_sum_list [of w ws] by simp
  have "map (\<lambda>w. from_rational T w q) ws = map (mul_div ACCURACY q) ws"
    using rd \<open>0 < q\<close> le by (simp add: from_rational_rounds_down_def mul_div_def mult.commute)
  moreover have "sum_list (map (mul_div ACCURACY q) ws) \<le> mul_div ACCURACY q q"
    using mul_div.conv_sum_list [of ACCURACY q ws] mul_div.conv_mono [OF assms(3), of ACCURACY q]
    by simp
  ultimately have "sum_list (map (\<lambda>w. from_rational T w q) ws) \<le> mul_div ACCURACY q q"
    by (simp only:)
  with \<open>0 < q\<close> show ?thesis by (simp add: mul_div_def)
qed

text \<open>So a whole that is distributed by such fractions is never exceeded.\<close>

lemma sum_mul_floor_rational_le:
  assumes laws: "perthing_laws T" "from_rational_rounds_down T" and "0 < q" and "sum_list ws \<le> q"
  shows "sum_list (map (\<lambda>w. mul_floor T (from_rational T w q) x) ws) \<le> x"
proof -
  let ?f = "\<lambda>w. from_rational T w q"
  have "map (\<lambda>w. mul_floor T (?f w) x) ws = map (mul_div x ACCURACY) (map ?f ws)"
    using laws(1) by (simp add: perthing_lawsD mul_div_def mult.commute)
  then have "sum_list (map (\<lambda>w. mul_floor T (?f w) x) ws) \<le> mul_div x ACCURACY (sum_list (map ?f ws))"
    by (simp only: mul_div.conv_sum_list)
  also have "\<dots> \<le> mul_div x ACCURACY ACCURACY"
    by (rule mul_div.conv_mono [OF sum_from_rational_le [OF laws(2) assms(3,4)]])
  also have "\<dots> = x" by (simp add: mul_div_def)
  finally show ?thesis .
qed

text \<open>
  Documented behaviour of the \<open>fungible\<close> traits on the total issuance \<open>iss\<close> of the currency: minting
  raises it and an exact burn lowers it by the amount, everything else only moves balances.
\<close>

definition issuance_laws :: "'x config \<Rightarrow> ('x \<Rightarrow> nat) \<Rightarrow> bool" where
  "issuance_laws T iss \<longleftrightarrow>
     (\<forall>who a x x'. mint_into T who a x = Some x' \<longrightarrow> iss x' = iss x + a) \<and>
     (\<forall>who a pr f x x'. burn_from T who a pr Exact f x = Some x' \<longrightarrow> iss x' + a = iss x) \<and>
     (\<forall>h who a x x'. hold T h who a x = Some x' \<longrightarrow> iss x' = iss x) \<and>
     (\<forall>h who a pr x x'. release T h who a pr x = Some x' \<longrightarrow> iss x' = iss x) \<and>
     (\<forall>src dst a pr x x' v. transfer T src dst a pr x = Some (x', v) \<longrightarrow> iss x' = iss x) \<and>
     (\<forall>h src dst a pr re f x x'.
        transfer_on_hold T h src dst a pr re f x = Some x' \<longrightarrow> iss x' = iss x) \<and>
     (\<forall>h src dst a pr pv f x x' v.
        transfer_and_hold T h src dst a pr pv f x = Some (x', v) \<longrightarrow> iss x' = iss x) \<and>
     (\<forall>a x. iss (note_storage_fees T a x) = iss x)"

lemma issuance_lawsD:
  assumes "issuance_laws T iss"
  shows "mint_into T who a x = Some x' \<Longrightarrow> iss x' = iss x + a"
    and "burn_from T who a pv Exact f x = Some x' \<Longrightarrow> iss x' + a = iss x"
    and "hold T h who a x = Some x' \<Longrightarrow> iss x' = iss x"
    and "release T h who a pr x = Some x' \<Longrightarrow> iss x' = iss x"
    and "transfer T src dst a pv x = Some (x', v) \<Longrightarrow> iss x' = iss x"
    and "transfer_on_hold T h src dst a pr re f x = Some x' \<Longrightarrow> iss x' = iss x"
    and "transfer_and_hold T h src dst a pr pv f x = Some (x', v) \<Longrightarrow> iss x' = iss x"
    and "iss (note_storage_fees T a x) = iss x"
  using assms unfolding issuance_laws_def by metis+

end
