(* ===== verification/Domain_State.thy ===== *)
theory Domain_State
  imports Config
begin

text \<open>
  The storage of \<open>pallet-domains\<close> (the \<open>#[pallet::storage]\<close> items of crates/pallet-domains/src/lib.rs)
  as one record. A map with \<open>OptionQuery\<close> is a partial function, a map with \<open>ValueQuery\<close> a total one
  whose default is the value of an absent key. The double maps \<open>Deposits\<close> and \<open>Withdrawals\<close>, which are
  iterated by their first key, are ordered maps below that key. The field \<open>ext\<close> is the state of the
  other pallets, which only the operations of the \<open>Config\<close> trait read and write.
  An operation that fails leaves no effect: every call of the pallet runs in a storage transaction.
\<close>

record 'x domains =
  next_operator_id :: operator_id
  operator_id_owner :: "operator_id \<rightharpoonup> account_id"
  domain_staking_summary :: "domain_id \<rightharpoonup> staking_summary"
  operators :: "operator_id \<rightharpoonup> operator"
  operator_highest_slot :: "operator_id \<Rightarrow> u64"
  operator_epoch_share_price :: "operator_id \<Rightarrow> domain_epoch \<rightharpoonup> share_price"
  deposits :: "operator_id \<Rightarrow> (account_id \<times> deposit) list"
  withdrawals :: "operator_id \<Rightarrow> (account_id \<times> withdrawal) list"
  deposit_on_hold :: "operator_id \<times> account_id \<Rightarrow> balance"
  pending_slashes :: "domain_id \<rightharpoonup> operator_id list"
  pending_staking_operation_count :: "domain_id \<Rightarrow> u32"
  domain_registry :: "domain_id \<rightharpoonup> domain_object"
  block_tree :: "domain_id \<Rightarrow> domain_block_number \<rightharpoonup> hash"
  block_tree_nodes :: "hash \<rightharpoonup> block_tree_node"
  head_receipt_number :: "domain_id \<Rightarrow> domain_block_number"
  new_added_head_receipt :: "domain_id \<rightharpoonup> hash"
  consensus_block_hash :: "domain_id \<Rightarrow> block_number \<rightharpoonup> hash"
  execution_inbox :: "domain_id \<Rightarrow> domain_block_number \<Rightarrow> (block_number \<times> bundle_digest list) list"
  inboxed_bundle_author :: "hash \<rightharpoonup> operator_id"
  head_domain_number :: "domain_id \<Rightarrow> domain_block_number"
  last_epoch_staking_distribution :: "domain_id \<rightharpoonup> election_verification_params"
  latest_confirmed_domain_execution_receipt :: "domain_id \<rightharpoonup> execution_receipt"
  domain_genesis_block_execution_receipt :: "domain_id \<rightharpoonup> execution_receipt"
  latest_submitted_er :: "domain_id \<times> operator_id \<Rightarrow> domain_block_number"
  accumulated_treasury_funds :: balance
  domain_runtime_upgrade_records :: "runtime_id \<Rightarrow> (block_number \<times> domain_runtime_upgrade_entry) list"
  frozen_domains :: "domain_id list"
  domain_chain_rewards :: "domain_id \<Rightarrow> balance"
  invalid_bundle_authors :: "domain_id \<Rightarrow> operator_id list"
  deactivated_operators :: "domain_id \<Rightarrow> operator_id list"
  deregistered_operators :: "domain_id \<Rightarrow> operator_id list"
  epoch_start_slot :: "slot option"
  operator_bundle_count_in_epoch :: "operator_id \<rightharpoonup> u64"
  successful_bundles :: "domain_id \<Rightarrow> hash list"
  operator_bundle_slot :: "operator_id \<Rightarrow> slot list"
  previous_bundle_and_execution_receipt_versions ::
    "(block_number \<times> bundle_and_execution_receipt_version) list"
  events :: "event list"
  ext :: 'x

definition deposit_event :: "event \<Rightarrow> 'x domains \<Rightarrow> 'x domains" where
  "deposit_event e s = s\<lparr>events := events s @ [e]\<rparr>"

text \<open>Storage accesses that several operations share.\<close>

definition put_operator :: "operator_id \<Rightarrow> operator \<Rightarrow> 'x domains \<Rightarrow> 'x domains" where
  "put_operator i op s = s\<lparr>operators := (operators s)(i \<mapsto> op)\<rparr>"

definition put_summary :: "domain_id \<Rightarrow> staking_summary \<Rightarrow> 'x domains \<Rightarrow> 'x domains" where
  "put_summary d ss s = s\<lparr>domain_staking_summary := (domain_staking_summary s)(d \<mapsto> ss)\<rparr>"

definition get_deposit :: "'x domains \<Rightarrow> operator_id \<Rightarrow> account_id \<Rightarrow> deposit option" where
  "get_deposit s i who = om_get (deposits s i) who"

definition put_deposit :: "operator_id \<Rightarrow> account_id \<Rightarrow> deposit \<Rightarrow> 'x domains \<Rightarrow> 'x domains" where
  "put_deposit i who d s = s\<lparr>deposits := (deposits s)(i := om_insert who d (deposits s i))\<rparr>"

definition remove_deposit :: "operator_id \<Rightarrow> account_id \<Rightarrow> 'x domains \<Rightarrow> 'x domains" where
  "remove_deposit i who s = s\<lparr>deposits := (deposits s)(i := om_remove who (deposits s i))\<rparr>"

definition get_withdrawal :: "'x domains \<Rightarrow> operator_id \<Rightarrow> account_id \<Rightarrow> withdrawal option" where
  "get_withdrawal s i who = om_get (withdrawals s i) who"

definition put_withdrawal :: "operator_id \<Rightarrow> account_id \<Rightarrow> withdrawal \<Rightarrow> 'x domains \<Rightarrow> 'x domains" where
  "put_withdrawal i who w s = s\<lparr>withdrawals := (withdrawals s)(i := om_insert who w (withdrawals s i))\<rparr>"

definition remove_withdrawal :: "operator_id \<Rightarrow> account_id \<Rightarrow> 'x domains \<Rightarrow> 'x domains" where
  "remove_withdrawal i who s = s\<lparr>withdrawals := (withdrawals s)(i := om_remove who (withdrawals s i))\<rparr>"

text \<open>\<open>PendingSlashes::get(domain_id).unwrap_or_default()\<close>\<close>

definition get_pending_slashes :: "'x domains \<Rightarrow> domain_id \<Rightarrow> operator_id list" where
  "get_pending_slashes s d = case_option [] (\<lambda>p. p) (pending_slashes s d)"

definition get_execution_inbox ::
    "'x domains \<Rightarrow> domain_id \<Rightarrow> domain_block_number \<Rightarrow> block_number \<Rightarrow> bundle_digest list" where
  "get_execution_inbox s d n c = case_option [] (\<lambda>digests. digests) (om_get (execution_inbox s d n) c)"

definition append_execution_inbox ::
    "domain_id \<Rightarrow> domain_block_number \<Rightarrow> block_number \<Rightarrow> bundle_digest \<Rightarrow> 'x domains \<Rightarrow> 'x domains" where
  "append_execution_inbox d n c digest s =
     s\<lparr>execution_inbox := (execution_inbox s)
         (d := (execution_inbox s d)
            (n := om_insert c (get_execution_inbox s d n c @ [digest]) (execution_inbox s d n)))\<rparr>"

text \<open>Running an operation of another pallet, with the error the caller maps its failure to.\<close>

definition with_ext :: "'e \<Rightarrow> ('x \<Rightarrow> 'x option) \<Rightarrow> 'x domains \<Rightarrow> 'e + 'x domains" where
  "with_ext e f s = (case f (ext s) of None \<Rightarrow> Inl e | Some x \<Rightarrow> Inr (s\<lparr>ext := x\<rparr>))"

definition with_ext_value :: "'e \<Rightarrow> ('x \<Rightarrow> ('x \<times> 'v) option) \<Rightarrow> 'x domains \<Rightarrow> 'e + ('x domains \<times> 'v)" where
  "with_ext_value e f s = (case f (ext s) of None \<Rightarrow> Inl e | Some (x, v) \<Rightarrow> Inr (s\<lparr>ext := x\<rparr>, v))"

lemma with_ext_Inr_iff [result_simps]:
  "with_ext e f s = Inr t \<longleftrightarrow> (\<exists>x. f (ext s) = Some x \<and> t = s\<lparr>ext := x\<rparr>)"
  by (auto simp: with_ext_def split: option.splits)

lemma with_ext_value_Inr_iff [result_simps]:
  "with_ext_value e f s = Inr r \<longleftrightarrow> (\<exists>x v. f (ext s) = Some (x, v) \<and> r = (s\<lparr>ext := x\<rparr>, v))"
  by (auto simp: with_ext_value_def split: option.splits)

text \<open>\<open>Pallet::is_operator_pending_to_slash\<close>\<close>

definition is_operator_pending_to_slash :: "domain_id \<Rightarrow> operator_id \<Rightarrow> 'x domains \<Rightarrow> bool" where
  "is_operator_pending_to_slash d i s =
     (let latest_submitted = latest_submitted_er s (d, i)
      in if latest_submitted = 0 then False
         else head_receipt_number s d < latest_submitted)"

text \<open>\<open>Operator::status\<close>, \<open>is_operator_registered_or_deactivated\<close>, \<open>can_operator_submit_bundle\<close>\<close>

definition operator_status_of :: "operator \<Rightarrow> operator_id \<Rightarrow> 'x domains \<Rightarrow> operator_status" where
  "operator_status_of op i s =
     (if op_partial_status op = Slashed then Slashed
      else if is_operator_pending_to_slash (op_current_domain_id op) i s then PendingSlash
      else op_partial_status op)"

definition is_operator_registered_or_deactivated :: "operator \<Rightarrow> operator_id \<Rightarrow> 'x domains \<Rightarrow> bool" where
  "is_operator_registered_or_deactivated op i s =
     (case operator_status_of op i s of Registered \<Rightarrow> True | Deactivated _ \<Rightarrow> True | _ \<Rightarrow> False)"

definition can_operator_submit_bundle :: "operator \<Rightarrow> operator_id \<Rightarrow> 'x domains \<Rightarrow> bool" where
  "can_operator_submit_bundle op i s =
     (case operator_status_of op i s of
        Slashed \<Rightarrow> False | PendingSlash \<Rightarrow> False | InvalidBundle _ \<Rightarrow> False | Deactivated _ \<Rightarrow> False
      | _ \<Rightarrow> True)"

definition is_deactivated :: "operator_status \<Rightarrow> bool" where
  "is_deactivated st = (case st of Deactivated _ \<Rightarrow> True | _ \<Rightarrow> False)"

end
