(* ===== verification/Reference_Runtime.thy ===== *)
theory Reference_Runtime
  imports Domain_State
begin

text \<open>
  A concrete runtime below the pallet: a ledger with free and held balances, and the arithmetic of
  \<open>Perquintill\<close>, \<open>Percent\<close> and \<open>FixedU128\<close> as it is documented. It satisfies every law that the theorems of
  the development assume of the configuration, so that the theorems can be applied to concrete calls.
\<close>

section \<open>The ledger\<close>

record ledger =
  lg_free :: "account_id \<Rightarrow> balance"
  lg_held :: "hold_id \<Rightarrow> account_id \<Rightarrow> balance"
  lg_issuance :: nat
  lg_block_number :: block_number
  lg_slot :: slot

text \<open>An account that must be preserved keeps the existential deposit of one unit.\<close>

fun keep :: "preservation \<Rightarrow> balance" where
  "keep Expendable = 0"
| "keep Protect = 1"
| "keep Preserve = 1"

definition lg_debit :: "account_id \<Rightarrow> balance \<Rightarrow> preservation \<Rightarrow> ledger \<Rightarrow> ledger option" where
  "lg_debit who a pv x =
     (if a + keep pv \<le> lg_free x who then Some (x\<lparr>lg_free := (lg_free x)(who := lg_free x who - a)\<rparr>) else None)"

definition lg_credit :: "account_id \<Rightarrow> balance \<Rightarrow> ledger \<Rightarrow> ledger" where
  "lg_credit who a x = x\<lparr>lg_free := (lg_free x)(who := lg_free x who + a)\<rparr>"

definition lg_unhold :: "hold_id \<Rightarrow> account_id \<Rightarrow> balance \<Rightarrow> precision \<Rightarrow> ledger \<Rightarrow> (ledger \<times> balance) option" where
  "lg_unhold h who a pr x =
     (let a' = (if pr = BestEffort then min a (lg_held x h who) else a)
      in if a' \<le> lg_held x h who
         then Some (x\<lparr>lg_held := (lg_held x)(h := (lg_held x h)(who := lg_held x h who - a'))\<rparr>, a') else None)"

definition lg_set_hold :: "hold_id \<Rightarrow> account_id \<Rightarrow> balance \<Rightarrow> ledger \<Rightarrow> ledger" where
  "lg_set_hold h who a x = x\<lparr>lg_held := (lg_held x)(h := (lg_held x h)(who := lg_held x h who + a))\<rparr>"

definition lg_mint :: "account_id \<Rightarrow> balance \<Rightarrow> ledger \<Rightarrow> ledger" where
  "lg_mint who a x = (lg_credit who a x)\<lparr>lg_issuance := lg_issuance x + a\<rparr>"

definition lg_burn :: "account_id \<Rightarrow> balance \<Rightarrow> preservation \<Rightarrow> ledger \<Rightarrow> ledger option" where
  "lg_burn who a pv x =
     (if a \<le> lg_issuance x
      then map_option (\<lambda>y. y\<lparr>lg_issuance := lg_issuance x - a\<rparr>) (lg_debit who a pv x) else None)"

text \<open>The integer square root, bit by bit.\<close>

fun isqrt_bits :: "nat \<Rightarrow> nat \<Rightarrow> nat \<Rightarrow> nat" where
  "isqrt_bits 0 x r = r"
| "isqrt_bits (Suc k) x r =
     (let r' = r + 2 ^ k in isqrt_bits k x (if r' * r' \<le> x then r' else r))"

section \<open>The configuration\<close>

definition reference_runtime :: "ledger config" where
  "reference_runtime =
    \<lparr>MinOperatorStake = 100,
     MinNominatorStake = 10,
     StakeWithdrawalLockingPeriod = 5,
     StakeEpochDuration = 10,
     TreasuryAccount = 999,
     MaxPendingStakingOperation = 512,
     WithdrawalLimit = 10,
     OperatorActivationDelayInEpochs = 2,
     BlockTreePruningDepth = 2,
     BundleLongevity = 20,
     CurrentBundleAndExecutionReceiptVersion =
       \<lparr>bev_bundle_version = BundleV0, bev_execution_receipt_version = ReceiptV0\<rparr>,
     storage_fund_sub_account = (\<lambda>i. 1000 + i),
     default_public_key = 0,
     reducible_balance = (\<lambda>x who pv f. lg_free x who - keep pv),
     hold = (\<lambda>h who a x. map_option (lg_set_hold h who a) (lg_debit who a Preserve x)),
     release = (\<lambda>h who a pr x. map_option (\<lambda>(y, a'). lg_credit who a' y) (lg_unhold h who a pr x)),
     transfer = (\<lambda>src dst a pv x. map_option (\<lambda>y. (lg_credit dst a y, a)) (lg_debit src a pv x)),
     mint_into = (\<lambda>who a x. Some (lg_mint who a x)),
     burn_from = (\<lambda>who a pv pr f x. lg_burn who a pv x),
     transfer_on_hold = (\<lambda>h src dst a pr re f x.
       map_option (\<lambda>(y, a'). lg_credit dst a' y) (lg_unhold h src a pr x)),
     transfer_and_hold = (\<lambda>h src dst a pr pv f x.
       map_option (\<lambda>y. (lg_set_hold h dst a y, a)) (lg_debit src a pv x)),
     can_deposit = (\<lambda>x who a. 0 < a),
     transaction_byte_fee = (\<lambda>x. 1),
     note_storage_fees = (\<lambda>a x. x),
     confirm_transfer = (\<lambda>src dst a x. Some x),
     note_transfer = (\<lambda>src dst a x. Some x),
     reject_transfer = (\<lambda>src dst a x. Some x),
     claim_rejected_transfer = (\<lambda>src dst a x. Some x),
     reduce_domain_balance = (\<lambda>d a x. Some x),
     reward_block_author = (\<lambda>a x. lg_mint 998 a x),
     current_block_number = lg_block_number,
     parent_hash = (\<lambda>x. 5000 + (lg_block_number x - 1)),
     block_hash = (\<lambda>x n. 5000 + n),
     er_hash = (\<lambda>er. 100000 * er_domain_block_number er + er_final_state_root er),
     trace_root = (\<lambda>xs. if xs = [] then None else Some (sum_list xs)),
     blake3 = (\<lambda>bs. to_le_bytes 32 (from_le_bytes bs)),
     vrf_verify = (\<lambda>key tr sig. True),
     current_slot = lg_slot,
     future_slot = (\<lambda>x n. Some (lg_slot x + 4)),
     slot_produced_after = (\<lambda>x sl. Some (lg_block_number x - 1)),
     is_proof_of_time_valid = (\<lambda>x h sl pt q. True),
     bundle_hash = (\<lambda>b. 1 + poe_slot_number (bh_proof_of_election (ob_header b))),
     bundle_header_hash = (\<lambda>h. 2 + poe_slot_number (bh_proof_of_election h)),
     singleton_receipt_hash = (\<lambda>poe er. 3 + poe_slot_number poe),
     bundle_encoded_size = (\<lambda>b. 100 + sum_list (map length (ob_extrinsics b))),
     extrinsic_encoded_size = length,
     singleton_receipt_encoded_size = (\<lambda>r. 50),
     ordered_trie_root = (\<lambda>xs. sum_list (map from_le_bytes xs)),
     signature_verify = (\<lambda>key h sig. True),
     weight_deregister_operator = (1, 1),
     weight_deregister_deactivated_operator = (2, 2),
     weight_withdraw_stake = (3, 3),
     weight_withdraw_stake_from_deactivated_operator = (4, 4),
     one = ACCURACY,
     from_percent = (\<lambda>n. min n 100 * 10 ^ 16),
     from_rational = (\<lambda>p q. if max q 1 \<le> p then ACCURACY else p * ACCURACY div max q 1),
     mul_floor = (\<lambda>p b. p * b div ACCURACY),
     plus_epsilon = (\<lambda>p. min (p + 1) ACCURACY),
     saturating_reciprocal_mul_floor =
       (\<lambda>p b. if p = 0 then max_of 128 else min (ACCURACY * b div p) (max_of 128)),
     percent_mul_floor = (\<lambda>t b. t * b div 100),
     fixed_saturating_from_integer = (\<lambda>n. min (n * FIXED_DIV) (max_of 128)),
     fixed_saturating_mul = (\<lambda>a b. min (a * b div FIXED_DIV) (max_of 128)),
     fixed_try_sqrt = (\<lambda>a. Some (isqrt_bits 96 (a * FIXED_DIV) 0))\<rparr>"

section \<open>Its laws\<close>

lemma reference_perthing_laws: "perthing_laws reference_runtime"
  unfolding perthing_laws_def reference_runtime_def
  by (auto simp: mul_div_def div_le_mono2 ACCURACY_def less_mult_imp_div_less less_imp_le)

lemma reference_from_rational: "from_rational_rounds_down reference_runtime"
  by (auto simp: from_rational_rounds_down_def reference_runtime_def)

lemma reference_fixed_laws: "fixed_laws reference_runtime"
  by (simp add: fixed_laws_def reference_runtime_def)

lemma reference_issuance_laws: "issuance_laws reference_runtime lg_issuance"
  unfolding issuance_laws_def reference_runtime_def
  by (auto simp: lg_debit_def lg_credit_def lg_unhold_def lg_set_hold_def lg_mint_def lg_burn_def Let_def
      split: if_splits)

lemmas reference_laws = reference_perthing_laws reference_from_rational reference_fixed_laws
  reference_issuance_laws

section \<open>A state with one domain\<close>

definition reference_ledger :: ledger where
  "reference_ledger =
     \<lparr>lg_free = (\<lambda>who. if who \<le> 3 then 10000 else 0), lg_held = (\<lambda>h who. 0), lg_issuance = 40000,
      lg_block_number = 11, lg_slot = 100\<rparr>"

definition reference_domain :: domain_object where
  "reference_domain =
     \<lparr>do_owner_account_id = 1, do_created_at = 1, do_genesis_receipt_hash = 0,
      do_domain_config =
        \<lparr>dc_domain_name = ''domain'', dc_runtime_id = 0, dc_max_bundle_size = 1000,
         dc_max_bundle_weight = (1000, 1000), dc_bundle_slot_probability = (1, 1),
         dc_operator_allow_list = Anyone, dc_initial_balances = []\<rparr>,
      do_domain_runtime_info = AutoId, do_domain_instantiation_deposit = 0\<rparr>"

definition reference_summary :: staking_summary where
  "reference_summary =
     \<lparr>ss_current_epoch_index = 1, ss_current_total_stake = 0, ss_current_operators = [],
      ss_next_operators = [], ss_current_epoch_rewards = []\<rparr>"

definition reference_state :: "ledger domains" where
  "reference_state =
     \<lparr>next_operator_id = 0, operator_id_owner = Map.empty, domain_staking_summary = [0 \<mapsto> reference_summary],
      operators = Map.empty, operator_highest_slot = (\<lambda>i. 0), operator_epoch_share_price = (\<lambda>i. Map.empty),
      deposits = (\<lambda>i. []), withdrawals = (\<lambda>i. []), deposit_on_hold = (\<lambda>k. 0), pending_slashes = Map.empty,
      pending_staking_operation_count = (\<lambda>d. 0), domain_registry = [0 \<mapsto> reference_domain],
      block_tree = (\<lambda>d. Map.empty), block_tree_nodes = Map.empty, head_receipt_number = (\<lambda>d. 0),
      new_added_head_receipt = Map.empty, consensus_block_hash = (\<lambda>d. Map.empty),
      execution_inbox = (\<lambda>d n. []), inboxed_bundle_author = Map.empty, head_domain_number = (\<lambda>d. 0),
      last_epoch_staking_distribution = Map.empty, latest_confirmed_domain_execution_receipt = Map.empty,
      domain_genesis_block_execution_receipt = Map.empty, latest_submitted_er = (\<lambda>k. 0),
      accumulated_treasury_funds = 0, domain_runtime_upgrade_records = (\<lambda>r. []), frozen_domains = [],
      domain_chain_rewards = (\<lambda>d. 0), invalid_bundle_authors = (\<lambda>d. []), deactivated_operators = (\<lambda>d. []),
      deregistered_operators = (\<lambda>d. []), epoch_start_slot = Some 50,
      operator_bundle_count_in_epoch = Map.empty, successful_bundles = (\<lambda>d. []),
      operator_bundle_slot = (\<lambda>i. []), previous_bundle_and_execution_receipt_versions = [],
      events = [], ext = reference_ledger\<rparr>"

definition reference_operator_config :: operator_config where
  "reference_operator_config =
     \<lparr>oc_signing_key = 7, oc_minimum_nominator_stake = 10, oc_nomination_tax = 5\<rparr>"

text \<open>The equations by which a concrete call is evaluated.\<close>

named_theorems eval_defs \<open>definitions to unfold when a concrete call is evaluated\<close>

lemmas [eval_defs] =
  Let_def reference_runtime_def reference_ledger_def reference_domain_def reference_summary_def
  reference_state_def reference_operator_config_def lg_debit_def lg_credit_def lg_unhold_def
  lg_set_hold_def lg_mint_def lg_burn_def and_then_def ensure_def ok_or_def map_err_def or_fail_def
  checked_add_def checked_sub_def saturating_add_def saturating_mul_def wrapping_add_def
  wrapping_sub_def wrapping_mul_def saturated_into_def max_of_def ACCURACY_def FIXED_DIV_def
  with_ext_def with_ext_value_def deposit_event_def put_operator_def put_summary_def get_deposit_def
  put_deposit_def remove_deposit_def get_withdrawal_def put_withdrawal_def remove_withdrawal_def
  is_operator_pending_to_slash_def operator_status_of_def is_operator_registered_or_deactivated_def
  can_operator_submit_bundle_def is_deactivated_def deposit_default_def withdrawal_default_def
  os_remove_def os_extend_def get_pending_slashes_def get_execution_inbox_def append_execution_inbox_def

lemma is_ok_ex: "\<not> isl r \<Longrightarrow> \<exists>x. r = Inr x"
  by (cases r) auto

end
