(* ===== verification/Share_Price.thy ===== *)
theory Share_Price
  imports Reference_Runtime
begin

text \<open>
  \<open>SharePrice\<close> (crates/pallet-domains/src/staking.rs): the price of a share of an operator's pool, the two
  conversions between stake and shares, and what rounding leaves of a nominator's stake. Everything the
  pallet does with a deposit or a withdrawal goes through these conversions, so that their rounding
  decides whether a pool can always pay its nominators.
\<close>

section \<open>Definitions\<close>

definition SharePrice_new :: "'x config \<Rightarrow> share \<Rightarrow> balance \<Rightarrow> staking_error + share_price" where
  "SharePrice_new T total_shares total_stake =
     (if total_shares > total_stake then Inl ShareOverflow
      else if total_stake = 0 \<or> total_shares = 0 then Inl ZeroSharePrice
      else Inr (from_rational T total_shares total_stake))"

definition stake_to_shares :: "'x config \<Rightarrow> share_price \<Rightarrow> balance \<Rightarrow> share" where
  "stake_to_shares T price stake = mul_floor T price stake"

definition shares_to_stake :: "'x config \<Rightarrow> share_price \<Rightarrow> share \<Rightarrow> balance" where
  "shares_to_stake T price shares = saturating_reciprocal_mul_floor T (plus_epsilon T price) shares"

definition SharePrice_one :: "'x config \<Rightarrow> share_price" where
  "SharePrice_one T = one T"

section \<open>The conversions as floors\<close>

text \<open>A price that the constructor can return.\<close>

definition valid_price :: "share_price \<Rightarrow> bool" where
  "valid_price p \<longleftrightarrow> p \<le> ACCURACY"

text \<open>The parts of the price rounded up, the divisor of \<open>shares_to_stake\<close>.\<close>

definition price_above :: "share_price \<Rightarrow> nat" where
  "price_above p = min (p + 1) ACCURACY"

lemma price_above_bounds:
  assumes "valid_price p"
  shows "p \<le> price_above p" and "0 < price_above p" and "price_above p \<le> ACCURACY"
  using assms by (auto simp: price_above_def valid_price_def)

lemma stake_to_shares_eq:
  "perthing_laws T \<Longrightarrow> valid_price p \<Longrightarrow> stake_to_shares T p b = mul_div p ACCURACY b"
  by (simp add: stake_to_shares_def valid_price_def perthing_lawsD)

lemma shares_to_stake_eq:
  assumes "perthing_laws T" and "valid_price p"
  shows "shares_to_stake T p b = min (mul_div ACCURACY (price_above p) b) (max_of 128)"
  using assms price_above_bounds [OF assms(2)]
  by (simp add: shares_to_stake_def price_above_def valid_price_def perthing_lawsD)

lemma SharePrice_new_Inr_iff [result_simps]:
  "SharePrice_new T sh st = Inr p \<longleftrightarrow> 0 < sh \<and> sh \<le> st \<and> p = from_rational T sh st"
  by (auto simp: SharePrice_new_def)

lemma SharePrice_new_valid:
  "perthing_laws T \<Longrightarrow> SharePrice_new T sh st = Inr p \<Longrightarrow> valid_price p"
  by (auto simp: result_simps valid_price_def perthing_lawsD)

lemma SharePrice_one_valid: "perthing_laws T \<Longrightarrow> valid_price (SharePrice_one T)"
  by (simp add: SharePrice_one_def valid_price_def perthing_lawsD)

lemma stake_to_shares_one: "perthing_laws T \<Longrightarrow> stake_to_shares T (SharePrice_one T) b = b"
  by (simp add: stake_to_shares_eq SharePrice_one_valid) (simp add: SharePrice_one_def perthing_lawsD)

lemma stake_to_shares_le: "perthing_laws T \<Longrightarrow> valid_price p \<Longrightarrow> stake_to_shares T p b \<le> b"
  by (simp add: stake_to_shares_eq valid_price_def mul_div_le)

lemma stake_to_shares_sum:
  "perthing_laws T \<Longrightarrow> valid_price p \<Longrightarrow>
     sum_list (map (stake_to_shares T p) bs) \<le> stake_to_shares T p (sum_list bs)"
  using mul_div.conv_sum_list [of p ACCURACY bs]
  by (simp add: stake_to_shares_eq cong: map_cong)

lemma shares_to_stake_le_floor:
  "perthing_laws T \<Longrightarrow> valid_price p \<Longrightarrow>
     shares_to_stake T p b \<le> mul_div ACCURACY (price_above p) b"
  by (simp add: shares_to_stake_eq)

lemma shares_to_stake_mono:
  "perthing_laws T \<Longrightarrow> valid_price p \<Longrightarrow> a \<le> b \<Longrightarrow> shares_to_stake T p a \<le> shares_to_stake T p b"
  using mul_div.conv_mono [of a b ACCURACY "price_above p"] by (simp add: shares_to_stake_eq)

lemma shares_to_stake_bounded:
  "perthing_laws T \<Longrightarrow> valid_price p \<Longrightarrow> shares_to_stake T p b < 2 ^ 128"
  by (metis less_two_power_max min.cobounded2 shares_to_stake_eq)

section \<open>Solvency\<close>

text \<open>Dividing by the price after multiplying with it never gives back more.\<close>

lemma mul_div_round_trip:
  assumes "0 < d" and "0 < q" and "p \<le> q"
  shows "mul_div d q (mul_div p d b) \<le> b"
proof -
  have "d * (p * b div d) \<le> p * b" by simp
  then have "mul_div d q (mul_div p d b) \<le> p * b div q"
    by (simp add: mul_div_def div_le_mono)
  also have "\<dots> \<le> b" using mul_div_le [OF assms(3), of b] by (simp add: mul_div_def)
  finally show ?thesis .
qed

lemma shares_to_stake_total:
  assumes laws: "perthing_laws T" "from_rational_rounds_down T"
    and p: "SharePrice_new T sh st = Inr p"
  shows "mul_div ACCURACY (price_above p) sh \<le> st"
proof -
  from p have *: "0 < sh" "sh \<le> st" and p_eq: "p = sh * ACCURACY div st"
    using laws(2) by (auto simp: result_simps from_rational_rounds_down_def)
  have v: "valid_price p" using SharePrice_new_valid [OF laws(1) p] .
  have "sh * ACCURACY \<le> price_above p * st"
  proof (cases "p = ACCURACY")
    case True
    with * show ?thesis by (simp add: price_above_def)
  next
    case False
    with v have "price_above p = Suc p" by (simp add: price_above_def valid_price_def)
    moreover have "sh * ACCURACY < Suc (sh * ACCURACY div st) * st"
      using * by (simp add: dividend_less_times_div mult.commute)
    ultimately show ?thesis by (simp add: p_eq)
  qed
  then have "ACCURACY * sh \<le> price_above p * st" by (simp add: mult.commute)
  from div_le_mono [OF this, of "price_above p"] price_above_bounds(2) [OF v]
  show ?thesis by (simp add: mul_div_def)
qed

text \<open>However the shares of a pool are split, what the parts are worth together is at most the stake.\<close>

lemma shares_to_stake_sum:
  assumes laws: "perthing_laws T" "from_rational_rounds_down T"
    and p: "SharePrice_new T sh st = Inr p" and le: "sum_list xs \<le> sh"
  shows "sum_list (map (shares_to_stake T p) xs) \<le> st"
proof -
  note v = SharePrice_new_valid [OF laws(1) p]
  let ?f = "mul_div ACCURACY (price_above p)"
  have "sum_list (map (shares_to_stake T p) xs) \<le> sum_list (map ?f xs)"
    by (rule sum_list_mono) (rule shares_to_stake_le_floor [OF laws(1) v])
  also have "\<dots> \<le> ?f sh"
    using mul_div.conv_sum_list mul_div.conv_mono [OF le] by (rule order_trans)
  also have "\<dots> \<le> st" by (rule shares_to_stake_total [OF laws p])
  finally show ?thesis .
qed

text \<open>
  Taking shares out of a pool at its own price leaves at least one unit of stake per share that remains, so
  that the pool still has a price.
\<close>

lemma mul_div_ge: "0 < d \<Longrightarrow> d \<le> n \<Longrightarrow> x \<le> mul_div n d x"
  using mul_div_mono_num [of d n d x] by simp

lemma shares_to_stake_rest:
  assumes laws: "perthing_laws T" "from_rational_rounds_down T"
    and p: "SharePrice_new T sh st = Inr p" and le: "w \<le> sh"
  shows "shares_to_stake T p w \<le> st" and "sh - w \<le> st - shares_to_stake T p w"
proof -
  note v = SharePrice_new_valid [OF laws(1) p]
  let ?f = "mul_div ACCURACY (price_above p)"
  have "shares_to_stake T p w + (sh - w) \<le> ?f w + ?f (sh - w)"
    using shares_to_stake_le_floor [OF laws(1) v] mul_div_ge price_above_bounds(2,3) [OF v]
    by (intro add_mono) simp_all
  also have "\<dots> \<le> ?f sh" using mul_div.superadditive [of ACCURACY "price_above p" w "sh - w"] le by simp
  also have "\<dots> \<le> st" by (rule shares_to_stake_total [OF laws p])
  finally show "shares_to_stake T p w \<le> st" "sh - w \<le> st - shares_to_stake T p w" by simp_all
qed

lemmas [eval_defs] = SharePrice_new_def stake_to_shares_def shares_to_stake_def SharePrice_one_def

section \<open>Properties\<close>

text \<open>
  C6: A pool is solvent. However the shares of a pool are split among nominators, converting the parts to
  stake at the pool's share price pays out at most the pool's stake.
\<close>

theorem pool_solvent:
  assumes "perthing_laws T" and "from_rational_rounds_down T"
    and "SharePrice_new T total_shares total_stake = Inr price" and "sum_list parts \<le> total_shares"
  shows "sum_list (map (shares_to_stake T price) parts) \<le> total_stake"
  using assms by (rule shares_to_stake_sum)

theorem pool_solvent_witness:
  "SharePrice_new reference_runtime 300 401 = Inr 748129675810473815 \<and>
   sum_list (map (shares_to_stake reference_runtime 748129675810473815) [100, 150, 50]) \<le> 401"
proof
  show p: "SharePrice_new reference_runtime 300 401 = Inr 748129675810473815"
    by (simp add: eval_defs)
  show "sum_list (map (shares_to_stake reference_runtime 748129675810473815) [100, 150, 50]) \<le> 401"
    by (rule pool_solvent [OF reference_laws(1,2) p]) simp
qed

text \<open>
  C16: Depositing stake and withdrawing the shares it bought at the same price never gains anything.
\<close>

theorem share_price_round_trip:
  assumes "perthing_laws T" and "SharePrice_new T total_shares total_stake = Inr price"
  shows "shares_to_stake T price (stake_to_shares T price stake) \<le> stake"
proof -
  note v = SharePrice_new_valid [OF assms]
  have "shares_to_stake T price (stake_to_shares T price stake)
      \<le> mul_div ACCURACY (price_above price) (stake_to_shares T price stake)"
    by (rule shares_to_stake_le_floor [OF assms(1) v])
  also have "\<dots> \<le> stake"
    using price_above_bounds [OF v] by (simp add: stake_to_shares_eq [OF assms(1) v] mul_div_round_trip)
  finally show ?thesis .
qed

theorem share_price_round_trip_witness:
  "SharePrice_new reference_runtime 300 401 = Inr 748129675810473815 \<and>
   shares_to_stake reference_runtime 748129675810473815
     (stake_to_shares reference_runtime 748129675810473815 1000) \<le> 1000"
proof
  show p: "SharePrice_new reference_runtime 300 401 = Inr 748129675810473815"
    by (simp add: eval_defs)
  show "shares_to_stake reference_runtime 748129675810473815
     (stake_to_shares reference_runtime 748129675810473815 1000) \<le> 1000"
    by (rule share_price_round_trip [OF reference_laws(1) p])
qed

end
