(* ===== verification/Storage_Fund.thy ===== *)
theory Storage_Fund
  imports Share_Price
begin

text \<open>
  The bundle storage fund (crates/pallet-domains/src/bundle_storage_fund.rs) and the two functions through
  which the pallet mints (\<open>mint_funds\<close> and \<open>mint_into_treasury\<close> of staking_epoch.rs). Each operator has a
  fund, an account that pays for the storage of its bundles; a fifth of every deposit goes into it.
\<close>

section \<open>Minting\<close>

definition mint_funds :: "'x config \<Rightarrow> account_id \<Rightarrow> balance \<Rightarrow> 'x domains \<Rightarrow> staking_error + 'x domains" where
  "mint_funds T who amount_to_mint s =
     (if amount_to_mint \<noteq> 0 then with_ext MintBalance (mint_into T who amount_to_mint) s else Inr s)"

definition mint_into_treasury :: "'x config \<Rightarrow> balance \<Rightarrow> 'x domains \<Rightarrow> staking_error + 'x domains" where
  "mint_into_treasury T amount s =
     (if amount = 0 then Inr s
      else and_then (ok_or BalanceOverflow (checked_add 128 (accumulated_treasury_funds s) amount))
        (\<lambda>total_funds.
           if can_deposit T (ext s) (TreasuryAccount T) total_funds
           then and_then (with_ext MintBalance (mint_into T (TreasuryAccount T) total_funds) s)
                  (\<lambda>s. Inr (s\<lparr>accumulated_treasury_funds := 0\<rparr>))
           else Inr (s\<lparr>accumulated_treasury_funds := total_funds\<rparr>)))"

section \<open>The fund\<close>

definition STORAGE_FEE_RESERVE :: "'x config \<Rightarrow> perquintill" where
  "STORAGE_FEE_RESERVE T = from_percent T 20"

datatype redeem_price = StorageFundRedeemPrice balance balance

fun redeem :: "'x config \<Rightarrow> redeem_price \<Rightarrow> balance \<Rightarrow> balance" where
  "redeem T (StorageFundRedeemPrice total_balance total_deposit) deposit =
     (if total_balance = total_deposit then deposit
      else mul_floor T (from_rational T deposit total_deposit) total_balance)"

definition storage_fund_account :: "'x config \<Rightarrow> operator_id \<Rightarrow> account_id" where
  "storage_fund_account T i = storage_fund_sub_account T i"

definition charge_bundle_storage_fee ::
    "'x config \<Rightarrow> operator_id \<Rightarrow> u32 \<Rightarrow> 'x domains \<Rightarrow> storage_fund_error + 'x domains" where
  "charge_bundle_storage_fee T i bundle_size s =
     (if bundle_size = 0 then Inr s
      else
        let storage_fee = wrapping_mul 128 (transaction_byte_fee T (ext s)) bundle_size
        in and_then
             (with_ext BundleStorageFeePayment
                (burn_from T (storage_fund_account T i) storage_fee Expendable Exact Polite) s)
             (\<lambda>s. Inr (s\<lparr>ext := note_storage_fees T storage_fee (ext s)\<rparr>)))"

text \<open>One iteration of the loop of \<open>refund_storage_fee\<close>.\<close>

definition refund_operator ::
    "'x config \<Rightarrow> balance \<Rightarrow> u32 \<Rightarrow> operator_id \<times> u32 \<Rightarrow> balance \<times> 'x domains \<Rightarrow>
       storage_fund_error + balance \<times> 'x domains" where
  "refund_operator T total_storage_fee total_paid_storage entry st =
     (case entry of (i, paid_storage) \<Rightarrow>
      case st of (remaining_fee, s) \<Rightarrow>
        if operators s i = None \<or> paid_storage = 0 then Inr (remaining_fee, s)
        else
          let refund_amount = mul_floor T (from_rational T paid_storage total_paid_storage) total_storage_fee
          in and_then
               (with_ext StorageFundMintBalance (mint_into T (storage_fund_account T i) refund_amount) s)
               (\<lambda>s. and_then (ok_or StorageFundBalanceUnderflow (checked_sub remaining_fee refund_amount))
                 (\<lambda>remaining_fee. Inr (remaining_fee, s))))"

definition refund_storage_fee ::
    "'x config \<Rightarrow> balance \<Rightarrow> (operator_id \<times> u32) list \<Rightarrow> 'x domains \<Rightarrow>
       storage_fund_error + 'x domains" where
  "refund_storage_fee T total_storage_fee paid_bundle_storage_fees s =
     (if total_storage_fee = 0 then Inr s
      else
        let total_paid_storage = fold (\<lambda>e acc. wrapping_add 32 acc (snd e)) paid_bundle_storage_fees 0
        in and_then
             (try_fold (refund_operator T total_storage_fee total_paid_storage)
                paid_bundle_storage_fees (total_storage_fee, s))
             (\<lambda>(remaining_fee, s).
                map_err (\<lambda>_. StorageFundMintBalance) (mint_into_treasury T remaining_fee s)))"

definition deposit_reserve_for_storage_fund ::
    "'x config \<Rightarrow> operator_id \<Rightarrow> account_id \<Rightarrow> balance \<Rightarrow> 'x domains \<Rightarrow>
       storage_fund_error + new_deposit \<times> 'x domains" where
  "deposit_reserve_for_storage_fund T i source deposit_amount s =
     (let storage_fee_reserve = mul_floor T (STORAGE_FEE_RESERVE T) deposit_amount
      in and_then
           (with_ext_value FailToDeposit
              (transfer T source (storage_fund_account T i) storage_fee_reserve Preserve) s)
           (\<lambda>(s, _).
              let s = deposit_event (StorageFeeDeposited i source storage_fee_reserve) s
              in and_then (ok_or StorageFundBalanceUnderflow (checked_sub deposit_amount storage_fee_reserve))
                   (\<lambda>staking. Inr (\<lparr>nd_staking = staking, nd_storage_fee_deposit = storage_fee_reserve\<rparr>, s))))"

definition withdraw_and_hold ::
    "'x config \<Rightarrow> operator_id \<Rightarrow> account_id \<Rightarrow> balance \<Rightarrow> 'x domains \<Rightarrow>
       storage_fund_error + 'x domains \<times> balance" where
  "withdraw_and_hold T i dest_account withdraw_amount s =
     (if withdraw_amount = 0 then Inr (s, 0)
      else with_ext_value WithdrawAndHold
             (transfer_and_hold T StorageFundWithdrawal (storage_fund_account T i) dest_account
                withdraw_amount Exact Expendable Force) s)"

definition withdraw_to ::
    "'x config \<Rightarrow> operator_id \<Rightarrow> account_id \<Rightarrow> balance \<Rightarrow> 'x domains \<Rightarrow>
       storage_fund_error + 'x domains \<times> balance" where
  "withdraw_to T i dest_account withdraw_amount s =
     (if withdraw_amount = 0 then Inr (s, 0)
      else with_ext_value FailToWithdraw
             (transfer T (storage_fund_account T i) dest_account withdraw_amount Expendable) s)"

definition total_balance :: "'x config \<Rightarrow> operator_id \<Rightarrow> 'x domains \<Rightarrow> balance" where
  "total_balance T i s = reducible_balance T (ext s) (storage_fund_account T i) Expendable Polite"

definition storage_fund_redeem_price :: "'x config \<Rightarrow> operator_id \<Rightarrow> balance \<Rightarrow> 'x domains \<Rightarrow> redeem_price" where
  "storage_fund_redeem_price T i operator_total_deposit s =
     StorageFundRedeemPrice (total_balance T i s) operator_total_deposit"

definition transfer_all_to_treasury ::
    "'x config \<Rightarrow> operator_id \<Rightarrow> 'x domains \<Rightarrow> storage_fund_error + 'x domains" where
  "transfer_all_to_treasury T i s =
     and_then
       (with_ext_value BalanceTransfer
          (transfer T (storage_fund_account T i) (TreasuryAccount T) (total_balance T i s) Expendable) s)
       (\<lambda>(s, _). Inr s)"

section \<open>Lemmas\<close>

text \<open>What the pallet has minted or owes to the treasury.\<close>

definition issued :: "('x \<Rightarrow> nat) \<Rightarrow> 'x domains \<Rightarrow> nat" where
  "issued iss s = iss (ext s) + accumulated_treasury_funds s"

lemma issued_frame [simp]:
  "issued iss (deposit_event e s) = issued iss s"
  "issued iss (s\<lparr>operators := f\<rparr>) = issued iss s"
  by (simp_all add: issued_def deposit_event_def)

lemma mint_into_treasury_issued:
  assumes laws: "issuance_laws T iss" and "mint_into_treasury T amount s = Inr s'"
  shows "issued iss s' = issued iss s + amount" and "operators s' = operators s"
  using assms(2)
  by (auto simp: mint_into_treasury_def issued_def result_simps arith_simps
      dest!: issuance_lawsD(1) [OF laws] split: if_splits)

lemma mint_funds_issued:
  assumes laws: "issuance_laws T iss" and "mint_funds T who amount s = Inr s'"
  shows "issued iss s' = issued iss s + amount"
  using assms(2)
  by (auto simp: mint_funds_def issued_def result_simps dest!: issuance_lawsD(1) [OF laws] split: if_splits)

text \<open>Each iteration moves its refund from the remaining fee into the currency.\<close>

lemma refund_operator_issued:
  assumes laws: "issuance_laws T iss" and "refund_operator T fee paid e (r, s) = Inr (r', s')"
  shows "issued iss s' + r' = issued iss s + r"
  using assms(2)
  by (auto simp: refund_operator_def issued_def result_simps arith_simps Let_def
      dest!: issuance_lawsD(1) [OF laws] split: if_splits prod.splits)

lemma refund_loop_issued:
  assumes "issuance_laws T iss" and "try_fold (refund_operator T fee paid) es (r, s) = Inr (r', s')"
  shows "issued iss s' + r' = issued iss s + r"
  using try_fold_invariant [OF assms(2), of "\<lambda>(r', s'). issued iss s' + r' = issued iss s + r"]
    refund_operator_issued [OF assms(1)]
  by (auto split: prod.splits)

lemma storage_reserve_fifth:
  "perthing_laws T \<Longrightarrow> mul_floor T (STORAGE_FEE_RESERVE T) amount = amount div 5"
  by (simp add: STORAGE_FEE_RESERVE_def perthing_lawsD mul_div_def ACCURACY_def)

text \<open>The refunds of a confirmed block never exceed the fee that is refunded.\<close>

definition refund_share :: "'x config \<Rightarrow> balance \<Rightarrow> u32 \<Rightarrow> operator_id \<times> u32 \<Rightarrow> balance" where
  "refund_share T fee total_paid e = mul_floor T (from_rational T (snd e) total_paid) fee"

lemma fold_wrapping_add:
  "acc + sum_list (map snd es) < 2 ^ w \<Longrightarrow>
     fold (\<lambda>e acc. wrapping_add w acc (snd e)) es acc = acc + sum_list (map snd es)"
  by (induction es arbitrary: acc) (simp_all add: wrapping_add_exact add.assoc)

lemma refund_loop_no_underflow:
  assumes "sum_list (map (refund_share T fee total_paid) (filter (\<lambda>e. snd e \<noteq> 0) es)) \<le> r"
  shows "try_fold (refund_operator T fee total_paid) es (r, s) \<noteq> Inl StorageFundBalanceUnderflow"
  using assms
proof (induction es arbitrary: r s)
  case (Cons e es)
  then show ?case
    by (auto simp: refund_operator_def refund_share_def Let_def and_then_def with_ext_def ok_or_def checked_sub_def
        split: prod.splits if_splits option.splits sum.splits)
qed simp

lemma refund_shares_le:
  assumes "perthing_laws T" and "from_rational_rounds_down T"
    and "total_paid = sum_list (map snd es)"
  shows "sum_list (map (refund_share T fee total_paid) (filter (\<lambda>e. snd e \<noteq> 0) es)) \<le> fee"
proof (cases "filter (\<lambda>e. snd e \<noteq> 0) es = []")
  case False
  then obtain e where "e \<in> set es" "snd e \<noteq> 0" by (auto simp: filter_empty_conv)
  then have pos: "0 < total_paid"
    using assms(3) member_le_sum_list [of "snd e" "map snd es"] by (simp add: image_iff) fastforce
  have "sum_list (map snd (filter (\<lambda>e. snd e \<noteq> 0) es)) \<le> total_paid"
    unfolding assms(3) by (induction es) auto
  from sum_mul_floor_rational_le [OF assms(1,2) pos this, of fee] show ?thesis
    by (simp add: refund_share_def [abs_def] comp_def)
qed simp

lemmas [eval_defs] =
  mint_funds_def mint_into_treasury_def STORAGE_FEE_RESERVE_def storage_fund_account_def
  charge_bundle_storage_fee_def refund_operator_def refund_storage_fee_def
  deposit_reserve_for_storage_fund_def withdraw_and_hold_def withdraw_to_def total_balance_def
  storage_fund_redeem_price_def transfer_all_to_treasury_def

section \<open>Properties\<close>

text \<open>
  C7: Refunding storage fees loses and creates nothing: the currency issued plus the funds kept for the
  treasury grow by exactly the fee that is refunded, whichever operators still exist.
\<close>

theorem refund_storage_fee_conserves:
  assumes laws: "issuance_laws T iss" and ok: "refund_storage_fee T fee paid s = Inr s'"
  shows "issued iss s' = issued iss s + fee"
proof (cases "fee = 0")
  case False
  then obtain r t
    where loop: "try_fold (refund_operator T fee (fold (\<lambda>e acc. wrapping_add 32 acc (snd e)) paid 0)) paid (fee, s)
        = Inr (r, t)"
      and mint: "mint_into_treasury T r t = Inr s'"
    using ok by (auto simp: refund_storage_fee_def Let_def result_simps)
  from refund_loop_issued [OF laws loop] mint_into_treasury_issued(1) [OF laws mint] show ?thesis by simp
qed (use ok in \<open>simp add: refund_storage_fee_def\<close>)

theorem refund_storage_fee_conserves_witness:
  "\<exists>s'. refund_storage_fee reference_runtime 100 [(1, 20), (2, 10)] reference_state = Inr s' \<and>
     issued lg_issuance s' = issued lg_issuance reference_state + 100"
proof -
  have "\<not> isl (refund_storage_fee reference_runtime 100 [(1, 20), (2, 10)] reference_state)"
    by (simp add: eval_defs)
  from is_ok_ex [OF this] refund_storage_fee_conserves [OF reference_laws(4)] show ?thesis by blast
qed

text \<open>
  C17: Refunding storage fees never fails for want of funds: the shares of the operators, each rounded down,
  never add up to more than the fee.
\<close>

theorem refund_storage_fee_never_underflows:
  assumes "perthing_laws T" and "from_rational_rounds_down T" and "sum_list (map snd paid) < 2 ^ 32"
  shows "refund_storage_fee T fee paid s \<noteq> Inl StorageFundBalanceUnderflow"
proof -
  have paid: "fold (\<lambda>e acc. wrapping_add 32 acc (snd e)) paid 0 = sum_list (map snd paid)"
    using fold_wrapping_add [of 0 paid 32] assms(3) by simp
  from refund_loop_no_underflow [OF refund_shares_le [OF assms(1,2) refl]]
  have loop: "try_fold (refund_operator T fee (sum_list (map snd paid))) paid (fee, s)
      \<noteq> Inl StorageFundBalanceUnderflow" .
  show ?thesis
    unfolding refund_storage_fee_def Let_def paid
    using loop by (auto simp: and_then_def map_err_def split: sum.splits)
qed

theorem refund_storage_fee_never_underflows_witness:
  "refund_storage_fee reference_runtime 100 [(1, 20), (2, 10), (3, 1)] reference_state
     \<noteq> Inl StorageFundBalanceUnderflow"
  by (rule refund_storage_fee_never_underflows [OF reference_laws(1,2)]) simp

text \<open>
  C18: A deposit is split exactly: a fifth of it, rounded down, goes to the operator's storage fund and the
  rest is staked, and the split itself cannot fail.
\<close>

theorem deposit_split_exact:
  assumes laws: "perthing_laws T"
  shows "deposit_reserve_for_storage_fund T i source amount s \<noteq> Inl StorageFundBalanceUnderflow \<and>
    (\<forall>d s'. deposit_reserve_for_storage_fund T i source amount s = Inr (d, s') \<longrightarrow>
       nd_storage_fee_deposit d = amount div 5 \<and> nd_staking d + nd_storage_fee_deposit d = amount)"
  by (auto simp: deposit_reserve_for_storage_fund_def storage_reserve_fifth [OF laws] Let_def and_then_def
      with_ext_value_def ok_or_def checked_sub_def split: option.splits sum.splits)

theorem deposit_split_exact_witness:
  "\<exists>d s'. deposit_reserve_for_storage_fund reference_runtime 4 1 1007 reference_state = Inr (d, s') \<and>
     nd_storage_fee_deposit d = 201 \<and> nd_staking d = 806"
proof -
  have "\<not> isl (deposit_reserve_for_storage_fund reference_runtime 4 1 1007 reference_state)"
    by (simp add: eval_defs)
  then obtain d s' where "deposit_reserve_for_storage_fund reference_runtime 4 1 1007 reference_state = Inr (d, s')"
    using is_ok_ex by (metis surj_pair)
  with deposit_split_exact [OF reference_laws(1), of 4 1 1007 reference_state] show ?thesis by force
qed

text \<open>
  C19: A storage fund can always pay back its depositors: for any deposits that add up to at most the total
  deposit, the redeemed amounts add up to at most the balance of the fund.
\<close>

theorem storage_fund_solvent:
  assumes "perthing_laws T" and "from_rational_rounds_down T" and "0 < total_deposit"
    and "sum_list ds \<le> total_deposit"
  shows "sum_list (map (redeem T (StorageFundRedeemPrice fund_balance total_deposit)) ds) \<le> fund_balance"
proof (cases "fund_balance = total_deposit")
  case True
  then show ?thesis using assms(4) by (simp add: map_idI)
next
  case False
  then have "redeem T (StorageFundRedeemPrice fund_balance total_deposit) =
      (\<lambda>w. mul_floor T (from_rational T w total_deposit) fund_balance)"
    by (simp add: fun_eq_iff)
  with sum_mul_floor_rational_le [OF assms, of fund_balance] show ?thesis by simp
qed

theorem storage_fund_solvent_witness:
  "sum_list (map (redeem reference_runtime (StorageFundRedeemPrice 70 90)) [30, 30, 29]) \<le> 70"
  by (rule storage_fund_solvent [OF reference_laws(1,2)]) simp_all

end
