(* ===== verification/Staking_Deposits.thy ===== *)
theory Staking_Deposits
  imports Storage_Fund
begin

text \<open>
  The deposits and withdrawals of the nominators of an operator (crates/pallet-domains/src/staking.rs): a
  deposit is pending in the epoch it is made in and becomes shares at that epoch's share price; a withdrawal
  is in shares until the epoch it is made in has ended and becomes a balance to unlock then.
\<close>

section \<open>Definitions\<close>

definition note_pending_staking_operation ::
    "'x config \<Rightarrow> domain_id \<Rightarrow> 'x domains \<Rightarrow> staking_error + 'x domains" where
  "note_pending_staking_operation T d s =
     (let pending_op_count = pending_staking_operation_count s d
      in and_then (ensure (pending_op_count < MaxPendingStakingOperation T) TooManyPendingStakingOperation)
           (\<lambda>_. Inr (s\<lparr>pending_staking_operation_count :=
              (pending_staking_operation_count s)(d := saturating_add 32 pending_op_count 1)\<rparr>)))"

definition pending_total :: "pending_deposit \<Rightarrow> staking_error + balance" where
  "pending_total pd = ok_or BalanceOverflow (checked_add 128 (pd_amount pd) (pd_storage_fee_deposit pd))"

text \<open>The deposit is also returned where the conversion fails: some callers go on with it.\<close>

definition do_convert_previous_epoch_deposits ::
    "'x config \<Rightarrow> 'x domains \<Rightarrow> operator_id \<Rightarrow> deposit \<Rightarrow> epoch_index \<Rightarrow>
       (staking_error + unit) \<times> deposit" where
  "do_convert_previous_epoch_deposits T s i dep current_domain_epoch_index =
     (case dep_pending dep of
        None \<Rightarrow> (Inr (), dep)
      | Some pending \<Rightarrow>
          (case operator_epoch_share_price s i (pd_effective_domain_epoch pending) of
             None \<Rightarrow>
               (ensure (current_domain_epoch_index \<le> de_epoch (pd_effective_domain_epoch pending))
                  MissingOperatorEpochSharePrice, dep)
           | Some epoch_share_price \<Rightarrow>
               (let dep = dep\<lparr>dep_pending := None\<rparr>;
                    known = dep_known dep;
                    new_shares = stake_to_shares T epoch_share_price (pd_amount pending)
                in case checked_add 128 (kd_shares known) new_shares of
                     None \<Rightarrow> (Inl ShareOverflow, dep)
                   | Some shares \<Rightarrow>
                       (let known = known\<lparr>kd_shares := shares\<rparr>;
                            dep = dep\<lparr>dep_known := known\<rparr>
                        in case checked_add 128 (kd_storage_fee_deposit known) (pd_storage_fee_deposit pending) of
                             None \<Rightarrow> (Inl BalanceOverflow, dep)
                           | Some fee \<Rightarrow>
                               (Inr (), dep\<lparr>dep_known := known\<lparr>kd_storage_fee_deposit := fee\<rparr>\<rparr>)))))"

definition do_convert_previous_epoch_withdrawal ::
    "'x config \<Rightarrow> 'x domains \<Rightarrow> operator_id \<Rightarrow> withdrawal \<Rightarrow> epoch_index \<Rightarrow>
       (staking_error + unit) \<times> withdrawal" where
  "do_convert_previous_epoch_withdrawal T s i wd current_domain_epoch_index =
     (case w_withdrawal_in_shares wd of
        None \<Rightarrow> (Inr (), wd)
      | Some withdraw \<Rightarrow>
          if de_epoch (ws_domain_epoch withdraw) \<ge> current_domain_epoch_index then (Inr (), wd)
          else
            (case operator_epoch_share_price s i (ws_domain_epoch withdraw) of
               None \<Rightarrow> (Inl MissingOperatorEpochSharePrice, wd)
             | Some epoch_share_price \<Rightarrow>
                 (let wd = wd\<lparr>w_withdrawal_in_shares := None\<rparr>;
                      withdrawal_amount = shares_to_stake T epoch_share_price (ws_shares withdraw)
                  in case checked_add 128 (w_total_withdrawal_amount wd) withdrawal_amount of
                       None \<Rightarrow> (Inl BalanceOverflow, wd)
                     | Some new_total \<Rightarrow>
                         (Inr (), wd\<lparr>w_total_withdrawal_amount := new_total,
                            w_withdrawals := w_withdrawals wd @
                              [\<lparr>wb_unlock_at = ws_unlock_at withdraw,
                                wb_amount_to_unlock = withdrawal_amount,
                                wb_storage_fee_refund = ws_storage_fee_refund withdraw\<rparr>]\<rparr>))))"

definition add_pending_deposit ::
    "domain_epoch \<Rightarrow> new_deposit \<Rightarrow> pending_deposit option \<Rightarrow> staking_error + pending_deposit" where
  "add_pending_deposit current_domain_epoch new_dep pending =
     (case pending of
        None \<Rightarrow>
          Inr \<lparr>pd_effective_domain_epoch = current_domain_epoch, pd_amount = nd_staking new_dep,
               pd_storage_fee_deposit = nd_storage_fee_deposit new_dep\<rparr>
      | Some pending_dep \<Rightarrow>
          and_then (ok_or BalanceOverflow (checked_add 128 (pd_amount pending_dep) (nd_staking new_dep)))
            (\<lambda>amount.
          and_then (ok_or BalanceOverflow
                      (checked_add 128 (pd_storage_fee_deposit pending_dep) (nd_storage_fee_deposit new_dep)))
            (\<lambda>fee. Inr \<lparr>pd_effective_domain_epoch = current_domain_epoch, pd_amount = amount,
                         pd_storage_fee_deposit = fee\<rparr>)))"

definition do_calculate_previous_epoch_deposit_shares_and_add_new_deposit ::
    "'x config \<Rightarrow> operator_id \<Rightarrow> account_id \<Rightarrow> domain_epoch \<Rightarrow> new_deposit \<Rightarrow> balance option \<Rightarrow>
       'x domains \<Rightarrow> staking_error + 'x domains" where
  "do_calculate_previous_epoch_deposit_shares_and_add_new_deposit T i nominator_id current_domain_epoch
       new_dep required_minimum_nominator_stake s =
     (let dep = case_option deposit_default (\<lambda>d. d) (get_deposit s i nominator_id)
      in and_then (or_fail (do_convert_previous_epoch_deposits T s i dep (de_epoch current_domain_epoch)))
           (\<lambda>dep.
         and_then (add_pending_deposit current_domain_epoch new_dep (dep_pending dep))
           (\<lambda>pending_dep.
         and_then
           (case required_minimum_nominator_stake of
              Some minimum_nominator_stake \<Rightarrow>
                if kd_shares (dep_known dep) = 0
                then and_then (pending_total pending_dep)
                       (\<lambda>amount. ensure (amount \<ge> minimum_nominator_stake) MinimumNominatorStake)
                else Inr ()
            | None \<Rightarrow> Inr ())
           (\<lambda>_. Inr (put_deposit i nominator_id (dep\<lparr>dep_pending := Some pending_dep\<rparr>) s)))))"

definition hold_deposit ::
    "'x config \<Rightarrow> account_id \<Rightarrow> operator_id \<Rightarrow> balance \<Rightarrow> 'x domains \<Rightarrow> staking_error + 'x domains" where
  "hold_deposit T who i amount s =
     and_then (ensure (reducible_balance T (ext s) who Preserve Polite \<ge> amount) InsufficientBalance)
       (\<lambda>_.
     and_then (ok_or BalanceOverflow (checked_add 128 (deposit_on_hold s (i, who)) amount))
       (\<lambda>on_hold.
          with_ext BalanceFreeze (hold T StakingStaked who amount)
            (s\<lparr>deposit_on_hold := (deposit_on_hold s)((i, who) := on_hold)\<rparr>)))"

section \<open>Lemmas\<close>

text \<open>The storage fee deposit of a nominator, known and pending.\<close>

definition deposit_fee :: "deposit \<Rightarrow> balance" where
  "deposit_fee dep =
     kd_storage_fee_deposit (dep_known dep) + case_option 0 pd_storage_fee_deposit (dep_pending dep)"

text \<open>The totals of a withdrawal are the sums of its parts.\<close>

definition withdrawal_wf :: "withdrawal \<Rightarrow> bool" where
  "withdrawal_wf wd \<longleftrightarrow>
     w_total_withdrawal_amount wd = sum_list (map wb_amount_to_unlock (w_withdrawals wd)) \<and>
     w_total_storage_fee_withdrawal wd =
       sum_list (map wb_storage_fee_refund (w_withdrawals wd)) +
       case_option 0 ws_storage_fee_refund (w_withdrawal_in_shares wd)"

lemma withdrawal_default_wf [simp]: "withdrawal_wf withdrawal_default"
  by (simp add: withdrawal_wf_def withdrawal_default_def)

lemma convert_deposits_cases:
  assumes "do_convert_previous_epoch_deposits T s i dep e = (Inr (), dep')"
  obtains
    (none) "dep_pending dep = None" "dep' = dep"
  | (current) pd where "dep_pending dep = Some pd" "dep' = dep"
      "operator_epoch_share_price s i (pd_effective_domain_epoch pd) = None"
      "e \<le> de_epoch (pd_effective_domain_epoch pd)"
  | (converted) pd p where "dep_pending dep = Some pd"
      "operator_epoch_share_price s i (pd_effective_domain_epoch pd) = Some p"
      "dep_pending dep' = None"
      "kd_shares (dep_known dep') = kd_shares (dep_known dep) + stake_to_shares T p (pd_amount pd)"
      "kd_storage_fee_deposit (dep_known dep') =
         kd_storage_fee_deposit (dep_known dep) + pd_storage_fee_deposit pd"
  using assms
  by (auto simp: do_convert_previous_epoch_deposits_def Let_def checked_add_def ensure_def
      split: option.splits if_splits)

text \<open>Of the state, the conversions read only the share prices.\<close>

lemma convert_cong:
  assumes "operator_epoch_share_price t = operator_epoch_share_price s"
  shows "do_convert_previous_epoch_deposits T t = do_convert_previous_epoch_deposits T s"
    and "do_convert_previous_epoch_withdrawal T t = do_convert_previous_epoch_withdrawal T s"
  unfolding fun_eq_iff do_convert_previous_epoch_deposits_def do_convert_previous_epoch_withdrawal_def assms
  by simp_all

lemma convert_withdrawal_wf:
  assumes "do_convert_previous_epoch_withdrawal T s i wd e = (Inr (), wd')" and "withdrawal_wf wd"
  shows "withdrawal_wf wd'"
  using assms
  by (auto simp: do_convert_previous_epoch_withdrawal_def Let_def checked_add_def withdrawal_wf_def
      split: option.splits if_splits)

lemma convert_withdrawal_current:
  assumes "do_convert_previous_epoch_withdrawal T s i wd e = (Inr (), wd')"
    and "w_withdrawal_in_shares wd' = Some ws"
  shows "wd' = wd" and "e \<le> de_epoch (ws_domain_epoch ws)"
  using assms
  by (auto simp: do_convert_previous_epoch_withdrawal_def Let_def checked_add_def
      split: option.splits if_splits)

text \<open>What the helpers of registration and nomination change.\<close>

lemma note_pending_staking_operation_InrE:
  assumes "note_pending_staking_operation T d s = Inr s'"
  obtains "pending_staking_operation_count s d < MaxPendingStakingOperation T"
    "s' = s\<lparr>pending_staking_operation_count := (pending_staking_operation_count s)
            (d := saturating_add 32 (pending_staking_operation_count s d) 1)\<rparr>"
  using assms by (auto simp: note_pending_staking_operation_def Let_def result_simps)

lemma note_pending_if_InrE:
  assumes "(if b then note_pending_staking_operation T d s else Inr s) = Inr s'"
  obtains c where "s' = s\<lparr>pending_staking_operation_count := c\<rparr>"
proof (cases b)
  case True
  with assms note_pending_staking_operation_InrE that show ?thesis by (metis (full_types))
next
  case False
  with assms have "s' = s\<lparr>pending_staking_operation_count := pending_staking_operation_count s\<rparr>" by simp
  then show ?thesis by (rule that)
qed

lemma deposit_reserve_InrE:
  assumes "map_err f (deposit_reserve_for_storage_fund T i source amount s) = Inr (nd, s')"
  obtains x e where "s' = s\<lparr>events := e, ext := x\<rparr>"
    "nd_storage_fee_deposit nd = mul_floor T (STORAGE_FEE_RESERVE T) amount"
    "nd_staking nd + nd_storage_fee_deposit nd = amount"
proof -
  let ?fee = "mul_floor T (STORAGE_FEE_RESERVE T) amount"
  from assms obtain x v where s': "s' = deposit_event (StorageFeeDeposited i source ?fee) (s\<lparr>ext := x\<rparr>)"
    and "?fee \<le> amount" and nd: "nd = \<lparr>nd_staking = amount - ?fee, nd_storage_fee_deposit = ?fee\<rparr>"
    by (auto simp: deposit_reserve_for_storage_fund_def Let_def result_simps arith_simps)
  then show ?thesis
    by (intro that [of x "events s @ [StorageFeeDeposited i source ?fee]"]) (simp_all add: deposit_event_def)
qed

lemma hold_deposit_InrE:
  assumes "hold_deposit T who i amount s = Inr s'"
  obtains x where "s' = s\<lparr>deposit_on_hold := (deposit_on_hold s)((i, who) := deposit_on_hold s (i, who) + amount),
            ext := x\<rparr>"
  using assms by (auto simp: hold_deposit_def result_simps arith_simps)

lemma add_pending_deposit_Inr:
  assumes "add_pending_deposit de nd pending = Inr pd"
  shows "pd_effective_domain_epoch pd = de"
    and "pd_amount pd = case_option 0 pd_amount pending + nd_staking nd"
    and "pd_storage_fee_deposit pd = case_option 0 pd_storage_fee_deposit pending + nd_storage_fee_deposit nd"
  using assms by (auto simp: add_pending_deposit_def result_simps arith_simps split: option.splits)

lemma add_new_deposit_InrE:
  assumes "do_calculate_previous_epoch_deposit_shares_and_add_new_deposit T i who de nd req s = Inr s'"
  obtains dep pd where
    "do_convert_previous_epoch_deposits T s i
       (case_option deposit_default (\<lambda>d. d) (get_deposit s i who)) (de_epoch de) = (Inr (), dep)"
    "add_pending_deposit de nd (dep_pending dep) = Inr pd"
    "\<And>m. req = Some m \<Longrightarrow> kd_shares (dep_known dep) = 0 \<Longrightarrow>
       m \<le> pd_amount pd + pd_storage_fee_deposit pd"
    "s' = put_deposit i who (dep\<lparr>dep_pending := Some pd\<rparr>) s"
proof -
  let ?old = "case_option deposit_default (\<lambda>d. d) (get_deposit s i who)"
  from assms obtain dep pd u where
    conv: "do_convert_previous_epoch_deposits T s i ?old (de_epoch de) = (Inr (), dep)"
    and add: "add_pending_deposit de nd (dep_pending dep) = Inr pd"
    and check: "(case req of Some m \<Rightarrow>
         if kd_shares (dep_known dep) = 0
         then and_then (pending_total pd) (\<lambda>amount. ensure (amount \<ge> m) MinimumNominatorStake) else Inr ()
       | None \<Rightarrow> Inr ()) = Inr u"
    and s': "s' = put_deposit i who (dep\<lparr>dep_pending := Some pd\<rparr>) s"
    unfolding do_calculate_previous_epoch_deposit_shares_and_add_new_deposit_def Let_def
      and_then_Inr_iff or_fail_Inr_iff by auto
  from check have "m \<le> pd_amount pd + pd_storage_fee_deposit pd"
    if "req = Some m" "kd_shares (dep_known dep) = 0" for m
    using that by (auto simp: result_simps pending_total_def arith_simps)
  from that [OF conv add this s'] show ?thesis .
qed

lemmas [eval_defs] =
  note_pending_staking_operation_def pending_total_def do_convert_previous_epoch_deposits_def
  do_convert_previous_epoch_withdrawal_def add_pending_deposit_def
  do_calculate_previous_epoch_deposit_shares_and_add_new_deposit_def hold_deposit_def

section \<open>Properties\<close>

text \<open>
  C20: A deposit is converted once, at the price of its epoch. After a conversion that succeeds, the storage
  fee deposit is what it was, what is still pending belongs to an epoch that has not ended and has no price,
  and converting again changes nothing.
\<close>

theorem convert_deposits_once:
  assumes conv: "do_convert_previous_epoch_deposits T s i dep e = (Inr (), dep')"
  shows "deposit_fee dep' = deposit_fee dep \<and>
    (\<forall>pd. dep_pending dep' = Some pd \<longrightarrow>
       e \<le> de_epoch (pd_effective_domain_epoch pd) \<and>
       operator_epoch_share_price s i (pd_effective_domain_epoch pd) = None) \<and>
    do_convert_previous_epoch_deposits T s i dep' e = (Inr (), dep')"
  using conv
proof (cases rule: convert_deposits_cases)
  case none
  with conv show ?thesis by simp
next
  case (current pd)
  with conv show ?thesis by simp
next
  case (converted pd p)
  then show ?thesis by (simp add: deposit_fee_def do_convert_previous_epoch_deposits_def)
qed

text \<open>A deposit of 100 in the first epoch, whose price is one half.\<close>

definition pending_example :: deposit where
  "pending_example =
     \<lparr>dep_known = \<lparr>kd_shares = 7, kd_storage_fee_deposit = 3\<rparr>,
      dep_pending = Some \<lparr>pd_effective_domain_epoch = DomainEpoch 0 1, pd_amount = 100,
                           pd_storage_fee_deposit = 25\<rparr>\<rparr>"

definition priced_state :: "ledger domains" where
  "priced_state =
     reference_state\<lparr>operator_epoch_share_price := (\<lambda>i. [DomainEpoch 0 1 \<mapsto> 500000000000000000])\<rparr>"

theorem convert_deposits_once_witness:
  "\<exists>dep'. do_convert_previous_epoch_deposits reference_runtime priced_state 0 pending_example 2 = (Inr (), dep') \<and>
     deposit_fee dep' = deposit_fee pending_example \<and> kd_shares (dep_known dep') = 57"
proof -
  let ?dep = "\<lparr>dep_known = \<lparr>kd_shares = 57, kd_storage_fee_deposit = 28\<rparr>, dep_pending = None\<rparr>"
  have c: "do_convert_previous_epoch_deposits reference_runtime priced_state 0 pending_example 2 = (Inr (), ?dep)"
    by (simp add: priced_state_def pending_example_def eval_defs)
  from convert_deposits_once [OF c] have "deposit_fee ?dep = deposit_fee pending_example" by (rule conjunct1)
  then show ?thesis by (intro exI [of _ ?dep] conjI c) simp_all
qed

end
