(* ===== verification/Staking.thy ===== *)
theory Staking
  imports Staking_Deposits
begin

text \<open>
  The life of an operator (crates/pallet-domains/src/staking.rs): registration and nomination, deregistration,
  deactivation and reactivation, rewards, and the slashing of the operators of a bad receipt or of invalid
  bundles.
\<close>

section \<open>Registration and nomination\<close>

definition do_register_operator ::
    "'x config \<Rightarrow> account_id \<Rightarrow> domain_id \<Rightarrow> balance \<Rightarrow> operator_config \<Rightarrow> 'x domains \<Rightarrow>
       staking_error + (operator_id \<times> epoch_index) \<times> 'x domains" where
  "do_register_operator T operator_owner d amount config s =
     and_then (note_pending_staking_operation T d s) (\<lambda>s.
     and_then (ensure (oc_signing_key config \<noteq> default_public_key T) InvalidOperatorSigningKey) (\<lambda>_.
     and_then (ensure (oc_minimum_nominator_stake config \<ge> MinNominatorStake T) MinimumNominatorStake) (\<lambda>_.
     and_then (ok_or DomainNotInitialized (domain_registry s d)) (\<lambda>domain_obj.
     and_then (ensure (is_operator_allowed (dc_operator_allow_list (do_domain_config domain_obj)) operator_owner)
                 OperatorNotAllowed) (\<lambda>_.
     let i = next_operator_id s in
     and_then (ok_or MaximumOperatorId (checked_add 64 i 1)) (\<lambda>next_id.
     let s = s\<lparr>next_operator_id := next_id, operator_id_owner := (operator_id_owner s)(i \<mapsto> operator_owner)\<rparr> in
     and_then (ensure (amount \<ge> MinOperatorStake T) MinimumOperatorStake) (\<lambda>_.
     and_then (map_err BundleStorageFund (deposit_reserve_for_storage_fund T i operator_owner amount s))
       (\<lambda>(new_dep, s).
     and_then (hold_deposit T operator_owner i (nd_staking new_dep) s) (\<lambda>s.
     and_then (ok_or DomainNotInitialized (domain_staking_summary s d)) (\<lambda>domain_stake_summary.
     let first_share_price = SharePrice_one T;
         op = \<lparr>op_signing_key = oc_signing_key config,
               op_current_domain_id = d,
               op_next_domain_id = d,
               op_minimum_nominator_stake = oc_minimum_nominator_stake config,
               op_nomination_tax = oc_nomination_tax config,
               op_current_total_stake = nd_staking new_dep,
               op_current_total_shares = stake_to_shares T first_share_price (nd_staking new_dep),
               op_partial_status = Registered,
               op_deposits_in_epoch = 0,
               op_withdrawals_in_epoch = 0,
               op_total_storage_fee_deposit = nd_storage_fee_deposit new_dep\<rparr>;
         epoch = ss_current_epoch_index domain_stake_summary;
         current_domain_epoch = DomainEpoch d epoch;
         s = put_operator i op s;
         s = s\<lparr>operator_epoch_share_price := (operator_epoch_share_price s)
                 (i := (operator_epoch_share_price s i)(current_domain_epoch \<mapsto> first_share_price))\<rparr> in
     and_then (do_calculate_previous_epoch_deposit_shares_and_add_new_deposit T i operator_owner
                 current_domain_epoch new_dep None s) (\<lambda>s.
     Inr ((i, epoch),
          put_summary d (domain_stake_summary\<lparr>ss_next_operators :=
            os_insert i (ss_next_operators domain_stake_summary)\<rparr>) s))))))))))))"

definition do_nominate_operator ::
    "'x config \<Rightarrow> operator_id \<Rightarrow> account_id \<Rightarrow> balance \<Rightarrow> 'x domains \<Rightarrow> staking_error + 'x domains" where
  "do_nominate_operator T i nominator_id amount s =
     and_then (ensure (amount \<noteq> 0) ZeroDeposit) (\<lambda>_.
     and_then (ok_or UnknownOperator (operators s i)) (\<lambda>op.
     and_then (ensure (operator_status_of op i s = Registered) OperatorNotRegistered) (\<lambda>_.
     and_then (if op_deposits_in_epoch op = 0 \<and> op_withdrawals_in_epoch op = 0
               then note_pending_staking_operation T (op_current_domain_id op) s else Inr s) (\<lambda>s.
     and_then (ok_or DomainNotInitialized (domain_staking_summary s (op_current_domain_id op)))
       (\<lambda>domain_stake_summary.
     and_then (map_err BundleStorageFund (deposit_reserve_for_storage_fund T i nominator_id amount s))
       (\<lambda>(new_dep, s).
     and_then (hold_deposit T nominator_id i (nd_staking new_dep) s) (\<lambda>s.
     let s = deposit_event (OperatorNominated i nominator_id (nd_staking new_dep)) s in
     and_then (ok_or BalanceOverflow (checked_add 128 (op_deposits_in_epoch op) (nd_staking new_dep)))
       (\<lambda>in_epoch.
     and_then (ok_or BalanceOverflow
                 (checked_add 128 (op_total_storage_fee_deposit op) (nd_storage_fee_deposit new_dep)))
       (\<lambda>fee.
     let op = op\<lparr>op_deposits_in_epoch := in_epoch, op_total_storage_fee_deposit := fee\<rparr>;
         current_domain_epoch =
           DomainEpoch (op_current_domain_id op) (ss_current_epoch_index domain_stake_summary) in
     and_then (do_calculate_previous_epoch_deposit_shares_and_add_new_deposit T i nominator_id
                 current_domain_epoch new_dep (Some (op_minimum_nominator_stake op)) s) (\<lambda>s.
     Inr (put_operator i op s)))))))))))"

section \<open>Leaving and returning\<close>

definition do_deregister_operator ::
    "'x config \<Rightarrow> account_id \<Rightarrow> operator_id \<Rightarrow> 'x domains \<Rightarrow> staking_error + weight \<times> 'x domains" where
  "do_deregister_operator T operator_owner i s =
     and_then (ensure (operator_id_owner s i = Some operator_owner) NotOperatorOwner) (\<lambda>_.
     and_then (ok_or UnknownOperator (operators s i)) (\<lambda>op.
     and_then (ensure (is_operator_registered_or_deactivated op i s) OperatorNotRegisterdOrDeactivated) (\<lambda>_.
     let d = op_current_domain_id op in
     and_then (ok_or DomainNotInitialized (domain_staking_summary s d)) (\<lambda>stake_summary.
     and_then (ok_or BlockNumberOverflow
                 (checked_add 32 (head_domain_number s d) (StakeWithdrawalLockingPeriod T))) (\<lambda>unlock_at.
     let info = \<lparr>odi_domain_epoch = DomainEpoch d (ss_current_epoch_index stake_summary),
                 odi_unlock_at = unlock_at\<rparr>;
         deactivated = is_deactivated (op_partial_status op);
         s = (if deactivated
              then s\<lparr>deactivated_operators := (deactivated_operators s)
                       (d := os_remove i (deactivated_operators s d))\<rparr>
              else s);
         w = (if deactivated then weight_deregister_deactivated_operator T
              else weight_deregister_operator T);
         op = op\<lparr>op_partial_status := Deregistered info\<rparr>;
         stake_summary = stake_summary\<lparr>ss_next_operators := os_remove i (ss_next_operators stake_summary)\<rparr>;
         s = s\<lparr>deregistered_operators := (deregistered_operators s)
                 (d := os_insert i (deregistered_operators s d))\<rparr> in
     Inr (w, put_operator i op (put_summary d stake_summary s)))))))"

text \<open>
  Removing an operator from the current and the next set, as deactivation, slashing and the marking of
  invalid bundle authors do it.
\<close>

definition remove_from_sets ::
    "operator_id \<Rightarrow> operator \<Rightarrow> staking_summary \<Rightarrow> staking_error + staking_summary" where
  "remove_from_sets i op stake_summary =
     and_then
       (case om_get (ss_current_operators stake_summary) i of
          Some _ \<Rightarrow>
            ok_or BalanceUnderflow (checked_sub (ss_current_total_stake stake_summary) (op_current_total_stake op))
        | None \<Rightarrow> Inr (ss_current_total_stake stake_summary))
       (\<lambda>total_stake.
          Inr (stake_summary\<lparr>ss_current_operators := om_remove i (ss_current_operators stake_summary),
                 ss_current_total_stake := total_stake,
                 ss_next_operators := os_remove i (ss_next_operators stake_summary)\<rparr>))"

definition do_deactivate_operator :: "'x config \<Rightarrow> operator_id \<Rightarrow> 'x domains \<Rightarrow> staking_error + 'x domains" where
  "do_deactivate_operator T i s =
     and_then (ok_or UnknownOperator (operators s i)) (\<lambda>op.
     and_then (ensure (operator_status_of op i s = Registered) OperatorNotRegistered) (\<lambda>_.
     let d = op_current_domain_id op in
     and_then (ok_or DomainNotInitialized (domain_staking_summary s d)) (\<lambda>stake_summary.
     and_then (ok_or EpochOverflow
                 (checked_add 32 (ss_current_epoch_index stake_summary) (OperatorActivationDelayInEpochs T)))
       (\<lambda>reactivation_delay.
     and_then (remove_from_sets i op stake_summary) (\<lambda>stake_summary.
     let s = s\<lparr>deactivated_operators := (deactivated_operators s)
                 (d := os_insert i (deactivated_operators s d))\<rparr>;
         s = deposit_event (OperatorDeactivated d i reactivation_delay) s in
     Inr (put_operator i (op\<lparr>op_partial_status := Deactivated reactivation_delay\<rparr>)
            (put_summary d stake_summary s)))))))"

definition do_reactivate_operator :: "'x config \<Rightarrow> operator_id \<Rightarrow> 'x domains \<Rightarrow> staking_error + 'x domains" where
  "do_reactivate_operator T i s =
     and_then (ok_or UnknownOperator (operators s i)) (\<lambda>op.
     and_then (case operator_status_of op i s of
                 Deactivated reactivation_delay \<Rightarrow> Inr reactivation_delay | _ \<Rightarrow> Inl OperatorNotDeactivated)
       (\<lambda>reactivation_delay.
     let d = op_current_domain_id op in
     and_then (ok_or DomainNotInitialized (domain_staking_summary s d)) (\<lambda>stake_summary.
     and_then (ensure (ss_current_epoch_index stake_summary \<ge> reactivation_delay)
                 ReactivationDelayPeriodIncomplete) (\<lambda>_.
     let stake_summary = stake_summary\<lparr>ss_next_operators := os_insert i (ss_next_operators stake_summary)\<rparr>;
         s = s\<lparr>deactivated_operators := (deactivated_operators s)
                 (d := os_remove i (deactivated_operators s d))\<rparr>;
         s = deposit_event (OperatorReactivated i d) s in
     Inr (put_operator i (op\<lparr>op_partial_status := Registered\<rparr>) (put_summary d stake_summary s))))))"

definition do_cleanup_operator ::
    "'x config \<Rightarrow> operator_id \<Rightarrow> balance \<Rightarrow> 'x domains \<Rightarrow> staking_error + 'x domains" where
  "do_cleanup_operator T i total_stake s =
     and_then (map_err BundleStorageFund (transfer_all_to_treasury T i s)) (\<lambda>s.
     and_then (mint_into_treasury T total_stake s) (\<lambda>s.
     Inr (s\<lparr>operator_id_owner := (operator_id_owner s)(i := None),
            operator_highest_slot := (operator_highest_slot s)(i := 0),
            operator_epoch_share_price := (operator_epoch_share_price s)(i := Map.empty)\<rparr>)))"

section \<open>Rewards\<close>

definition operator_weights :: "operator_id list \<Rightarrow> (operator_id \<times> u64) list" where
  "operator_weights ops =
     fold (\<lambda>i acc. om_insert i (case om_get acc i of Some weight \<Rightarrow> wrapping_add 64 weight 1 | None \<Rightarrow> 1) acc)
       ops []"

definition reward_operator ::
    "'x config \<Rightarrow> operator_reward_source \<Rightarrow> u64 \<Rightarrow> balance \<Rightarrow> operator_id \<times> u64 \<Rightarrow>
       balance \<times> staking_summary \<times> 'x domains \<Rightarrow> staking_error + balance \<times> staking_summary \<times> 'x domains" where
  "reward_operator T source total_count rewards entry st =
     (case entry of (i, weight) \<Rightarrow>
      case st of (allocated_rewards, stake_summary, s) \<Rightarrow>
      let operator_reward = mul_floor T (from_rational T weight total_count) rewards;
          epoch_rewards = ss_current_epoch_rewards stake_summary;
          stake_summary = stake_summary\<lparr>ss_current_epoch_rewards :=
            om_insert i (case om_get epoch_rewards i of
                           Some r \<Rightarrow> saturating_add 128 r operator_reward
                         | None \<Rightarrow> operator_reward) epoch_rewards\<rparr>;
          s = deposit_event (OperatorRewarded source i operator_reward) s
      in and_then (ok_or BalanceOverflow (checked_add 128 allocated_rewards operator_reward))
           (\<lambda>allocated_rewards. Inr (allocated_rewards, stake_summary, s)))"

definition do_reward_operators ::
    "'x config \<Rightarrow> domain_id \<Rightarrow> operator_reward_source \<Rightarrow> operator_id list \<Rightarrow> balance \<Rightarrow> 'x domains \<Rightarrow>
       staking_error + 'x domains" where
  "do_reward_operators T d source ops rewards s =
     (if rewards = 0 then Inr s
      else
        and_then (ok_or DomainNotInitialized (domain_staking_summary s d)) (\<lambda>stake_summary.
        and_then (try_fold (reward_operator T source (length ops) rewards) (operator_weights ops)
                    (0, stake_summary, s))
          (\<lambda>(allocated_rewards, stake_summary, s).
        and_then (ok_or BalanceUnderflow (checked_sub rewards allocated_rewards)) (\<lambda>dust.
        and_then (mint_into_treasury T dust s) (\<lambda>s. Inr (put_summary d stake_summary s))))))"

section \<open>Slashing\<close>

definition mark_operator_as_slashed ::
    "slashed_reason \<Rightarrow> operator_id \<Rightarrow> 'x domains \<Rightarrow> staking_error + 'x domains" where
  "mark_operator_as_slashed slash_reason i s =
     (case operators s i of
        None \<Rightarrow> Inr s
      | Some op \<Rightarrow>
          (let d = op_current_domain_id op;
               pending = get_pending_slashes s d
           in if i \<in> set pending then Inr s
              else
                and_then (ok_or DomainNotInitialized (domain_staking_summary s d)) (\<lambda>stake_summary.
                and_then (remove_from_sets i op stake_summary) (\<lambda>stake_summary.
                let s = s\<lparr>pending_slashes := (pending_slashes s)(d \<mapsto> os_insert i pending)\<rparr>;
                    s = deposit_event (OperatorSlashed i slash_reason) s
                in Inr (put_operator i (op\<lparr>op_partial_status := Slashed\<rparr>) (put_summary d stake_summary s))))))"

definition do_mark_operators_as_slashed ::
    "operator_id list \<Rightarrow> slashed_reason \<Rightarrow> 'x domains \<Rightarrow> staking_error + 'x domains" where
  "do_mark_operators_as_slashed operator_ids slash_reason s =
     try_fold (mark_operator_as_slashed slash_reason) operator_ids s"

section \<open>Authors of invalid bundles\<close>

definition is_invalid :: "inboxed_bundle \<Rightarrow> bool" where
  "is_invalid b = (case ib_bundle b of Invalid _ \<Rightarrow> True | Valid _ \<Rightarrow> False)"

text \<open>The authors at the indices from \<open>index\<close> on; \<open>None\<close> where the receipt has no bundle at an index.\<close>

fun invalid_bundle_authors_from ::
    "'x domains \<Rightarrow> inboxed_bundle list \<Rightarrow> nat \<Rightarrow> bundle_digest list \<Rightarrow> operator_id list option" where
  "invalid_bundle_authors_from s inboxed index [] = Some []"
| "invalid_bundle_authors_from s inboxed index (digest # digests) =
     (case inboxed_bundle_author s (bd_header_hash digest) of
        None \<Rightarrow> invalid_bundle_authors_from s inboxed (Suc index) digests
      | Some bundle_author \<Rightarrow>
          if index < length inboxed
          then if is_invalid (inboxed ! index)
               then map_option ((#) bundle_author) (invalid_bundle_authors_from s inboxed (Suc index) digests)
               else invalid_bundle_authors_from s inboxed (Suc index) digests
          else None)"

definition invalid_bundle_authors_for_receipt ::
    "domain_id \<Rightarrow> execution_receipt \<Rightarrow> 'x domains \<Rightarrow> operator_id list option" where
  "invalid_bundle_authors_for_receipt d er s =
     invalid_bundle_authors_from s (er_inboxed_bundles er) 0
       (get_execution_inbox s d (er_domain_block_number er) (er_consensus_block_number er))"

definition mark_invalid_bundle_author ::
    "operator_id \<Rightarrow> hash \<Rightarrow> staking_summary \<times> operator_id list \<times> 'x domains \<Rightarrow>
       staking_error + staking_summary \<times> operator_id list \<times> 'x domains" where
  "mark_invalid_bundle_author i h st =
     (case st of (stake_summary, authors, s) \<Rightarrow>
      case operators s i of
        None \<Rightarrow> Inr st
      | Some op \<Rightarrow>
          if operator_status_of op i s \<noteq> Registered then Inr st
          else
            and_then (remove_from_sets i op stake_summary) (\<lambda>stake_summary.
            Inr (stake_summary, os_insert i authors,
                 put_operator i (op\<lparr>op_partial_status := InvalidBundle h\<rparr>) s)))"

definition unmark_invalid_bundle_author ::
    "operator_id \<Rightarrow> hash \<Rightarrow> staking_summary \<times> operator_id list \<times> 'x domains \<Rightarrow>
       staking_error + staking_summary \<times> operator_id list \<times> 'x domains" where
  "unmark_invalid_bundle_author i h st =
     (case st of (stake_summary, authors, s) \<Rightarrow>
      case operators s i of
        None \<Rightarrow> Inr st
      | Some op \<Rightarrow>
          if op_partial_status op \<noteq> InvalidBundle h then Inr st
          else
            Inr (stake_summary\<lparr>ss_next_operators := os_insert i (ss_next_operators stake_summary)\<rparr>,
                 os_remove i authors,
                 put_operator i (op\<lparr>op_partial_status := Registered\<rparr>) s))"

definition store_invalid_bundle_authors ::
    "domain_id \<Rightarrow> staking_summary \<times> operator_id list \<times> 'x domains \<Rightarrow> 'x domains" where
  "store_invalid_bundle_authors d st =
     (case st of (stake_summary, authors, s) \<Rightarrow>
        (put_summary d stake_summary s)\<lparr>invalid_bundle_authors := (invalid_bundle_authors s)(d := authors)\<rparr>)"

definition do_mark_invalid_bundle_authors ::
    "'x config \<Rightarrow> domain_id \<Rightarrow> execution_receipt \<Rightarrow> 'x domains \<Rightarrow> staking_error + 'x domains" where
  "do_mark_invalid_bundle_authors T d er s =
     and_then (ok_or Panic (invalid_bundle_authors_for_receipt d er s)) (\<lambda>authors.
     let pending = get_pending_slashes s d in
     and_then (ok_or DomainNotInitialized (domain_staking_summary s d)) (\<lambda>stake_summary.
     and_then
       (try_fold (\<lambda>i st. if i \<in> set pending then Inr st else mark_invalid_bundle_author i (er_hash T er) st)
          authors (stake_summary, invalid_bundle_authors s d, s))
       (\<lambda>st. Inr (store_invalid_bundle_authors d st))))"

definition do_unmark_invalid_bundle_authors ::
    "'x config \<Rightarrow> domain_id \<Rightarrow> execution_receipt \<Rightarrow> 'x domains \<Rightarrow> staking_error + 'x domains" where
  "do_unmark_invalid_bundle_authors T d er s =
     and_then (ok_or Panic (invalid_bundle_authors_for_receipt d er s)) (\<lambda>authors.
     let pending = get_pending_slashes s d in
     and_then (ok_or DomainNotInitialized (domain_staking_summary s d)) (\<lambda>stake_summary.
     and_then
       (try_fold (\<lambda>i st. if i \<in> set pending \<or> is_operator_pending_to_slash d i s then Inr st
                          else unmark_invalid_bundle_author i (er_hash T er) st)
          authors (stake_summary, invalid_bundle_authors s d, s))
       (\<lambda>st. Inr (store_invalid_bundle_authors d st))))"

section \<open>Lemmas on registration and nomination\<close>




section \<open>Lemmas on rewards\<close>

text \<open>The weights of the operators add up to the number of entries of the list.\<close>

lemma operator_weights_aux:
  assumes "om_invar acc" and "om_total (\<lambda>w. w) acc + length ops < 2 ^ 64"
  shows "om_invar (fold (\<lambda>i acc. om_insert i
            (case om_get acc i of Some weight \<Rightarrow> wrapping_add 64 weight 1 | None \<Rightarrow> 1) acc) ops acc) \<and>
         om_total (\<lambda>w. w) (fold (\<lambda>i acc. om_insert i
            (case om_get acc i of Some weight \<Rightarrow> wrapping_add 64 weight 1 | None \<Rightarrow> 1) acc) ops acc)
           = om_total (\<lambda>w. w) acc + length ops"
  using assms
proof (induction ops arbitrary: acc)
  case (Cons i ops)
  let ?acc = "om_insert i (case om_get acc i of Some weight \<Rightarrow> wrapping_add 64 weight 1 | None \<Rightarrow> 1) acc"
  have "om_total (\<lambda>w. w) ?acc = om_total (\<lambda>w. w) acc + 1"
  proof (cases "om_get acc i")
    case None
    then show ?thesis using btree.total_ins_fresh [OF Cons.prems(1) None, of "\<lambda>w. w"] by simp
  next
    case (Some w)
    have "w \<le> om_total (\<lambda>w. w) acc"
      using btree.total_member_le [OF Cons.prems(1) Some, of "\<lambda>w. w"] .
    then have "wrapping_add 64 w 1 = w + 1"
      using Cons.prems(2) by (intro wrapping_add_exact) simp
    with Some show ?thesis
      using btree.total_ins [OF Cons.prems(1) Some, of "\<lambda>w. w" "w + 1"] by simp
  qed
  with Cons.IH [of ?acc] Cons.prems om_invar_insert [OF Cons.prems(1)] show ?case by simp
qed simp

lemma operator_weights_total:
  "length ops < 2 ^ 64 \<Longrightarrow> sum_list (map snd (operator_weights ops)) = length ops"
  using operator_weights_aux [of "[]" ops]
  by (simp add: operator_weights_def om_total_def comp_def)

definition operator_share :: "'x config \<Rightarrow> u64 \<Rightarrow> balance \<Rightarrow> operator_id \<times> u64 \<Rightarrow> balance" where
  "operator_share T n rewards e = mul_floor T (from_rational T (snd e) n) rewards"

definition add_reward :: "operator_id \<Rightarrow> balance \<Rightarrow> (operator_id \<times> balance) list \<Rightarrow> (operator_id \<times> balance) list" where
  "add_reward i r m =
     om_insert i (case om_get m i of Some r' \<Rightarrow> saturating_add 128 r' r | None \<Rightarrow> r) m"

lemma add_reward_total:
  assumes "om_invar m" and "om_total (\<lambda>r. r) m + r < 2 ^ 128"
  shows "om_total (\<lambda>r. r) (add_reward i r m) = om_total (\<lambda>r. r) m + r"
proof (cases "om_get m i")
  case None
  then show ?thesis using btree.total_ins_fresh [OF assms(1) None, of "\<lambda>r. r"] by (simp add: add_reward_def)
next
  case (Some r')
  have "r' \<le> om_total (\<lambda>r. r) m" using btree.total_member_le [OF assms(1) Some, of "\<lambda>r. r"] .
  then have "saturating_add 128 r' r = r' + r"
    using assms(2) by (intro saturating_add_exact) simp
  with Some show ?thesis
    using btree.total_ins [OF assms(1) Some, of "\<lambda>r. r" "r' + r"] by (simp add: add_reward_def)
qed

lemma reward_operator_eq:
  "reward_operator T src n rewards e (a, ss, s) =
     (let r = operator_share T n rewards e in
      if a + r < 2 ^ 128
      then Inr (a + r, ss\<lparr>ss_current_epoch_rewards := add_reward (fst e) r (ss_current_epoch_rewards ss)\<rparr>,
                deposit_event (OperatorRewarded src (fst e) r) s)
      else Inl BalanceOverflow)"
  by (cases e) (simp add: reward_operator_def operator_share_def add_reward_def Let_def checked_add_def ok_or_def)

text \<open>The loop adds the shares to the rewards of the epoch and to what is allocated.\<close>

lemma reward_loop:
  assumes "try_fold (reward_operator T src n rewards) es (a, ss, s) = Inr (a', ss', s')"
  shows "a' = a + sum_list (map (operator_share T n rewards) es) \<and> issued iss s' = issued iss s \<and>
    domain_staking_summary s' = domain_staking_summary s \<and>
    ss_current_epoch_index ss' = ss_current_epoch_index ss \<and>
    ss_current_operators ss' = ss_current_operators ss \<and>
    ss_current_total_stake ss' = ss_current_total_stake ss \<and> ss_next_operators ss' = ss_next_operators ss"
  using assms
proof (induction es arbitrary: a ss s)
  case (Cons e es)
  then show ?case
    by (fastforce simp: reward_operator_eq Let_def result_simps deposit_event_def issued_def split: if_splits)
qed simp


lemma reward_loop_rewards:
  assumes "try_fold (reward_operator T src n rewards) es (a, ss, s) = Inr (a', ss', s')"
    and "om_invar (ss_current_epoch_rewards ss)"
    and "om_total (\<lambda>r. r) (ss_current_epoch_rewards ss) + sum_list (map (operator_share T n rewards) es) < 2 ^ 128"
  shows "om_invar (ss_current_epoch_rewards ss') \<and>
    om_total (\<lambda>r. r) (ss_current_epoch_rewards ss')
       = om_total (\<lambda>r. r) (ss_current_epoch_rewards ss) + sum_list (map (operator_share T n rewards) es)"
  using assms
proof (induction es arbitrary: a ss s)
  case (Cons e es)
  let ?m = "ss_current_epoch_rewards ss" and ?r = "operator_share T n rewards e"
  let ?m' = "add_reward (fst e) ?r ?m"
  have t: "om_total (\<lambda>r. r) ?m' = om_total (\<lambda>r. r) ?m + ?r"
    using Cons.prems(2,3) by (intro add_reward_total) simp_all
  from Cons.prems(1) have "try_fold (reward_operator T src n rewards) es
      (a + ?r, ss\<lparr>ss_current_epoch_rewards := ?m'\<rparr>, deposit_event (OperatorRewarded src (fst e) ?r) s)
      = Inr (a', ss', s')"
    by (auto simp: result_simps reward_operator_eq Let_def split: if_splits)
  from Cons.IH [OF this] t Cons.prems(2,3) show ?case by (simp add: om_invar_insert add_reward_def)
qed simp

section \<open>Lemmas on the operator sets\<close>

lemma remove_from_sets_Inr:
  assumes "remove_from_sets i op ss = Inr ss'"
  shows "ss_current_operators ss' = om_remove i (ss_current_operators ss)"
    and "ss_next_operators ss' = os_remove i (ss_next_operators ss)"
    and "ss_current_epoch_index ss' = ss_current_epoch_index ss"
    and "ss_current_epoch_rewards ss' = ss_current_epoch_rewards ss"
    and "ss_current_total_stake ss' +
           (if om_get (ss_current_operators ss) i = None then 0 else op_current_total_stake op)
         = ss_current_total_stake ss"
  using assms by (auto simp: remove_from_sets_def result_simps arith_simps split: option.splits)

lemma do_deactivate_operator_InrE:
  assumes "do_deactivate_operator T i s = Inr s'"
  obtains op ss ss' ev where
    "operators s i = Some op" "operator_status_of op i s = Registered"
    "domain_staking_summary s (op_current_domain_id op) = Some ss"
    "ss_current_epoch_index ss + OperatorActivationDelayInEpochs T < 2 ^ 32"
    "remove_from_sets i op ss = Inr ss'"
    "s' = s\<lparr>deactivated_operators := (deactivated_operators s)
              (op_current_domain_id op := os_insert i (deactivated_operators s (op_current_domain_id op))),
            events := ev,
            domain_staking_summary := (domain_staking_summary s)(op_current_domain_id op \<mapsto> ss'),
            operators := (operators s)(i \<mapsto> op\<lparr>op_partial_status :=
              Deactivated (ss_current_epoch_index ss + OperatorActivationDelayInEpochs T)\<rparr>)\<rparr>"
  using assms
  by (auto simp: do_deactivate_operator_def Let_def result_simps arith_simps deposit_event_def put_operator_def
      put_summary_def)

lemma mark_operator_as_slashed_InrE:
  assumes "mark_operator_as_slashed reason i s = Inr s'"
  obtains (unknown) "operators s i = None" "s' = s"
  | (pending) op where "operators s i = Some op" "s' = s"
      "i \<in> set (get_pending_slashes s (op_current_domain_id op))"
  | (slashed) op ss ss' ev where "operators s i = Some op"
      "domain_staking_summary s (op_current_domain_id op) = Some ss"
      "remove_from_sets i op ss = Inr ss'"
      "s' = s\<lparr>pending_slashes := (pending_slashes s)(op_current_domain_id op \<mapsto>
                os_insert i (get_pending_slashes s (op_current_domain_id op))),
              events := ev,
              domain_staking_summary := (domain_staking_summary s)(op_current_domain_id op \<mapsto> ss'),
              operators := (operators s)(i \<mapsto> op\<lparr>op_partial_status := Slashed\<rparr>)\<rparr>"
proof (cases "operators s i")
  case None
  with assms have "s' = s" by (simp add: mark_operator_as_slashed_def)
  with None show ?thesis by (rule unknown)
next
  case (Some op)
  let ?d = "op_current_domain_id op" and ?p = "get_pending_slashes s (op_current_domain_id op)"
  show ?thesis
  proof (cases "i \<in> set ?p")
    case True
    with Some assms have "s' = s" by (simp add: mark_operator_as_slashed_def Let_def)
    from pending [OF Some this True] show ?thesis .
  next
    case False
    with Some assms obtain ss ss' where "domain_staking_summary s ?d = Some ss" "remove_from_sets i op ss = Inr ss'"
      "s' = put_operator i (op\<lparr>op_partial_status := Slashed\<rparr>) (put_summary ?d ss'
         (deposit_event (OperatorSlashed i reason) (s\<lparr>pending_slashes := (pending_slashes s)(?d \<mapsto> os_insert i ?p)\<rparr>)))"
      by (auto simp: mark_operator_as_slashed_def Let_def and_then_Inr_iff ok_or_Inr_iff)
    with Some show ?thesis
      by (intro slashed [of op ss ss' "events s @ [OperatorSlashed i reason]"])
        (simp_all add: put_operator_def put_summary_def deposit_event_def)
  qed
qed

text \<open>An operator that is pending to be slashed stays so while others are marked.\<close>

definition is_pending_slash :: "'x domains \<Rightarrow> operator_id \<Rightarrow> bool" where
  "is_pending_slash s i =
     (case operators s i of
        Some op \<Rightarrow> i \<in> set (get_pending_slashes s (op_current_domain_id op))
      | None \<Rightarrow> True)"

lemma mark_operator_as_slashed_pending:
  assumes "mark_operator_as_slashed reason i s = Inr s'"
  shows "is_pending_slash s' i" and "is_pending_slash s j \<Longrightarrow> is_pending_slash s' j"
  using assms
  by (cases rule: mark_operator_as_slashed_InrE;
      auto simp: is_pending_slash_def get_pending_slashes_def split: option.splits)+

lemma do_mark_operators_as_slashed_pending:
  assumes "do_mark_operators_as_slashed ids reason s = Inr s'"
  shows "i \<in> set ids \<or> is_pending_slash s i \<Longrightarrow> is_pending_slash s' i"
  using assms unfolding do_mark_operators_as_slashed_def
proof (induction ids arbitrary: s)
  case (Cons j ids)
  from Cons.prems(2) obtain t where t: "mark_operator_as_slashed reason j s = Inr t"
    "try_fold (mark_operator_as_slashed reason) ids t = Inr s'"
    by (auto simp: and_then_Inr_iff)
  from Cons.prems(1) mark_operator_as_slashed_pending [OF t(1)] have "i \<in> set ids \<or> is_pending_slash t i"
    by auto
  then show ?case by (rule Cons.IH [OF _ t(2)])
qed simp

lemmas [eval_defs] =
  do_register_operator_def do_nominate_operator_def do_deregister_operator_def remove_from_sets_def
  do_deactivate_operator_def do_reactivate_operator_def do_cleanup_operator_def operator_weights_def
  reward_operator_def do_reward_operators_def mark_operator_as_slashed_def do_mark_operators_as_slashed_def
  is_invalid_def invalid_bundle_authors_for_receipt_def mark_invalid_bundle_author_def
  unmark_invalid_bundle_author_def store_invalid_bundle_authors_def do_mark_invalid_bundle_authors_def
  do_unmark_invalid_bundle_authors_def

lemma operator_shares_le:
  assumes "perthing_laws T" and "from_rational_rounds_down T" and "length ops < 2 ^ 64"
  shows "sum_list (map (operator_share T (length ops) rewards) (operator_weights ops)) \<le> rewards"
proof (cases "ops = []")
  case True
  then show ?thesis by (simp add: operator_weights_def)
next
  case False
  then have "0 < length ops" by simp
  from sum_mul_floor_rational_le [OF assms(1,2) this, of "map snd (operator_weights ops)" rewards]
    operator_weights_total [OF assms(3)]
  show ?thesis by (simp add: operator_share_def [abs_def] comp_def)
qed

section \<open>Properties\<close>




text \<open>The state after a registration, in which others can nominate the operator.\<close>

definition registered_operator :: operator where
  "registered_operator =
     \<lparr>op_signing_key = 7, op_current_domain_id = 0, op_next_domain_id = 0, op_minimum_nominator_stake = 10,
      op_nomination_tax = 5, op_current_total_stake = 800, op_current_total_shares = 800,
      op_partial_status = Registered, op_deposits_in_epoch = 0, op_withdrawals_in_epoch = 0,
      op_total_storage_fee_deposit = 200\<rparr>"

definition registered_state :: "ledger domains" where
  "registered_state = reference_state
    \<lparr>next_operator_id := 1, operator_id_owner := [0 \<mapsto> 1],
     domain_staking_summary := [0 \<mapsto> reference_summary\<lparr>ss_next_operators := [0]\<rparr>],
     operators := [0 \<mapsto> registered_operator],
     operator_epoch_share_price := (\<lambda>i. Map.empty)(0 := [DomainEpoch 0 1 \<mapsto> ACCURACY]),
     deposits := (\<lambda>i. [])(0 := [(1, \<lparr>dep_known = \<lparr>kd_shares = 0, kd_storage_fee_deposit = 0\<rparr>,
       dep_pending = Some \<lparr>pd_effective_domain_epoch = DomainEpoch 0 1, pd_amount = 800,
         pd_storage_fee_deposit = 200\<rparr>\<rparr>)]),
     deposit_on_hold := (\<lambda>k. 0)((0, 1) := 800),
     pending_staking_operation_count := (\<lambda>d. 0)(0 := 1),
     events := [StorageFeeDeposited 0 1 200],
     ext := reference_ledger
       \<lparr>lg_free := (lg_free reference_ledger)(1 := 9000, 1000 := 200),
        lg_held := (\<lambda>h who. 0)(StakingStaked := (\<lambda>who. 0)(1 := 800))\<rparr>\<rparr>"

lemmas [eval_defs] = registered_operator_def registered_state_def

lemma registered_state_reached:
  "do_register_operator reference_runtime 1 0 1000 reference_operator_config reference_state
     = Inr ((0, 1), registered_state)"
  by (simp add: eval_defs fun_eq_iff)


text \<open>
  C23: Rewarding operators loses and creates nothing: what is issued, what is kept for the treasury and the
  rewards of the epoch grow together by exactly the reward.
\<close>

theorem reward_operators_conserves:
  assumes laws: "perthing_laws T" "from_rational_rounds_down T" "issuance_laws T iss"
    and ok: "do_reward_operators T d src ops rewards s = Inr s'"
    and ss: "domain_staking_summary s d = Some ss" "om_invar (ss_current_epoch_rewards ss)"
    and small: "length ops < 2 ^ 64" "om_total (\<lambda>r. r) (ss_current_epoch_rewards ss) + rewards < 2 ^ 128"
  shows "\<exists>ss'. domain_staking_summary s' d = Some ss' \<and>
    issued iss s' + om_total (\<lambda>r. r) (ss_current_epoch_rewards ss')
      = issued iss s + om_total (\<lambda>r. r) (ss_current_epoch_rewards ss) + rewards"
proof (cases "rewards = 0")
  case True
  with ok ss show ?thesis by (simp add: do_reward_operators_def)
next
  case False
  let ?shares = "sum_list (map (operator_share T (length ops) rewards) (operator_weights ops))"
  from False ok ss obtain a ss' t u where
    loop: "try_fold (reward_operator T src (length ops) rewards) (operator_weights ops) (0, ss, s) = Inr (a, ss', t)"
    and mint: "mint_into_treasury T (rewards - a) t = Inr u" and s': "s' = put_summary d ss' u"
    by (auto simp: do_reward_operators_def result_simps arith_simps)
  have le: "?shares \<le> rewards" by (rule operator_shares_le [OF laws(1,2) small(1)])
  with small(2) have "om_total (\<lambda>r. r) (ss_current_epoch_rewards ss) + ?shares < 2 ^ 128" by linarith
  from reward_loop_rewards [OF loop ss(2) this] reward_loop [OF loop, of iss]
    mint_into_treasury_issued(1) [OF laws(3) mint] le
  show ?thesis by (simp add: s' put_summary_def issued_def)
qed

theorem reward_operators_conserves_witness:
  "\<exists>s' ss'. do_reward_operators reference_runtime 0 (Bundle 4) [0, 1, 0] 100 reference_state = Inr s' \<and>
     domain_staking_summary s' 0 = Some ss' \<and>
     issued lg_issuance s' + om_total (\<lambda>r. r) (ss_current_epoch_rewards ss') = 40100"
proof -
  have "\<not> isl (do_reward_operators reference_runtime 0 (Bundle 4) [0, 1, 0] 100 reference_state)"
    by (simp add: eval_defs)
  then obtain s' where ok: "do_reward_operators reference_runtime 0 (Bundle 4) [0, 1, 0] 100 reference_state = Inr s'"
    using is_ok_ex by blast
  have ss: "domain_staking_summary reference_state 0 = Some reference_summary"
    "om_invar (ss_current_epoch_rewards reference_summary)"
    by (simp_all add: reference_state_def reference_summary_def)
  have "issued lg_issuance reference_state = 40000" "om_total (\<lambda>r. r) (ss_current_epoch_rewards reference_summary) = 0"
    by (simp_all add: issued_def om_total_def reference_state_def reference_ledger_def reference_summary_def)
  with reward_operators_conserves [OF reference_laws(1,2,4) ok ss] ok show ?thesis by fastforce
qed



text \<open>
  C25: The reactivation delay is exact. An operator that was deactivated, and has not been changed since or
  become pending to be slashed, can be reactivated if and only if the delay in epochs has passed.
\<close>

theorem reactivation_delay_exact:
  assumes deact: "do_deactivate_operator T i s = Inr s'"
    and op: "operators s i = Some op" and ss: "domain_staking_summary s (op_current_domain_id op) = Some ss"
    and t: "operators t i = operators s' i" "\<not> is_operator_pending_to_slash (op_current_domain_id op) i t"
    and tt: "domain_staking_summary t (op_current_domain_id op) = Some tt"
  shows "(\<exists>t'. do_reactivate_operator T i t = Inr t') \<longleftrightarrow>
    ss_current_epoch_index ss + OperatorActivationDelayInEpochs T \<le> ss_current_epoch_index tt"
  using deact
proof (cases rule: do_deactivate_operator_InrE)
  case (1 op' ss' ss'' ev)
  with op ss have "operators t i = Some (op\<lparr>op_partial_status :=
      Deactivated (ss_current_epoch_index ss + OperatorActivationDelayInEpochs T)\<rparr>)"
    using t(1) by simp
  with t(2) tt show ?thesis
    by (auto simp: do_reactivate_operator_def operator_status_of_def Let_def and_then_def ok_or_def ensure_def)
qed

theorem reactivation_delay_exact_witness:
  "\<exists>s' op. do_deactivate_operator reference_runtime 0 registered_state = Inr s' \<and>
     operators registered_state 0 = Some op \<and>
     (\<exists>t'. do_reactivate_operator reference_runtime 0
        (s'\<lparr>domain_staking_summary := [0 \<mapsto> reference_summary\<lparr>ss_current_epoch_index := 3\<rparr>]\<rparr>) = Inr t')"
proof -
  have "\<not> isl (do_deactivate_operator reference_runtime 0 registered_state)"
    by (simp add: eval_defs)
  then obtain s' where deact: "do_deactivate_operator reference_runtime 0 registered_state = Inr s'"
    using is_ok_ex by blast
  obtain op ss where op: "operators registered_state 0 = Some op" "op_current_domain_id op = 0"
    and ss: "domain_staking_summary registered_state 0 = Some ss" "ss_current_epoch_index ss = 1"
    by (simp add: eval_defs)
  let ?t = "s'\<lparr>domain_staking_summary := [0 \<mapsto> reference_summary\<lparr>ss_current_epoch_index := 3\<rparr>]\<rparr>"
  have "latest_submitted_er s' (0, 0) = 0"
    using deact by (cases rule: do_deactivate_operator_InrE) (simp add: eval_defs)
  then have "\<not> is_operator_pending_to_slash 0 0 ?t" by (simp add: is_operator_pending_to_slash_def)
  with reactivation_delay_exact [OF deact op(1), of ss ?t] op ss
  have "\<exists>t'. do_reactivate_operator reference_runtime 0 ?t = Inr t'"
    by (simp add: reference_runtime_def)
  with deact op(1) show ?thesis by blast
qed

text \<open>
  C26: Slashing reaches every operator of a receipt. After the operators have been marked, each of them that
  exists is pending to be slashed in its domain, and marking them again changes nothing.
\<close>

theorem mark_slashed_complete:
  assumes "do_mark_operators_as_slashed ids reason s = Inr s'"
  shows "(\<forall>i \<in> set ids. \<forall>op. operators s' i = Some op \<longrightarrow>
      i \<in> set (get_pending_slashes s' (op_current_domain_id op))) \<and>
    do_mark_operators_as_slashed ids reason' s' = Inr s'"
proof -
  have pend: "is_pending_slash s' i" if "i \<in> set ids" for i
    by (rule do_mark_operators_as_slashed_pending [OF assms]) (simp add: that)
  have "try_fold (mark_operator_as_slashed reason') js s' = Inr s'" if "set js \<subseteq> set ids" for js
    using that
  proof (induction js)
    case (Cons j js)
    then have "mark_operator_as_slashed reason' j s' = Inr s'"
      using pend [of j] by (auto simp: is_pending_slash_def mark_operator_as_slashed_def Let_def split: option.splits)
    with Cons show ?case by simp
  qed simp
  then have "do_mark_operators_as_slashed ids reason' s' = Inr s'"
    by (simp add: do_mark_operators_as_slashed_def)
  moreover have "i \<in> set (get_pending_slashes s' (op_current_domain_id op))"
    if "i \<in> set ids" "operators s' i = Some op" for i op
    using pend [OF that(1)] that(2) by (simp add: is_pending_slash_def)
  ultimately show ?thesis by blast
qed

theorem mark_slashed_complete_witness:
  "\<exists>s'. do_mark_operators_as_slashed [0, 7, 0] (BadExecutionReceipt 5) registered_state = Inr s' \<and>
     do_mark_operators_as_slashed [0, 7, 0] (BadExecutionReceipt 6) s' = Inr s'"
proof -
  have "\<not> isl (do_mark_operators_as_slashed [0, 7, 0] (BadExecutionReceipt 5) registered_state)"
    by (simp add: eval_defs)
  then obtain s' where ok: "do_mark_operators_as_slashed [0, 7, 0] (BadExecutionReceipt 5) registered_state = Inr s'"
    using is_ok_ex by blast
  with mark_slashed_complete [OF ok] show ?thesis by blast
qed

text \<open>
  C27: Unmarking undoes marking. A registered operator that a receipt marked as the author of an invalid
  bundle gets its status and its place in the next operator set back when the same receipt is unmarked, and
  unmarking a receipt with another hash leaves it marked.
\<close>

theorem unmark_inverts_mark:
  assumes op: "operators s i = Some op" "operator_status_of op i s = Registered"
    and next_set: "i \<in> set (ss_next_operators ss)" "sorted_wrt (<) (ss_next_operators ss)" "i \<notin> set authors"
    and mark: "mark_invalid_bundle_author i h (ss, authors, s) = Inr (ss', authors', s')"
  shows "(\<exists>u. unmark_invalid_bundle_author i h (ss', authors', s')
        = Inr (ss'\<lparr>ss_next_operators := ss_next_operators ss\<rparr>, authors, u) \<and> operators u = operators s) \<and>
    (h' \<noteq> h \<longrightarrow> unmark_invalid_bundle_author i h' (ss', authors', s') = Inr (ss', authors', s'))"
proof -
  from op mark have rem: "remove_from_sets i op ss = Inr ss'" and "authors' = os_insert i authors"
    and s': "s' = put_operator i (op\<lparr>op_partial_status := InvalidBundle h\<rparr>) s"
    by (auto simp: mark_invalid_bundle_author_def result_simps)
  moreover have "op_partial_status op = Registered"
    using op(2) by (auto simp: operator_status_of_def split: if_splits)
  then have "op\<lparr>op_partial_status := Registered\<rparr> = op" by (cases op) simp
  ultimately show ?thesis
    using op(1) next_set remove_from_sets_Inr(2) [OF rem]
    by (simp add: unmark_invalid_bundle_author_def put_operator_def os_insert_remove os_remove_insert
        fun_upd_idem)
qed

theorem unmark_inverts_mark_witness:
  "\<exists>op ss ss' authors' s' u. operators registered_state 0 = Some op \<and>
     domain_staking_summary registered_state 0 = Some ss \<and>
     mark_invalid_bundle_author 0 55 (ss, [], registered_state) = Inr (ss', authors', s') \<and>
     unmark_invalid_bundle_author 0 55 (ss', authors', s')
       = Inr (ss'\<lparr>ss_next_operators := ss_next_operators ss\<rparr>, [], u) \<and>
     operators u = operators registered_state"
proof -
  obtain op ss where op: "operators registered_state 0 = Some op" "operator_status_of op 0 registered_state = Registered"
    and ss: "domain_staking_summary registered_state 0 = Some ss" "ss_next_operators ss = [0]"
      "ss_current_operators ss = []"
    by (simp add: eval_defs)
  then have "\<not> isl (mark_invalid_bundle_author 0 55 (ss, [], registered_state))"
    by (simp add: mark_invalid_bundle_author_def remove_from_sets_def)
  then obtain ss' authors' s'
    where mark: "mark_invalid_bundle_author 0 55 (ss, [], registered_state) = Inr (ss', authors', s')"
    using is_ok_ex by (metis surj_pair)
  with unmark_inverts_mark [OF op _ _ _ mark, of 56] ss op(1) show ?thesis by auto
qed

end
