(* ===== verification/Withdrawals.thy ===== *)
theory Withdrawals
  imports Staking
begin

text \<open>
  Taking stake out of a pool (crates/pallet-domains/src/staking.rs): \<open>do_withdraw_stake\<close> turns shares of a nominator
  into a withdrawal, \<open>do_unlock_funds\<close> pays the withdrawals whose locking period is over, and
  \<open>do_unlock_nominator\<close> pays a nominator of a deregistered operator everything at once.
\<close>

section \<open>Withdrawing\<close>

definition current_share_price ::
    "'x config \<Rightarrow> operator_id \<Rightarrow> operator \<Rightarrow> staking_summary \<Rightarrow> staking_error + share_price" where
  "current_share_price T i op domain_stake_summary =
     (let total_stake =
        (case Option.bind (om_get (ss_current_epoch_rewards domain_stake_summary) i) (\<lambda>rewards.
                let operator_tax = percent_mul_floor T (op_nomination_tax op) rewards
                in Option.bind (checked_add 128 (op_current_total_stake op) rewards) (\<lambda>stake.
                     checked_sub stake operator_tax)) of
           Some stake \<Rightarrow> stake
         | None \<Rightarrow> op_current_total_stake op)
      in SharePrice_new T (op_current_total_shares op) total_stake)"

text \<open>The remaining and the withdrawn shares: the first block of the second access to the deposit.\<close>

definition shares_to_withdraw ::
    "'x config \<Rightarrow> operator_id \<Rightarrow> operator \<Rightarrow> staking_summary \<Rightarrow> balance \<Rightarrow> bool \<Rightarrow> share \<Rightarrow> share \<Rightarrow>
       staking_error + share \<times> share" where
  "shares_to_withdraw T i op domain_stake_summary known_storage_fee is_operator_owner known_shares to_withdraw =
     and_then (ok_or InsufficientShares (checked_sub known_shares to_withdraw)) (\<lambda>remaining_shares.
     if remaining_shares = 0 then
       if is_operator_owner then Inl MinimumOperatorStake else Inr (remaining_shares, to_withdraw)
     else
       and_then (current_share_price T i op domain_stake_summary) (\<lambda>price.
       let remaining_storage_fee =
             mul_floor T (from_rational T remaining_shares known_shares) known_storage_fee in
       and_then (ok_or BalanceOverflow
                   (checked_add 128 (shares_to_stake T price remaining_shares) remaining_storage_fee))
         (\<lambda>remaining_stake.
       if is_operator_owner \<and> remaining_stake < MinOperatorStake T then Inl MinimumOperatorStake
       else if \<not> is_operator_owner \<and> remaining_stake < op_minimum_nominator_stake op
       then Inr (0, known_shares)
       else Inr (remaining_shares, to_withdraw))))"

definition note_withdrawal_in_shares ::
    "domain_epoch \<Rightarrow> domain_block_number \<Rightarrow> share \<Rightarrow> balance \<Rightarrow> withdrawal \<Rightarrow> staking_error + withdrawal" where
  "note_withdrawal_in_shares epoch unlock_at shares_withdrew withdraw_storage_fee wd =
     and_then
       (case w_withdrawal_in_shares wd of
          Some wis \<Rightarrow>
            and_then (ok_or ShareOverflow (checked_add 128 (ws_shares wis) shares_withdrew)) (\<lambda>shares.
            and_then (ok_or BalanceOverflow (checked_add 128 (ws_storage_fee_refund wis) withdraw_storage_fee))
              (\<lambda>fee.
            Inr \<lparr>ws_domain_epoch = epoch, ws_unlock_at = unlock_at, ws_shares = shares,
                 ws_storage_fee_refund = fee\<rparr>))
        | None \<Rightarrow>
            Inr \<lparr>ws_domain_epoch = epoch, ws_unlock_at = unlock_at, ws_shares = shares_withdrew,
                 ws_storage_fee_refund = withdraw_storage_fee\<rparr>)
       (\<lambda>wis.
     and_then (ok_or BalanceOverflow
                 (checked_add 128 (w_total_storage_fee_withdrawal wd) withdraw_storage_fee)) (\<lambda>fee.
     Inr (wd\<lparr>w_withdrawal_in_shares := Some wis, w_total_storage_fee_withdrawal := fee\<rparr>)))"

text \<open>The conversion of the nominator's deposit and withdrawal from earlier epochs.\<close>

definition convert_nominator ::
    "'x config \<Rightarrow> operator_id \<Rightarrow> account_id \<Rightarrow> epoch_index \<Rightarrow> 'x domains \<Rightarrow>
       staking_error + share \<times> 'x domains" where
  "convert_nominator T i nominator_id epoch s =
     and_then (ok_or UnknownNominator (get_deposit s i nominator_id)) (\<lambda>dep.
     and_then (or_fail (do_convert_previous_epoch_deposits T s i dep epoch)) (\<lambda>dep.
     let known_shares = kd_shares (dep_known dep);
         s = put_deposit i nominator_id dep s in
     and_then
       (case get_withdrawal s i nominator_id of
          None \<Rightarrow> Inr s
        | Some wd \<Rightarrow>
            and_then (or_fail (do_convert_previous_epoch_withdrawal T s i wd epoch)) (\<lambda>wd.
            if length (w_withdrawals wd) mod 2 ^ 32 \<ge> WithdrawalLimit T then Inl TooManyWithdrawals
            else Inr (put_withdrawal i nominator_id wd s)))
       (\<lambda>s. Inr (known_shares, s))))"

text \<open>A withdrawal from a deactivated operator: the operator needs a share price at the end of the epoch.\<close>

definition note_deactivated :: "operator_id \<Rightarrow> operator \<Rightarrow> 'x domains \<Rightarrow> 'x domains" where
  "note_deactivated i op s =
     (if is_deactivated (op_partial_status op)
      then s\<lparr>deactivated_operators := (deactivated_operators s)
               (op_current_domain_id op := os_insert i (deactivated_operators s (op_current_domain_id op)))\<rparr>
      else s)"

definition do_withdraw_stake ::
    "'x config \<Rightarrow> operator_id \<Rightarrow> account_id \<Rightarrow> share \<Rightarrow> 'x domains \<Rightarrow>
       staking_error + weight \<times> 'x domains" where
  "do_withdraw_stake T i nominator_id to_withdraw s =
     and_then (ensure (to_withdraw \<noteq> 0) ZeroWithdraw) (\<lambda>_.
     and_then (ok_or UnknownOperator (operators s i)) (\<lambda>op.
     and_then (ensure (is_operator_registered_or_deactivated op i s) OperatorNotRegisterdOrDeactivated) (\<lambda>_.
     let d = op_current_domain_id op in
     and_then (if op_deposits_in_epoch op = 0 \<and> op_withdrawals_in_epoch op = 0
               then note_pending_staking_operation T d s else Inr s) (\<lambda>s.
     and_then (ok_or DomainNotInitialized (domain_staking_summary s d)) (\<lambda>domain_stake_summary.
     let epoch = ss_current_epoch_index domain_stake_summary in
     and_then (convert_nominator T i nominator_id epoch s) (\<lambda>(known_shares, s).
     let s = note_deactivated i op s;
         w = (if is_deactivated (op_partial_status op) then weight_withdraw_stake_from_deactivated_operator T
              else weight_withdraw_stake T) in
     and_then (ok_or UnknownOperator (operator_id_owner s i)) (\<lambda>operator_owner.
     and_then (ok_or UnknownNominator (get_deposit s i nominator_id)) (\<lambda>dep.
     let known = dep_known dep in
     and_then (shares_to_withdraw T i op domain_stake_summary (kd_storage_fee_deposit known)
                 (operator_owner = nominator_id) known_shares to_withdraw)
       (\<lambda>(remaining_shares, shares_withdrew).
     let storage_fee_to_withdraw =
           mul_floor T (from_rational T shares_withdrew known_shares) (kd_storage_fee_deposit known);
         redeem_price = storage_fund_redeem_price T i (op_total_storage_fee_deposit op) s in
     and_then (map_err BundleStorageFund
                 (withdraw_and_hold T i nominator_id (redeem T redeem_price storage_fee_to_withdraw) s))
       (\<lambda>(s, withdraw_storage_fee).
     and_then (ok_or BalanceOverflow (checked_sub (kd_storage_fee_deposit known) storage_fee_to_withdraw))
       (\<lambda>known_fee.
     and_then (ok_or BalanceOverflow (checked_sub (op_total_storage_fee_deposit op) storage_fee_to_withdraw))
       (\<lambda>op_fee.
     and_then (ok_or ShareOverflow (checked_add 128 (op_withdrawals_in_epoch op) shares_withdrew))
       (\<lambda>withdrawals_in_epoch.
     and_then (case dep_pending dep of
                 Some pending \<Rightarrow>
                   if remaining_shares = 0
                   then and_then (pending_total pending)
                          (\<lambda>amount. ensure (amount \<ge> op_minimum_nominator_stake op) MinimumNominatorStake)
                   else Inr ()
               | None \<Rightarrow> Inr ()) (\<lambda>_.
     and_then (ok_or BlockNumberOverflow
                 (checked_add 32 (head_domain_number s d) (StakeWithdrawalLockingPeriod T))) (\<lambda>unlock_at.
     and_then (note_withdrawal_in_shares (DomainEpoch d epoch) unlock_at shares_withdrew withdraw_storage_fee
                 (case_option withdrawal_default (\<lambda>wd. wd) (get_withdrawal s i nominator_id))) (\<lambda>wd.
     let dep = dep\<lparr>dep_known := \<lparr>kd_shares = remaining_shares, kd_storage_fee_deposit = known_fee\<rparr>\<rparr>;
         op = op\<lparr>op_total_storage_fee_deposit := op_fee, op_withdrawals_in_epoch := withdrawals_in_epoch\<rparr> in
     Inr (w, put_operator i op (put_deposit i nominator_id dep (put_withdrawal i nominator_id wd s)))))))))))))))))))"

section \<open>Unlocking\<close>

text \<open>The loop that takes the withdrawals that are ready from the front of the queue.\<close>

fun unlock_ready ::
    "domain_block_number \<Rightarrow> withdrawal_in_balance list \<Rightarrow> balance \<Rightarrow> balance \<Rightarrow> u32 \<Rightarrow>
       staking_error + withdrawal_in_balance list \<times> balance \<times> balance \<times> u32" where
  "unlock_ready head [] total_unlocked_amount total_storage_fee_refund withdrawal_count =
     Inr ([], total_unlocked_amount, total_storage_fee_refund, withdrawal_count)"
| "unlock_ready head (w # ws) total_unlocked_amount total_storage_fee_refund withdrawal_count =
     (if wb_unlock_at w > head
      then Inr (w # ws, total_unlocked_amount, total_storage_fee_refund, withdrawal_count)
      else
        and_then (ok_or BalanceOverflow (checked_add 128 total_unlocked_amount (wb_amount_to_unlock w)))
          (\<lambda>amount.
        and_then (ok_or BalanceOverflow (checked_add 128 total_storage_fee_refund (wb_storage_fee_refund w)))
          (\<lambda>fee. unlock_ready head ws amount fee (wrapping_add 32 withdrawal_count 1))))"

text \<open>
  Paying \<open>total_unlocked_amount\<close> to the nominator: what is on hold is released, the rest minted.
\<close>

definition pay_unlocked ::
    "'x config \<Rightarrow> operator_id \<Rightarrow> account_id \<Rightarrow> balance \<Rightarrow> 'x domains \<Rightarrow> staking_error + 'x domains" where
  "pay_unlocked T i nominator_id total_unlocked_amount s =
     (let on_hold = deposit_on_hold s (i, nominator_id);
          amount_to_release = min total_unlocked_amount on_hold;
          amount_to_mint = saturating_sub total_unlocked_amount on_hold;
          s = s\<lparr>deposit_on_hold := (deposit_on_hold s)
                  ((i, nominator_id) := saturating_sub on_hold amount_to_release)\<rparr>
      in and_then (if amount_to_mint \<noteq> 0 then mint_funds T nominator_id amount_to_mint s else Inr s) (\<lambda>s.
         if amount_to_release \<noteq> 0
         then with_ext RemoveLock (release T StakingStaked nominator_id amount_to_release Exact) s
         else Inr s))"

text \<open>
  The clean-up at the end of \<open>do_unlock_funds\<close>. The entry of \<open>DepositOnHold\<close> that the source removes is
  zero, the value an absent entry has.
\<close>

definition cleanup_withdrawal ::
    "operator_id \<Rightarrow> account_id \<Rightarrow> withdrawal \<Rightarrow> 'x domains \<Rightarrow> 'x domains" where
  "cleanup_withdrawal i nominator_id wd s =
     (if w_withdrawals wd = [] \<and> w_withdrawal_in_shares wd = None
      then
        (let s = remove_withdrawal i nominator_id s
         in case get_deposit s i nominator_id of
              Some dep \<Rightarrow>
                if kd_shares (dep_known dep) = 0 \<and> dep_pending dep = None
                then remove_deposit i nominator_id s else s
            | None \<Rightarrow> s)
      else put_withdrawal i nominator_id wd s)"

definition do_unlock_funds ::
    "'x config \<Rightarrow> operator_id \<Rightarrow> account_id \<Rightarrow> 'x domains \<Rightarrow> staking_error + u32 \<times> 'x domains" where
  "do_unlock_funds T i nominator_id s =
     and_then (ok_or UnknownOperator (operators s i)) (\<lambda>op.
     and_then (ensure (is_operator_registered_or_deactivated op i s) OperatorNotRegisterdOrDeactivated) (\<lambda>_.
     let d = op_current_domain_id op in
     and_then (ok_or DomainNotInitialized (domain_staking_summary s d)) (\<lambda>stake_summary.
     and_then (ok_or MissingWithdrawal (get_withdrawal s i nominator_id)) (\<lambda>wd.
     and_then (or_fail (do_convert_previous_epoch_withdrawal T s i wd (ss_current_epoch_index stake_summary)))
       (\<lambda>wd.
     and_then (ensure (w_withdrawals wd \<noteq> []) MissingWithdrawal) (\<lambda>_.
     and_then (unlock_ready (head_domain_number s d) (w_withdrawals wd) 0 0 0)
       (\<lambda>(remaining, total_unlocked_amount, total_storage_fee_refund, withdrawal_count).
     and_then (ensure (total_unlocked_amount \<noteq> 0 \<or> total_storage_fee_refund \<noteq> 0) UnlockPeriodNotComplete)
       (\<lambda>_.
     and_then (ok_or BalanceUnderflow (checked_sub (w_total_withdrawal_amount wd) total_unlocked_amount))
       (\<lambda>total_withdrawal_amount.
     and_then (ok_or BalanceUnderflow
                 (checked_sub (w_total_storage_fee_withdrawal wd) total_storage_fee_refund))
       (\<lambda>total_storage_fee_withdrawal.
     and_then (pay_unlocked T i nominator_id total_unlocked_amount s) (\<lambda>s.
     let s = deposit_event (NominatedStakedUnlocked i nominator_id total_unlocked_amount) s in
     and_then (with_ext RemoveLock
                 (release T StorageFundWithdrawal nominator_id total_storage_fee_refund Exact) s) (\<lambda>s.
     let s = deposit_event (StorageFeeUnlocked i nominator_id total_storage_fee_refund) s;
         wd = wd\<lparr>w_withdrawals := remaining, w_total_withdrawal_amount := total_withdrawal_amount,
                 w_total_storage_fee_withdrawal := total_storage_fee_withdrawal\<rparr> in
     Inr (withdrawal_count, cleanup_withdrawal i nominator_id wd s)))))))))))))"

text \<open>
  What the withdrawal of a nominator of a deregistered operator adds up to: the amount that is converted,
  the storage fee on withdrawal and the shares withdrawn in the current epoch.
\<close>

definition settle_withdrawal ::
    "'x config \<Rightarrow> 'x domains \<Rightarrow> operator_id \<Rightarrow> epoch_index \<Rightarrow> withdrawal option \<Rightarrow>
       staking_error + balance \<times> balance \<times> share" where
  "settle_withdrawal T s i epoch maybe_withdrawal =
     (case maybe_withdrawal of
        None \<Rightarrow> Inr (0, 0, 0)
      | Some wd \<Rightarrow>
          and_then (or_fail (do_convert_previous_epoch_withdrawal T s i wd epoch)) (\<lambda>wd.
          Inr (w_total_withdrawal_amount wd, w_total_storage_fee_withdrawal wd,
               case_option 0 ws_shares (w_withdrawal_in_shares wd))))"

text \<open>Removing the lock of a nominator and minting any gains.\<close>

definition release_nominator ::
    "'x config \<Rightarrow> operator_id \<Rightarrow> account_id \<Rightarrow> balance \<Rightarrow> 'x domains \<Rightarrow> staking_error + 'x domains" where
  "release_nominator T i nominator_id total_amount_to_unlock s =
     (let current_locked_amount = deposit_on_hold s (i, nominator_id);
          s = s\<lparr>deposit_on_hold := (deposit_on_hold s)((i, nominator_id) := 0)\<rparr>
      in and_then (case checked_sub total_amount_to_unlock current_locked_amount of
                     Some amount_to_mint \<Rightarrow> mint_funds T nominator_id amount_to_mint s
                   | None \<Rightarrow> Inr s) (\<lambda>s.
         if current_locked_amount \<noteq> 0
         then with_ext RemoveLock (release T StakingStaked nominator_id current_locked_amount Exact) s
         else Inr s))"

definition do_unlock_nominator ::
    "'x config \<Rightarrow> operator_id \<Rightarrow> account_id \<Rightarrow> 'x domains \<Rightarrow> staking_error + 'x domains" where
  "do_unlock_nominator T i nominator_id s =
     and_then (ok_or UnknownOperator (operators s i)) (\<lambda>op.
     and_then (case operator_status_of op i s of
                 Deregistered info \<Rightarrow> Inr info | _ \<Rightarrow> Inl OperatorNotDeregistered) (\<lambda>info.
     and_then (ensure (odi_unlock_at info \<le> head_domain_number s (de_domain (odi_domain_epoch info)))
                 UnlockPeriodNotComplete) (\<lambda>_.
     and_then (ok_or DomainNotInitialized (domain_staking_summary s (op_current_domain_id op)))
       (\<lambda>stake_summary.
     let epoch = ss_current_epoch_index stake_summary in
     and_then (SharePrice_new T (op_current_total_shares op) (op_current_total_stake op)) (\<lambda>price.
     let redeem_price = storage_fund_redeem_price T i (op_total_storage_fee_deposit op) s in
     and_then (ok_or UnknownNominator (get_deposit s i nominator_id)) (\<lambda>dep.
     let s = remove_deposit i nominator_id s in
     and_then (or_fail (do_convert_previous_epoch_deposits T s i dep epoch)) (\<lambda>dep.
     let maybe_withdrawal = get_withdrawal s i nominator_id;
         s = remove_withdrawal i nominator_id s in
     and_then (settle_withdrawal T s i epoch maybe_withdrawal)
       (\<lambda>(amount_ready_to_withdraw, total_storage_fee_withdrawal, shares_withdrew_in_current_epoch).
     and_then (ok_or ShareOverflow (checked_add 128 (kd_shares (dep_known dep)) shares_withdrew_in_current_epoch))
       (\<lambda>nominator_shares.
     and_then (ok_or ShareOverflow (checked_sub (op_current_total_shares op) nominator_shares)) (\<lambda>total_shares.
     let nominator_staked_amount = shares_to_stake T price nominator_shares in
     and_then (ok_or BalanceOverflow (checked_sub (op_current_total_stake op) nominator_staked_amount))
       (\<lambda>total_stake.
     let amount_deposited_in_epoch = case_option 0 pd_amount (dep_pending dep) in
     and_then (ok_or BalanceOverflow
                 (Option.bind (checked_add 128 nominator_staked_amount amount_ready_to_withdraw)
                    (\<lambda>amount. checked_add 128 amount amount_deposited_in_epoch)))
       (\<lambda>total_amount_to_unlock.
     and_then (release_nominator T i nominator_id total_amount_to_unlock s) (\<lambda>s.
     let s = deposit_event (NominatedStakedUnlocked i nominator_id total_amount_to_unlock) s in
     and_then (ok_or BalanceOverflow
                 (checked_add 128 (case_option 0 pd_storage_fee_deposit (dep_pending dep))
                    (kd_storage_fee_deposit (dep_known dep))))
       (\<lambda>nominator_total_storage_fee_deposit.
     and_then (map_err BundleStorageFund
                 (withdraw_to T i nominator_id (redeem T redeem_price nominator_total_storage_fee_deposit) s))
       (\<lambda>(s, _).
     and_then (with_ext RemoveLock
                 (release T StorageFundWithdrawal nominator_id total_storage_fee_withdrawal Exact) s) (\<lambda>s.
     let s = deposit_event (StorageFeeUnlocked i nominator_id total_storage_fee_withdrawal) s;
         total_storage_fee_deposit =
           saturating_sub (op_total_storage_fee_deposit op) nominator_total_storage_fee_deposit in
     if deposits s i = [] \<and> withdrawals s i = []
     then and_then (do_cleanup_operator T i total_stake s)
            (\<lambda>s. Inr (s\<lparr>operators := (operators s)(i := None)\<rparr>))
     else Inr (put_operator i
                 (op\<lparr>op_current_total_shares := total_shares, op_current_total_stake := total_stake,
                     op_total_storage_fee_deposit := total_storage_fee_deposit\<rparr>) s)))))))))))))))))"

section \<open>Lemmas on withdrawing\<close>




text \<open>An operation of the currency that is skipped for a zero amount changes only the other pallets.\<close>

lemma with_ext_value_if_InrE:
  assumes "map_err g (if b then Inr (s, v) else with_ext_value e f s) = Inr (s', w)"
  obtains x where "s' = s\<lparr>ext := x\<rparr>"
proof (cases b)
  case True
  with assms have "s' = s\<lparr>ext := ext s\<rparr>" by simp
  then show ?thesis by (rule that)
qed (use assms that in \<open>auto simp: result_simps\<close>)


lemma withdraw_to_InrE:
  assumes "map_err g (withdraw_to T i who amount s) = Inr (s', v)"
  obtains x where "s' = s\<lparr>ext := x\<rparr>"
  using assms unfolding withdraw_to_def by (rule with_ext_value_if_InrE)


lemma note_deactivated_frame [simp]:
  "operators (note_deactivated i op s) = operators s" "deposits (note_deactivated i op s) = deposits s"
  "withdrawals (note_deactivated i op s) = withdrawals s"
  "deposit_on_hold (note_deactivated i op s) = deposit_on_hold s"
  "domain_staking_summary (note_deactivated i op s) = domain_staking_summary s"
  "next_operator_id (note_deactivated i op s) = next_operator_id s"
  "operator_id_owner (note_deactivated i op s) = operator_id_owner s"
  "operator_epoch_share_price (note_deactivated i op s) = operator_epoch_share_price s"
  "pending_slashes (note_deactivated i op s) = pending_slashes s"
  "invalid_bundle_authors (note_deactivated i op s) = invalid_bundle_authors s"
  "deregistered_operators (note_deactivated i op s) = deregistered_operators s"
  "latest_submitted_er (note_deactivated i op s) = latest_submitted_er s"
  "head_receipt_number (note_deactivated i op s) = head_receipt_number s"
  "head_domain_number (note_deactivated i op s) = head_domain_number s"
  "get_deposit (note_deactivated i op s) = get_deposit s"
  "get_withdrawal (note_deactivated i op s) = get_withdrawal s"
  by (simp_all add: note_deactivated_def get_deposit_def get_withdrawal_def fun_eq_iff)


section \<open>Lemmas on unlocking\<close>

abbreviation ready_at :: "domain_block_number \<Rightarrow> withdrawal_in_balance \<Rightarrow> bool" where
  "ready_at head w \<equiv> wb_unlock_at w \<le> head"

lemma unlock_ready_Inr:
  assumes "unlock_ready head ws a f c = Inr (rest, a', f', c')"
  shows "rest = dropWhile (ready_at head) ws"
    and "a' = a + sum_list (map wb_amount_to_unlock (takeWhile (ready_at head) ws))"
    and "f' = f + sum_list (map wb_storage_fee_refund (takeWhile (ready_at head) ws))"
    and "c < 2 ^ 32 \<Longrightarrow> c' = (c + length (takeWhile (ready_at head) ws)) mod 2 ^ 32"
  using assms
proof (induction head ws a f c rule: unlock_ready.induct)
  case (2 head w ws a f c)
  {
    case 1
    with "2.IH"(1) show ?case by (auto simp: result_simps arith_simps split: if_splits)
  next
    case 2
    with "2.IH"(2) show ?case by (auto simp: result_simps arith_simps split: if_splits)
  next
    case 3
    with "2.IH"(3) show ?case by (auto simp: result_simps arith_simps split: if_splits)
  next
    case 4
    show ?case
    proof (cases "ready_at head w")
      case True
      with 4(2) have "unlock_ready head ws (a + wb_amount_to_unlock w) (f + wb_storage_fee_refund w)
          (wrapping_add 32 c 1) = Inr (rest, a', f', c')"
        and "checked_add 128 a (wb_amount_to_unlock w) = Some (a + wb_amount_to_unlock w)"
        and "checked_add 128 f (wb_storage_fee_refund w) = Some (f + wb_storage_fee_refund w)"
        by (auto simp: result_simps arith_simps)
      with "2.IH"(4) True show ?thesis
        by (simp add: wrapping_add_def mod_simps)
    next
      case False
      with 4 show ?thesis by auto
    qed
  }
qed simp_all

lemma mint_funds_InrE:
  assumes "mint_funds T who amount s = Inr s'"
  obtains x where "s' = s\<lparr>ext := x\<rparr>"
proof (cases "amount = 0")
  case True
  with assms have "s' = s\<lparr>ext := ext s\<rparr>" by (simp add: mint_funds_def)
  then show ?thesis by (rule that)
qed (use assms that in \<open>auto simp: mint_funds_def result_simps\<close>)

lemma pay_unlocked_Inr:
  assumes "pay_unlocked T i who amount s = Inr s'"
  shows "issuance_laws T iss \<Longrightarrow> issued iss s' = issued iss s + (amount - deposit_on_hold s (i, who))"
    and "\<exists>x. s' = s\<lparr>deposit_on_hold := (deposit_on_hold s)((i, who) := deposit_on_hold s (i, who) - amount), ext := x\<rparr>"
proof -
  let ?hold = "deposit_on_hold s (i, who)"
  let ?s = "s\<lparr>deposit_on_hold := (deposit_on_hold s)((i, who) := ?hold - min amount ?hold)\<rparr>"
  from assms obtain t where mint: "mint_funds T who (amount - ?hold) ?s = Inr t"
    and rel: "(if min amount ?hold \<noteq> 0
      then with_ext RemoveLock (release T StakingStaked who (min amount ?hold) Exact) t else Inr t) = Inr s'"
    unfolding pay_unlocked_def Let_def and_then_Inr_iff saturating_sub_eq
    by (auto simp: mint_funds_def split: if_splits)
  show "issued iss s' = issued iss s + (amount - ?hold)" if "issuance_laws T iss"
    using mint_funds_issued [OF that mint] rel
    by (auto simp: issued_def result_simps split: if_splits dest!: issuance_lawsD(4) [OF that])
  have "?hold - min amount ?hold = ?hold - amount" by (simp add: min_def)
  from mint obtain x where t: "t = ?s\<lparr>ext := x\<rparr>" by (rule mint_funds_InrE)
  show "\<exists>x. s' = s\<lparr>deposit_on_hold := (deposit_on_hold s)((i, who) := ?hold - amount), ext := x\<rparr>"
  proof (cases "min amount ?hold = 0")
    case True
    with rel have "s' = t" by simp
    with t \<open>?hold - min amount ?hold = ?hold - amount\<close> show ?thesis by auto
  next
    case False
    with rel obtain y where "s' = t\<lparr>ext := y\<rparr>" by (auto simp: result_simps)
    with t \<open>?hold - min amount ?hold = ?hold - amount\<close> show ?thesis by auto
  qed
qed

lemma do_unlock_funds_InrE:
  assumes "do_unlock_funds T i who s = Inr (n, s')"
  obtains op ss wd0 wd ready rest t where
    "operators s i = Some op" "is_operator_registered_or_deactivated op i s"
    "domain_staking_summary s (op_current_domain_id op) = Some ss"
    "get_withdrawal s i who = Some wd0"
    "do_convert_previous_epoch_withdrawal T s i wd0 (ss_current_epoch_index ss) = (Inr (), wd)"
    "ready = takeWhile (ready_at (head_domain_number s (op_current_domain_id op))) (w_withdrawals wd)"
    "rest = dropWhile (ready_at (head_domain_number s (op_current_domain_id op))) (w_withdrawals wd)"
    "n = length ready mod 2 ^ 32"
    "sum_list (map wb_amount_to_unlock ready) \<le> w_total_withdrawal_amount wd"
    "sum_list (map wb_storage_fee_refund ready) \<le> w_total_storage_fee_withdrawal wd"
    "pay_unlocked T i who (sum_list (map wb_amount_to_unlock ready)) s = Inr t"
    "\<exists>x ev. release T StorageFundWithdrawal who (sum_list (map wb_storage_fee_refund ready)) Exact (ext t) = Some x \<and>
       s' = cleanup_withdrawal i who (wd\<lparr>w_withdrawals := rest,
         w_total_withdrawal_amount := w_total_withdrawal_amount wd - sum_list (map wb_amount_to_unlock ready),
         w_total_storage_fee_withdrawal :=
           w_total_storage_fee_withdrawal wd - sum_list (map wb_storage_fee_refund ready)\<rparr>)
         (t\<lparr>ext := x, events := ev\<rparr>)"
proof -
  from assms obtain op ss wd0 wd rest a f t x where
    op: "operators s i = Some op" "is_operator_registered_or_deactivated op i s"
    and ss: "domain_staking_summary s (op_current_domain_id op) = Some ss"
    and wd: "get_withdrawal s i who = Some wd0"
      "do_convert_previous_epoch_withdrawal T s i wd0 (ss_current_epoch_index ss) = (Inr (), wd)"
    and loop: "unlock_ready (head_domain_number s (op_current_domain_id op)) (w_withdrawals wd) 0 0 0
        = Inr (rest, a, f, n)"
    and le: "a \<le> w_total_withdrawal_amount wd" "f \<le> w_total_storage_fee_withdrawal wd"
    and pay: "pay_unlocked T i who a s = Inr t"
    and x: "release T StorageFundWithdrawal who f Exact (ext t) = Some x"
    and s': "s' = cleanup_withdrawal i who (wd\<lparr>w_withdrawals := rest,
         w_total_withdrawal_amount := w_total_withdrawal_amount wd - a,
         w_total_storage_fee_withdrawal := w_total_storage_fee_withdrawal wd - f\<rparr>)
       (deposit_event (StorageFeeUnlocked i who f) ((deposit_event (NominatedStakedUnlocked i who a) t)\<lparr>ext := x\<rparr>))"
    by (auto simp: do_unlock_funds_def Let_def and_then_Inr_iff ok_or_Inr_iff ensure_Inr_iff or_fail_Inr_iff
        arith_simps with_ext_Inr_iff) (simp_all add: deposit_event_def)
  note loop' = unlock_ready_Inr(1-3) [OF loop] unlock_ready_Inr(4) [OF loop]
  show ?thesis
    using le pay x s'
    by (intro that [OF op ss wd refl loop'(1)] exI [of _ x]
          exI [of _ "events t @ [NominatedStakedUnlocked i who a, StorageFeeUnlocked i who f]"] conjI)
      (simp_all add: loop'(2-4) deposit_event_def)
qed

lemma cleanup_withdrawal_frame:
  "issued iss (cleanup_withdrawal i who wd s) = issued iss s"
  "deposit_on_hold (cleanup_withdrawal i who wd s) = deposit_on_hold s"
  "operators (cleanup_withdrawal i who wd s) = operators s"
  by (simp_all add: cleanup_withdrawal_def Let_def remove_withdrawal_def remove_deposit_def put_withdrawal_def
      issued_def split: option.splits)

lemma cleanup_withdrawal_get:
  assumes "om_invar (withdrawals s i)"
  shows "get_withdrawal (cleanup_withdrawal i who wd s) i who
      = (if w_withdrawals wd = [] \<and> w_withdrawal_in_shares wd = None then None else Some wd)"
  using om_get_remove_same [OF assms, of who]
  by (auto simp: cleanup_withdrawal_def Let_def remove_withdrawal_def remove_deposit_def put_withdrawal_def
      get_withdrawal_def split: option.splits)

text \<open>What is left of a well-formed withdrawal after a part of its queue has been unlocked.\<close>

lemma withdrawal_wf_unlock:
  assumes "withdrawal_wf wd" and "w_withdrawals wd = ready @ rest"
  shows "sum_list (map wb_amount_to_unlock ready) \<le> w_total_withdrawal_amount wd"
    and "sum_list (map wb_storage_fee_refund ready) \<le> w_total_storage_fee_withdrawal wd"
    and "withdrawal_wf (wd\<lparr>w_withdrawals := rest,
         w_total_withdrawal_amount := w_total_withdrawal_amount wd - sum_list (map wb_amount_to_unlock ready),
         w_total_storage_fee_withdrawal :=
           w_total_storage_fee_withdrawal wd - sum_list (map wb_storage_fee_refund ready)\<rparr>)"
  using assms by (simp_all add: withdrawal_wf_def)

text \<open>The exit of a nominator from the pool of a deregistered operator.\<close>

lemma release_nominator_InrE:
  assumes "release_nominator T i who amount s = Inr s'"
  obtains x where "s' = s\<lparr>deposit_on_hold := (deposit_on_hold s)((i, who) := 0), ext := x\<rparr>"
proof -
  let ?s = "s\<lparr>deposit_on_hold := (deposit_on_hold s)((i, who) := 0)\<rparr>"
  let ?locked = "deposit_on_hold s (i, who)"
  from assms obtain t where mint: "(case checked_sub amount ?locked of
      Some a \<Rightarrow> mint_funds T who a ?s | None \<Rightarrow> Inr ?s) = Inr t"
    and rel: "(if ?locked \<noteq> 0 then with_ext RemoveLock (release T StakingStaked who ?locked Exact) t else Inr t)
        = Inr s'"
    unfolding release_nominator_def Let_def and_then_Inr_iff by blast
  from mint obtain x where t: "t = ?s\<lparr>ext := x\<rparr>"
  proof (cases "checked_sub amount ?locked")
    case None
    with mint have "t = ?s\<lparr>ext := ext ?s\<rparr>" by simp
    then show ?thesis by (rule that)
  next
    case (Some a)
    with mint that show ?thesis by (auto elim: mint_funds_InrE)
  qed
  show ?thesis
  proof (cases "?locked = 0")
    case True
    with rel t have "s' = ?s\<lparr>ext := x\<rparr>" by simp
    then show ?thesis by (intro that) simp
  next
    case False
    with rel obtain y where "s' = t\<lparr>ext := y\<rparr>" by (auto simp: with_ext_Inr_iff)
    with t show ?thesis by (intro that) simp
  qed
qed

lemma mint_into_treasury_InrE:
  assumes "mint_into_treasury T amount s = Inr s'"
  obtains x a where "s' = s\<lparr>ext := x, accumulated_treasury_funds := a\<rparr>"
proof (cases "amount = 0")
  case True
  with assms have "s' = s\<lparr>ext := ext s, accumulated_treasury_funds := accumulated_treasury_funds s\<rparr>"
    by (simp add: mint_into_treasury_def)
  then show ?thesis by (rule that)
next
  case False
  let ?total = "accumulated_treasury_funds s + amount"
  show ?thesis
  proof (cases "can_deposit T (ext s) (TreasuryAccount T) ?total")
    case True
    with False assms that show ?thesis by (auto simp: mint_into_treasury_def result_simps arith_simps)
  next
    case dep: False
    with False assms have "s' = s\<lparr>ext := ext s, accumulated_treasury_funds := ?total\<rparr>"
      by (auto simp: mint_into_treasury_def result_simps arith_simps)
    then show ?thesis by (rule that)
  qed
qed

lemma do_cleanup_operator_InrE:
  assumes "do_cleanup_operator T i stake s = Inr s'"
  obtains x a where "s' = s\<lparr>ext := x, accumulated_treasury_funds := a,
     operator_id_owner := (operator_id_owner s)(i := None),
     operator_highest_slot := (operator_highest_slot s)(i := 0),
     operator_epoch_share_price := (operator_epoch_share_price s)(i := Map.empty)\<rparr>"
proof -
  from assms obtain y t where "mint_into_treasury T stake (s\<lparr>ext := y\<rparr>) = Inr t"
    and "s' = t\<lparr>operator_id_owner := (operator_id_owner t)(i := None),
            operator_highest_slot := (operator_highest_slot t)(i := 0),
            operator_epoch_share_price := (operator_epoch_share_price t)(i := Map.empty)\<rparr>"
    by (auto simp: do_cleanup_operator_def transfer_all_to_treasury_def result_simps)
  then show ?thesis by (elim mint_into_treasury_InrE) (auto intro: that)
qed

lemma do_unlock_nominator_InrE:
  assumes "do_unlock_nominator T i who s = Inr s'"
  obtains op price n where
    "operators s i = Some op"
    "SharePrice_new T (op_current_total_shares op) (op_current_total_stake op) = Inr price"
    "n \<le> op_current_total_shares op"
    "(deposits s' i = [] \<and> withdrawals s' i = [] \<and> operators s' = (operators s)(i := None) \<and>
        operator_id_owner s' = (operator_id_owner s)(i := None)) \<or>
     (\<exists>fee. operators s' = (operators s)(i \<mapsto> op\<lparr>op_current_total_shares := op_current_total_shares op - n,
        op_current_total_stake := op_current_total_stake op - shares_to_stake T price n,
        op_total_storage_fee_deposit := op_total_storage_fee_deposit op - fee\<rparr>) \<and>
        operator_id_owner s' = operator_id_owner s)"
    "deposit_on_hold s' (i, who) = 0"
    "deposits s' = (deposits s)(i := om_remove who (deposits s i))"
    "withdrawals s' = (withdrawals s)(i := om_remove who (withdrawals s i))"
proof -
  let ?r = "\<lambda>s. remove_withdrawal i who (remove_deposit i who s)"
  let ?op = "\<lambda>op price n fee. op\<lparr>op_current_total_shares := op_current_total_shares op - n,
    op_current_total_stake := op_current_total_stake op - shares_to_stake T price n,
    op_total_storage_fee_deposit := op_total_storage_fee_deposit op - fee\<rparr>"
  from assms obtain op price n amount t1 f t2 v t3 x fee fee' where
    op: "operators s i = Some op"
    and price: "SharePrice_new T (op_current_total_shares op) (op_current_total_stake op) = Inr price"
    and n: "n \<le> op_current_total_shares op"
    and 1: "release_nominator T i who amount (?r s) = Inr t1"
    and 2: "map_err BundleStorageFund (withdraw_to T i who f (deposit_event (NominatedStakedUnlocked i who amount) t1))
        = Inr (t2, v)"
    and t3: "t3 = deposit_event (StorageFeeUnlocked i who fee') (t2\<lparr>ext := x\<rparr>)"
    and s': "(if deposits t3 i = [] \<and> withdrawals t3 i = []
       then and_then (do_cleanup_operator T i (op_current_total_stake op - shares_to_stake T price n) t3)
            (\<lambda>s. Inr (s\<lparr>operators := (operators s)(i := None)\<rparr>))
       else Inr (put_operator i (?op op price n fee) t3)) = Inr s'"
    unfolding do_unlock_nominator_def Let_def
    by (auto simp only: and_then_Inr_iff ok_or_Inr_iff ensure_Inr_iff with_ext_Inr_iff arith_simps
        saturating_sub_eq prod.case split_paired_Ex)
  from 1 2 obtain y ev where t3: "t3 = (?r s)\<lparr>deposit_on_hold := (deposit_on_hold s)((i, who) := 0), ext := y, events := ev\<rparr>"
    by (elim release_nominator_InrE withdraw_to_InrE)
      (auto simp: t3 deposit_event_def remove_withdrawal_def remove_deposit_def)
  show ?thesis
  proof (cases "deposits t3 i = [] \<and> withdrawals t3 i = []")
    case True
    with s' obtain u where "do_cleanup_operator T i (op_current_total_stake op - shares_to_stake T price n) t3 = Inr u"
      and "s' = u\<lparr>operators := (operators u)(i := None)\<rparr>"
      by (auto simp: and_then_Inr_iff)
    with True show ?thesis
      by (elim do_cleanup_operator_InrE, intro that [OF op price n])
        (auto simp: t3 remove_withdrawal_def remove_deposit_def)
  next
    case False
    with s' have "s' = put_operator i (?op op price n fee) t3" by simp
    then show ?thesis
      by (intro that [OF op price n]) (auto simp: t3 remove_withdrawal_def remove_deposit_def put_operator_def)
  qed
qed

lemmas [eval_defs] =
  current_share_price_def shares_to_withdraw_def note_withdrawal_in_shares_def convert_nominator_def
  note_deactivated_def do_withdraw_stake_def pay_unlocked_def cleanup_withdrawal_def do_unlock_funds_def
  settle_withdrawal_def release_nominator_def do_unlock_nominator_def

section \<open>Properties\<close>



text \<open>
  C32: Unlocking pays exactly what is ready. The withdrawals at the front of the queue whose locking period is
  over are removed and the others stay; the nominator gets their amounts, from what is on hold as far as it
  goes, and only the rest is newly issued.
\<close>

theorem unlock_funds_effect:
  assumes laws: "issuance_laws T iss" and ok: "do_unlock_funds T i who s = Inr (n, s')"
    and invar: "om_invar (withdrawals s i)"
  shows "\<exists>op ss wd0 wd ready rest. operators s i = Some op \<and>
    domain_staking_summary s (op_current_domain_id op) = Some ss \<and> get_withdrawal s i who = Some wd0 \<and>
    do_convert_previous_epoch_withdrawal T s i wd0 (ss_current_epoch_index ss) = (Inr (), wd) \<and>
    w_withdrawals wd = ready @ rest \<and> n = length ready mod 2 ^ 32 \<and>
    (\<forall>w \<in> set ready. wb_unlock_at w \<le> head_domain_number s (op_current_domain_id op)) \<and>
    (rest \<noteq> [] \<longrightarrow> head_domain_number s (op_current_domain_id op) < wb_unlock_at (hd rest)) \<and>
    map_option w_withdrawals (get_withdrawal s' i who)
      = (if rest = [] \<and> w_withdrawal_in_shares wd = None then None else Some rest) \<and>
    deposit_on_hold s' (i, who) = deposit_on_hold s (i, who) - sum_list (map wb_amount_to_unlock ready) \<and>
    issued iss s' = issued iss s + (sum_list (map wb_amount_to_unlock ready) - deposit_on_hold s (i, who))"
  using ok
proof (cases rule: do_unlock_funds_InrE)
  case (1 op ss wd0 wd ready rest t)
  let ?h = "head_domain_number s (op_current_domain_id op)" and ?a = "sum_list (map wb_amount_to_unlock ready)"
  let ?wd = "wd\<lparr>w_withdrawals := rest, w_total_withdrawal_amount := w_total_withdrawal_amount wd - ?a,
    w_total_storage_fee_withdrawal :=
      w_total_storage_fee_withdrawal wd - sum_list (map wb_storage_fee_refund ready)\<rparr>"
  from 1(12) obtain x ev where x: "release T StorageFundWithdrawal who
      (sum_list (map wb_storage_fee_refund ready)) Exact (ext t) = Some x"
    and s': "s' = cleanup_withdrawal i who ?wd (t\<lparr>ext := x, events := ev\<rparr>)" by blast
  from pay_unlocked_Inr(2) [OF 1(11)] obtain y where
    t: "t = s\<lparr>deposit_on_hold := (deposit_on_hold s)((i, who) := deposit_on_hold s (i, who) - ?a), ext := y\<rparr>" by blast
  have "issued iss s' = issued iss t"
    using issuance_lawsD(4) [OF laws x] by (simp add: s' cleanup_withdrawal_frame) (simp add: issued_def)
  also have "\<dots> = issued iss s + (?a - deposit_on_hold s (i, who))" by (rule pay_unlocked_Inr(1) [OF 1(11) laws])
  finally have issued: "issued iss s' = issued iss s + (?a - deposit_on_hold s (i, who))" .
  have "map_option w_withdrawals (get_withdrawal s' i who)
      = (if rest = [] \<and> w_withdrawal_in_shares wd = None then None else Some rest)"
    using cleanup_withdrawal_get [of "t\<lparr>ext := x, events := ev\<rparr>" i who ?wd] invar by (simp add: s' t)
  moreover have "w_withdrawals wd = ready @ rest" using 1(6,7) by simp
  moreover have "\<forall>w \<in> set ready. ready_at ?h w" using 1(6) by (auto dest: set_takeWhileD)
  moreover have "rest \<noteq> [] \<longrightarrow> ?h < wb_unlock_at (hd rest)" 
    using 1(7) hd_dropWhile [of "ready_at ?h" "w_withdrawals wd"] by (metis not_le)
  moreover have "deposit_on_hold s' (i, who) = deposit_on_hold s (i, who) - ?a"
    by (simp add: s' cleanup_withdrawal_frame) (simp add: t)
  ultimately show ?thesis using 1(1,3,4,5,8) issued by blast
qed

text \<open>A nominator with two withdrawals, one of which is ready.\<close>

definition unlock_example :: "ledger domains" where
  "unlock_example = registered_state
    \<lparr>head_domain_number := (\<lambda>d. 5),
     withdrawals := (\<lambda>i. [])(0 := [(2, \<lparr>w_total_withdrawal_amount = 150, w_total_storage_fee_withdrawal = 15,
       w_withdrawals = [\<lparr>wb_unlock_at = 4, wb_amount_to_unlock = 100, wb_storage_fee_refund = 10\<rparr>,
         \<lparr>wb_unlock_at = 9, wb_amount_to_unlock = 50, wb_storage_fee_refund = 5\<rparr>],
       w_withdrawal_in_shares = None\<rparr>)]),
     deposit_on_hold := (\<lambda>k. 0)((0, 1) := 800, (0, 2) := 80),
     ext := reference_ledger\<lparr>lg_held := (\<lambda>h who. if who = 2 then 80 else 0)\<rparr>\<rparr>"

lemmas [eval_defs] = unlock_example_def

theorem unlock_funds_effect_witness:
  "\<exists>n s'. do_unlock_funds reference_runtime 0 2 unlock_example = Inr (n, s') \<and>
     (\<exists>ready :: withdrawal_in_balance list. n = length ready mod 2 ^ 32 \<and>
        deposit_on_hold s' (0, 2) = deposit_on_hold unlock_example (0, 2) - sum_list (map wb_amount_to_unlock ready))"
proof -
  have "\<not> isl (do_unlock_funds reference_runtime 0 2 unlock_example)" by (simp add: eval_defs)
  then obtain n s' where ok: "do_unlock_funds reference_runtime 0 2 unlock_example = Inr (n, s')"
    using is_ok_ex by (metis surj_pair)
  have "om_invar (withdrawals unlock_example 0)" by (simp add: unlock_example_def om_invar_def)
  from unlock_funds_effect [OF reference_laws(4) ok this] obtain ready :: "withdrawal_in_balance list" where "n = length ready mod 2 ^ 32"
    "deposit_on_hold s' (0, 2) = deposit_on_hold unlock_example (0, 2) - sum_list (map wb_amount_to_unlock ready)"
    by blast
  with ok show ?thesis by blast
qed

lemma convert_withdrawal_error:
  "or_fail (do_convert_previous_epoch_withdrawal T s i wd e) = Inl err \<Longrightarrow>
     err = MissingOperatorEpochSharePrice \<or> err = BalanceOverflow"
  by (auto simp: or_fail_def do_convert_previous_epoch_withdrawal_def Let_def split: option.splits if_splits)

lemma unlock_ready_error: "unlock_ready head ws a f c = Inl err \<Longrightarrow> err = BalanceOverflow"
  by (induction head ws a f c rule: unlock_ready.induct) (auto simp: and_then_Inl_iff ok_or_Inl_iff split: if_splits)

lemma pay_unlocked_error: "pay_unlocked T i who a s = Inl err \<Longrightarrow> err = MintBalance \<or> err = RemoveLock"
  by (auto simp: pay_unlocked_def mint_funds_def with_ext_def Let_def and_then_Inl_iff
      split: if_splits option.splits)

text \<open>
  C33: Unlocking never fails for want of bookkeeping: where the totals of a withdrawal are the sums of its
  parts, subtracting what is unlocked cannot underflow, and the totals of what remains are sums again.
\<close>

theorem unlock_funds_never_underflows:
  assumes wf: "\<And>wd. get_withdrawal s i who = Some wd \<Longrightarrow> withdrawal_wf wd"
  shows "do_unlock_funds T i who s \<noteq> Inl BalanceUnderflow \<and>
    (\<forall>n s' wd. do_unlock_funds T i who s = Inr (n, s') \<and> om_invar (withdrawals s i) \<and>
       get_withdrawal s' i who = Some wd \<longrightarrow> withdrawal_wf wd)"
proof (intro conjI allI impI)
  show "do_unlock_funds T i who s \<noteq> Inl BalanceUnderflow"
  proof
    assume "do_unlock_funds T i who s = Inl BalanceUnderflow"
    then obtain d e wd0 wd rest a f n where wd0: "get_withdrawal s i who = Some wd0"
      and wd: "do_convert_previous_epoch_withdrawal T s i wd0 e = (Inr (), wd)"
      and loop: "unlock_ready (head_domain_number s d) (w_withdrawals wd) 0 0 0 = Inr (rest, a, f, n)"
      and "w_total_withdrawal_amount wd < a \<or> w_total_storage_fee_withdrawal wd < f"
      by (auto simp: do_unlock_funds_def Let_def and_then_Inl_iff ok_or_Inl_iff ok_or_Inr_iff ensure_Inl_iff
          or_fail_Inr_iff checked_sub_None_iff with_ext_def
          dest!: convert_withdrawal_error unlock_ready_error pay_unlocked_error split: option.splits)
    with withdrawal_wf_unlock(1,2) [OF convert_withdrawal_wf [OF wd wf [OF wd0]],
        OF takeWhile_dropWhile_id [symmetric, of "w_withdrawals wd" "ready_at (head_domain_number s d)"]]
      unlock_ready_Inr(1-3) [OF loop]
    show False by auto
  qed
next
  fix n s' wd'
  assume *: "do_unlock_funds T i who s = Inr (n, s') \<and> om_invar (withdrawals s i) \<and> get_withdrawal s' i who = Some wd'"
  from * have "do_unlock_funds T i who s = Inr (n, s')" by simp
  then show "withdrawal_wf wd'"
  proof (cases rule: do_unlock_funds_InrE)
    case (1 op ss wd0 wd ready rest t)
    from pay_unlocked_Inr(2) [OF 1(11)] have "withdrawals t = withdrawals s" by auto
    with * have invar: "om_invar (withdrawals (t\<lparr>ext := x, events := ev\<rparr>) i)" for x ev by simp
    have "withdrawal_wf wd" using convert_withdrawal_wf [OF 1(5) wf [OF 1(4)]] .
    from withdrawal_wf_unlock(3) [OF this, of ready rest] 1(6,7,12) * cleanup_withdrawal_get [OF invar]
    show ?thesis by (auto split: if_splits)
  qed
qed

theorem unlock_funds_never_underflows_witness:
  "do_unlock_funds reference_runtime 0 2 unlock_example \<noteq> Inl BalanceUnderflow"
proof -
  have "withdrawal_wf wd" if "get_withdrawal unlock_example 0 2 = Some wd" for wd
    using that by (auto simp: unlock_example_def get_withdrawal_def withdrawal_wf_def)
  from unlock_funds_never_underflows [OF this] show ?thesis by blast
qed

text \<open>
  C34: A nominator who leaves the pool of a deregistered operator leaves it solvent. Its shares are taken out
  at the pool's price, its deposit and withdrawal entries and its hold are gone, and unless it was the last
  one, the pool that remains has at least one unit of stake per share.
\<close>

theorem unlock_nominator_leaves_pool:
  assumes laws: "perthing_laws T" "from_rational_rounds_down T" and ok: "do_unlock_nominator T i who s = Inr s'"
    and invar: "om_invar (deposits s i)" "om_invar (withdrawals s i)"
  shows "\<exists>op price shares. operators s i = Some op \<and> shares \<le> op_current_total_shares op \<and>
    SharePrice_new T (op_current_total_shares op) (op_current_total_stake op) = Inr price \<and>
    get_deposit s' i who = None \<and> get_withdrawal s' i who = None \<and> deposit_on_hold s' (i, who) = 0 \<and>
    (case operators s' i of
       None \<Rightarrow> deposits s' i = [] \<and> withdrawals s' i = [] \<and> operator_id_owner s' i = None
     | Some op' \<Rightarrow> op_current_total_shares op' = op_current_total_shares op - shares \<and>
         op_current_total_stake op' + shares_to_stake T price shares = op_current_total_stake op \<and>
         op_current_total_shares op' \<le> op_current_total_stake op')"
  using ok
proof (cases rule: do_unlock_nominator_InrE)
  case (1 op price n)
  from shares_to_stake_rest [OF laws 1(2,3)] 1 invar show ?thesis
    by (intro exI [of _ op] exI [of _ price] exI [of _ n])
      (auto simp: get_deposit_def get_withdrawal_def om_get_remove_same)
qed

text \<open>The state after the deregistration of an operator with one nominator, at the end of the waiting period.\<close>

definition leaving_example :: "ledger domains" where
  "leaving_example = registered_state
    \<lparr>head_domain_number := (\<lambda>d. 5),
     operators := [0 \<mapsto> registered_operator\<lparr>op_partial_status := Deregistered
       \<lparr>odi_domain_epoch = DomainEpoch 0 1, odi_unlock_at = 5\<rparr>,
       op_current_total_stake := 1300, op_current_total_shares := 1200\<rparr>],
     deposits := (\<lambda>i. [])(0 := [(1, \<lparr>dep_known = \<lparr>kd_shares = 800, kd_storage_fee_deposit = 100\<rparr>, dep_pending = None\<rparr>),
       (2, \<lparr>dep_known = \<lparr>kd_shares = 400, kd_storage_fee_deposit = 100\<rparr>, dep_pending = None\<rparr>)]),
     deposit_on_hold := (\<lambda>k. 0)((0, 1) := 800, (0, 2) := 400),
     ext := reference_ledger\<lparr>lg_free := (lg_free reference_ledger)(1000 := 200),
       lg_held := (\<lambda>h who. if who = 2 then 400 else 800)\<rparr>\<rparr>"

lemmas [eval_defs] = leaving_example_def

theorem unlock_nominator_leaves_pool_witness:
  "\<exists>s'. do_unlock_nominator reference_runtime 0 2 leaving_example = Inr s' \<and> get_deposit s' 0 2 = None \<and>
     deposit_on_hold s' (0, 2) = 0"
proof -
  have "\<not> isl (do_unlock_nominator reference_runtime 0 2 leaving_example)" by (simp add: eval_defs)
  then obtain s' where ok: "do_unlock_nominator reference_runtime 0 2 leaving_example = Inr s'"
    using is_ok_ex by blast
  have "om_invar (deposits leaving_example 0)" "om_invar (withdrawals leaving_example 0)"
    by (simp_all add: leaving_example_def registered_state_def reference_state_def om_invar_def)
  with unlock_nominator_leaves_pool [OF reference_laws(1,2) ok] ok show ?thesis by blast
qed

end
