(* ===== verification/Election.thy ===== *)
theory Election
  imports Reference_Runtime
begin

text \<open>
  The election of bundle producers and the check of their performance: crates/sp-domains/src/bundle_producer_election.rs
  (the threshold of an operator and the proof that it won a slot) and crates/sp-domains/src/offline_operators.rs (the
  number of bundles that an operator is expected to produce in an epoch).
\<close>

section \<open>The election\<close>

definition make_transcript :: "domain_id \<Rightarrow> bytes \<Rightarrow> vrf_transcript" where
  "make_transcript d global_challenge =
     \<lparr>vt_label = ''bundle_producer_election'',
      vt_items = [(''domain'', to_le_bytes 4 d), (''global_challenge'', global_challenge)]\<rparr>"

definition calculate_threshold :: "u128 \<Rightarrow> u128 \<Rightarrow> u64 \<times> u64 \<Rightarrow> u128 option" where
  "calculate_threshold operator_stake total_domain_stake bundle_slot_probability =
     (if total_domain_stake = 0 \<or> snd bundle_slot_probability = 0 then None
      else Some (wrapping_mul 128
                  (wrapping_mul 128 (max_of 128 div snd bundle_slot_probability) (fst bundle_slot_probability)
                     div total_domain_stake)
                  operator_stake))"

definition is_below_threshold :: "bytes \<Rightarrow> u128 \<Rightarrow> bool" where
  "is_below_threshold vrf_output threshold = (from_le_bytes (take 16 vrf_output) < threshold)"

text \<open>\<open>PotOutput::derive_global_randomness\<close> and \<open>Randomness::derive_global_challenge\<close>\<close>

definition derive_global_randomness :: "'x config \<Rightarrow> bytes \<Rightarrow> bytes" where
  "derive_global_randomness T proof_of_time = blake3 T proof_of_time"

definition derive_global_challenge :: "'x config \<Rightarrow> bytes \<Rightarrow> slot \<Rightarrow> bytes" where
  "derive_global_challenge T randomness slot_number = blake3 T (randomness @ to_le_bytes 8 slot_number)"

definition verify_vrf_signature ::
    "'x config \<Rightarrow> domain_id \<Rightarrow> public_key \<Rightarrow> vrf_signature \<Rightarrow> bytes \<Rightarrow> proof_of_election_error + unit" where
  "verify_vrf_signature T d key sig global_challenge =
     (if \<not> vrf_verify T key (make_transcript d global_challenge) sig then Inl BadVrfProof else Inr ())"

definition poe_verify_vrf_signature ::
    "'x config \<Rightarrow> proof_of_election \<Rightarrow> public_key \<Rightarrow> proof_of_election_error + unit" where
  "poe_verify_vrf_signature T poe key =
     verify_vrf_signature T (poe_domain_id poe) key (poe_vrf_signature poe)
       (derive_global_challenge T (derive_global_randomness T (poe_proof_of_time poe)) (poe_slot_number poe))"

definition check_proof_of_election ::
    "'x config \<Rightarrow> public_key \<Rightarrow> u64 \<times> u64 \<Rightarrow> proof_of_election \<Rightarrow> u128 \<Rightarrow> u128 \<Rightarrow>
       proof_of_election_error + unit" where
  "check_proof_of_election T key bundle_slot_probability poe operator_stake total_domain_stake =
     and_then (poe_verify_vrf_signature T poe key) (\<lambda>_.
     case calculate_threshold operator_stake total_domain_stake bundle_slot_probability of
       None \<Rightarrow> Inl InvalidThreshold
     | Some threshold \<Rightarrow>
         if \<not> is_below_threshold (vrf_pre_output (poe_vrf_signature poe)) threshold
         then Inl ThresholdUnsatisfied else Inr ())"

section \<open>Expected bundles\<close>

definition LN_1_OVER_TAU_1_PERCENT :: u128 where
  "LN_1_OVER_TAU_1_PERCENT = 4605170185988091904"

definition E_BASE :: u64 where
  "E_BASE = 3"

definition to_u64_floor :: "u128 \<Rightarrow> u64" where
  "to_u64_floor x = saturated_into 64 (x div FIXED_DIV)"

definition to_u64_ceil :: "u128 \<Rightarrow> u64" where
  "to_u64_ceil x = saturated_into 64 ((x + FIXED_DIV - 1) div FIXED_DIV)"

definition p_from_threshold :: "u128 \<Rightarrow> u128" where
  "p_from_threshold threshold =
     saturated_into 128 (saturating_mul 256 threshold FIXED_DIV div 2 ^ 128)"

definition chernoff_threshold_fp :: "'x config \<Rightarrow> u64 \<Rightarrow> u128 \<Rightarrow> u128 \<Rightarrow> u64 option" where
  "chernoff_threshold_fp T slots_in_epoch p_slot ln_one_over_tau =
     (if slots_in_epoch = 0 \<or> p_slot = 0 then Some 0
      else if p_slot \<ge> FIXED_DIV then Some slots_in_epoch
      else
        (let mu = fixed_saturating_mul T p_slot (fixed_saturating_from_integer T slots_in_epoch)
         in map_option
              (\<lambda>t. min (if mu > t then to_u64_floor (saturating_sub mu t) else 0) slots_in_epoch)
              (fixed_try_sqrt T
                 (fixed_saturating_mul T (fixed_saturating_mul T (fixed_saturating_from_integer T 2) mu)
                    ln_one_over_tau))))"

definition is_throughput_relevant_fp :: "'x config \<Rightarrow> u64 \<Rightarrow> u128 \<Rightarrow> u64 \<Rightarrow> bool" where
  "is_throughput_relevant_fp T slots_in_epoch p_slot e_relevance =
     (let mu = fixed_saturating_mul T p_slot (fixed_saturating_from_integer T slots_in_epoch)
      in to_u64_floor mu \<ge> e_relevance)"

definition compute_e_relevance :: "'x config \<Rightarrow> u128 \<Rightarrow> u64 \<Rightarrow> u64" where
  "compute_e_relevance T ln_one_over_tau e_base =
     max e_base (to_u64_ceil (fixed_saturating_mul T (fixed_saturating_from_integer T 2) ln_one_over_tau))"

definition operator_expected_bundles_in_epoch ::
    "'x config \<Rightarrow> u64 \<Rightarrow> u128 \<Rightarrow> u128 \<Rightarrow> u64 \<times> u64 \<Rightarrow> u128 \<Rightarrow> u64 \<Rightarrow>
       operator_epoch_expectations option" where
  "operator_expected_bundles_in_epoch T slots_in_epoch operator_stake total_domain_stake
       bundle_slot_probability ln_one_over_tau e_base =
     (if slots_in_epoch = 0 then None
      else
        Option.bind (calculate_threshold operator_stake total_domain_stake bundle_slot_probability) (\<lambda>threshold.
        let p_slot = p_from_threshold threshold in
        if p_slot = 0 then None
        else
          let e_rel = compute_e_relevance T ln_one_over_tau e_base in
          if \<not> is_throughput_relevant_fp T slots_in_epoch p_slot e_rel then None
          else
            let mu_fp = fixed_saturating_mul T p_slot (fixed_saturating_from_integer T slots_in_epoch);
                expected_bundles = to_u64_floor mu_fp in
            Option.bind (chernoff_threshold_fp T slots_in_epoch p_slot ln_one_over_tau) (\<lambda>min_required_bundles.
            Some \<lparr>oee_expected_bundles = expected_bundles, oee_min_required_bundles = min_required_bundles\<rparr>)))"

section \<open>Lemmas on the threshold\<close>

text \<open>The calculation is written so that it does not overflow; this is when it does not.\<close>

definition threshold_unit :: "u128 \<Rightarrow> u64 \<times> u64 \<Rightarrow> u128" where
  "threshold_unit total_domain_stake prob = max_of 128 div snd prob * fst prob div total_domain_stake"

lemma slot_share_le_max:
  assumes "num \<le> den"
  shows "max_of 128 div den * num \<le> max_of 128"
proof -
  have "max_of 128 div den * num \<le> max_of 128 div den * den" using assms by (rule mult_le_mono2)
  also have "\<dots> \<le> max_of 128" by simp
  finally show ?thesis .
qed

lemma threshold_le:
  assumes "stake \<le> total_stake"
  shows "threshold_unit total_stake prob * stake \<le> max_of 128 div snd prob * fst prob"
proof -
  have "threshold_unit total_stake prob * stake \<le> threshold_unit total_stake prob * total_stake"
    using assms by (rule mult_le_mono2)
  also have "\<dots> \<le> max_of 128 div snd prob * fst prob" by (simp add: threshold_unit_def)
  finally show ?thesis .
qed

lemma calculate_threshold_exact:
  assumes "fst prob \<le> snd prob" and "0 < snd prob" and "0 < total_stake" and "stake \<le> total_stake"
  shows "calculate_threshold stake total_stake prob = Some (threshold_unit total_stake prob * stake)"
proof -
  have share: "max_of 128 div snd prob * fst prob < 2 ^ 128"
    using slot_share_le_max [OF assms(1)] by (simp add: less_two_power_max)
  have "threshold_unit total_stake prob * stake < 2 ^ 128"
    using threshold_le [OF assms(4), of prob] share by (rule le_less_trans)
  with share show ?thesis
    using assms(2,3) by (simp add: calculate_threshold_def threshold_unit_def wrapping_mul_exact)
qed

lemma p_from_threshold_bound:
  assumes "threshold < 2 ^ 128"
  shows "p_from_threshold threshold < FIXED_DIV"
proof -
  have "p_from_threshold threshold \<le> saturating_mul 256 threshold FIXED_DIV div 2 ^ 128"
    unfolding p_from_threshold_def saturated_into_def by (rule min.cobounded1)
  also have "\<dots> \<le> threshold * FIXED_DIV div 2 ^ 128"
    unfolding saturating_mul_def by (intro div_le_mono min.cobounded1)
  also have "\<dots> < FIXED_DIV"
    using assms by (intro less_mult_imp_div_less) (simp add: FIXED_DIV_def)
  finally show ?thesis .
qed

lemma calculate_threshold_bound: "calculate_threshold st tot prob = Some t \<Longrightarrow> t < 2 ^ 128"
  by (auto simp: calculate_threshold_def wrapping_mul_def split: if_splits)

section \<open>Lemmas on the expectations\<close>

text \<open>The expected number of bundles \<open>mu\<close> is exact: nothing saturates.\<close>

lemma expected_mu:
  assumes laws: "fixed_laws T" and "p < FIXED_DIV" and slots: "slots < 2 ^ 64"
  shows "fixed_saturating_mul T p (fixed_saturating_from_integer T slots) = p * slots"
proof -
  have "slots * FIXED_DIV \<le> 2 ^ 64 * FIXED_DIV" using slots by simp
  also have "\<dots> < 2 ^ 128" by (simp add: FIXED_DIV_def)
  finally have b: "slots * FIXED_DIV < 2 ^ 128" .
  have "p * slots \<le> slots * FIXED_DIV" using assms(2) by simp
  then have "p * slots \<le> max_of 128"
    unfolding less_two_power_max using b by (rule le_less_trans)
  moreover have "slots * FIXED_DIV \<le> max_of 128" using b by (simp add: less_two_power_max)
  moreover have "p * (slots * FIXED_DIV) div FIXED_DIV = p * slots"
    by (simp add: FIXED_DIV_def)
  ultimately show ?thesis using laws by (simp add: fixed_laws_def)
qed

lemma to_u64_floor_mono: "x \<le> y \<Longrightarrow> to_u64_floor x \<le> to_u64_floor y"
  unfolding to_u64_floor_def saturated_into_def by (intro min.mono div_le_mono order_refl)

lemma to_u64_floor_le:
  assumes "x \<le> n * FIXED_DIV"
  shows "to_u64_floor x \<le> n"
proof -
  have "x div FIXED_DIV \<le> n * FIXED_DIV div FIXED_DIV" using assms by (rule div_le_mono)
  then show ?thesis by (simp add: to_u64_floor_def saturated_into_def FIXED_DIV_def)
qed

lemma chernoff_threshold_le:
  assumes "fixed_laws T" and "p < FIXED_DIV" and "slots < 2 ^ 64"
    and "chernoff_threshold_fp T slots p l = Some r"
  shows "r \<le> to_u64_floor (p * slots)"
  using assms(4) expected_mu [OF assms(1-3)] assms(2)
  by (auto simp: chernoff_threshold_fp_def Let_def to_u64_floor_mono split: if_splits
      intro: min.coboundedI1 to_u64_floor_mono)

lemma e_relevance_one_percent:
  assumes "fixed_laws T"
  shows "compute_e_relevance T LN_1_OVER_TAU_1_PERCENT E_BASE = 10"
  using assms
  by (simp add: compute_e_relevance_def fixed_laws_def to_u64_ceil_def LN_1_OVER_TAU_1_PERCENT_def
      E_BASE_def FIXED_DIV_def max_of_def saturated_into_def)

lemma expectations_Some:
  assumes "fixed_laws T" and "slots < 2 ^ 64"
    and "operator_expected_bundles_in_epoch T slots st tot prob l e = Some x"
  obtains p where "p < FIXED_DIV" and "oee_expected_bundles x = to_u64_floor (p * slots)"
    and "chernoff_threshold_fp T slots p l = Some (oee_min_required_bundles x)"
    and "compute_e_relevance T l e \<le> to_u64_floor (p * slots)"
proof -
  from assms(3) obtain t where t: "calculate_threshold st tot prob = Some t"
    by (auto simp: operator_expected_bundles_in_epoch_def bind_eq_Some_conv split: if_splits)
  let ?p = "p_from_threshold t"
  have p: "?p < FIXED_DIV" by (rule p_from_threshold_bound [OF calculate_threshold_bound [OF t]])
  show ?thesis
    using assms(3) t p expected_mu [OF assms(1) p assms(2)]
    by (intro that [of ?p])
      (auto simp: operator_expected_bundles_in_epoch_def bind_eq_Some_conv Let_def is_throughput_relevant_fp_def
        split: if_splits)
qed

lemma expected_le_slots: "p < FIXED_DIV \<Longrightarrow> to_u64_floor (p * slots) \<le> slots"
  by (rule to_u64_floor_le) (simp add: mult.commute)

text \<open>How close the threshold, calculated in three rounded steps, is to the exact proportion.\<close>

lemma threshold_accuracy:
  assumes "0 < den" and "0 < total_stake" and "0 < stake"
  shows "threshold_unit total_stake (num, den) * stake * (den * total_stake) \<le> max_of 128 * num * stake"
    and "max_of 128 * num * stake
      < (threshold_unit total_stake (num, den) + 1) * stake * (den * total_stake) + den * num * stake + 1"
proof -
  let ?u = "threshold_unit total_stake (num, den)" and ?q = "max_of 128 div den"
  have "?u * total_stake \<le> ?q * num" by (simp add: threshold_unit_def)
  then have "?u * total_stake * den \<le> ?q * num * den" by (rule mult_le_mono1)
  also have "\<dots> = ?q * den * num" by simp
  also have "\<dots> \<le> max_of 128 * num" by (intro mult_le_mono1) simp
  finally have "?u * total_stake * den * stake \<le> max_of 128 * num * stake" by (rule mult_le_mono1)
  then show "?u * stake * (den * total_stake) \<le> max_of 128 * num * stake" by (simp add: ac_simps)
  have "max_of 128 \<le> (?q + 1) * den"
    using dividend_less_div_times [OF assms(1), of "max_of 128"] by simp
  then have "max_of 128 * num \<le> (?q + 1) * den * num" by (rule mult_le_mono1)
  also have "\<dots> = den * (?q * num) + den * num" by (simp add: algebra_simps)
  also have "\<dots> \<le> den * ((?u + 1) * total_stake) + den * num"
  proof -
    have "?q * num \<le> (?u + 1) * total_stake"
      using dividend_less_div_times [OF assms(2), of "?q * num"] by (simp add: threshold_unit_def)
    then show ?thesis by simp
  qed
  finally have "max_of 128 * num * stake \<le> (den * ((?u + 1) * total_stake) + den * num) * stake"
    by (rule mult_le_mono1)
  then show "max_of 128 * num * stake < (?u + 1) * stake * (den * total_stake) + den * num * stake + 1"
    by (simp add: algebra_simps)
qed

lemmas [eval_defs] = calculate_threshold_def p_from_threshold_def compute_e_relevance_def
  is_throughput_relevant_fp_def chernoff_threshold_fp_def operator_expected_bundles_in_epoch_def
  to_u64_floor_def to_u64_ceil_def LN_1_OVER_TAU_1_PERCENT_def E_BASE_def FIXED_DIV_def

section \<open>Properties\<close>

text \<open>
  C28: The election is proportional and cannot overflow. For a slot probability of at most one and operators
  whose stakes add up to at most the domain's stake, every operator has a threshold, it is the same multiple
  of each stake, and all thresholds together stay within the share of the hash range that the slot
  probability allows.
\<close>

theorem thresholds_proportional:
  assumes "num \<le> den" and "0 < den" and "0 < total_stake" and "sum_list stakes \<le> total_stake"
  shows "\<exists>unit. map (\<lambda>stake. calculate_threshold stake total_stake (num, den)) stakes
        = map (\<lambda>stake. Some (unit * stake)) stakes \<and>
      sum_list (map (\<lambda>stake. unit * stake) stakes) \<le> max_of 128 div den * num"
proof (intro exI conjI)
  let ?u = "threshold_unit total_stake (num, den)"
  have "stake \<le> total_stake" if "stake \<in> set stakes" for stake
    using that assms(4) member_le_sum_list [of stake stakes] by simp
  then show "map (\<lambda>stake. calculate_threshold stake total_stake (num, den)) stakes
      = map (\<lambda>stake. Some (?u * stake)) stakes"
    using calculate_threshold_exact [of "(num, den)" total_stake] assms(1-3) by simp
  have "sum_list (map (\<lambda>stake. ?u * stake) stakes) = ?u * sum_list stakes"
    by (simp add: sum_list_const_mult)
  then show "sum_list (map (\<lambda>stake. ?u * stake) stakes) \<le> max_of 128 div den * num"
    using threshold_le [OF assms(4), of "(num, den)"] by simp
qed

theorem thresholds_proportional_witness:
  "\<exists>unit. map (\<lambda>stake. calculate_threshold stake 60 (1, 2)) [10, 20, 30]
        = map (\<lambda>stake. Some (unit * stake)) [10, 20, 30] \<and>
      sum_list (map (\<lambda>stake. unit * stake) [10, 20, 30]) \<le> max_of 128 div 2 * 1"
  by (rule thresholds_proportional) simp_all

text \<open>
  C29: The threshold is accurate. It never exceeds the exact proportion of stake and slot probability, and it
  falls short of it by less than one unit per unit of stake plus the rounding of the slot probability.
\<close>

theorem threshold_accurate:
  assumes "num \<le> den" and "0 < den" and "stake \<le> total_stake" and "0 < stake"
  shows "\<exists>threshold. calculate_threshold stake total_stake (num, den) = Some threshold \<and>
      threshold * (den * total_stake) \<le> max_of 128 * num * stake \<and>
      max_of 128 * num * stake \<le> (threshold + stake) * (den * total_stake) + den * num * stake"
proof -
  from assms(3,4) have tot: "0 < total_stake" by simp
  show ?thesis
    using calculate_threshold_exact [of "(num, den)" total_stake stake]
      threshold_accuracy [OF assms(2) tot assms(4), of num] assms tot
    by (auto simp: algebra_simps)
qed

theorem threshold_accurate_witness:
  "\<exists>threshold. calculate_threshold 7 60 (1, 3) = Some threshold \<and>
      threshold * (3 * 60) \<le> max_of 128 * 1 * 7 \<and>
      max_of 128 * 1 * 7 \<le> (threshold + 7) * (3 * 60) + 3 * 1 * 7"
  by (rule threshold_accurate) simp_all

text \<open>
  C30: What an operator is expected to do in an epoch. Whenever there is an expectation at the one percent
  level, at least ten and at most as many bundles as there were slots are expected, and the bundles that are
  required never exceed the expected ones.
\<close>

theorem expectations_bounded:
  assumes "fixed_laws T" and "slots < 2 ^ 64"
    and "operator_expected_bundles_in_epoch T slots stake total_stake prob LN_1_OVER_TAU_1_PERCENT E_BASE = Some x"
  shows "10 \<le> oee_expected_bundles x \<and> oee_expected_bundles x \<le> slots \<and>
    oee_min_required_bundles x \<le> oee_expected_bundles x"
  using assms(3)
proof (rule expectations_Some [OF assms(1,2)])
  fix p
  assume p: "p < FIXED_DIV" "oee_expected_bundles x = to_u64_floor (p * slots)"
    "chernoff_threshold_fp T slots p LN_1_OVER_TAU_1_PERCENT = Some (oee_min_required_bundles x)"
    "compute_e_relevance T LN_1_OVER_TAU_1_PERCENT E_BASE \<le> to_u64_floor (p * slots)"
  with e_relevance_one_percent [OF assms(1)] chernoff_threshold_le [OF assms(1) p(1) assms(2) p(3)]
    expected_le_slots [OF p(1)]
  show ?thesis by simp
qed

theorem expectations_bounded_witness:
  "\<exists>x. operator_expected_bundles_in_epoch reference_runtime 600 30 60 (1, 2) LN_1_OVER_TAU_1_PERCENT E_BASE = Some x \<and>
     10 \<le> oee_expected_bundles x \<and> oee_expected_bundles x \<le> 600 \<and>
     oee_min_required_bundles x \<le> oee_expected_bundles x"
proof -
  have "operator_expected_bundles_in_epoch reference_runtime 600 30 60 (1, 2) LN_1_OVER_TAU_1_PERCENT E_BASE \<noteq> None"
    by (simp add: eval_defs saturated_into_def max_of_def saturating_mul_def wrapping_mul_def)
  then obtain x where
    x: "operator_expected_bundles_in_epoch reference_runtime 600 30 60 (1, 2) LN_1_OVER_TAU_1_PERCENT E_BASE = Some x"
    by blast
  with expectations_bounded [OF reference_laws(3) _ x] show ?thesis by simp
qed

end
