(* ===== verification/Staking_Epoch.thy ===== *)
theory Staking_Epoch
  imports Withdrawals Election
begin

text \<open>
  The transition between the staking epochs of a domain (crates/pallet-domains/src/staking_epoch.rs): operators take
  their tax from the rewards of the epoch, the deposits and withdrawals of the epoch become part of the
  pools, the operator sets of the next epoch are built, and slashed operators are paid out to the treasury.
\<close>

section \<open>Rewards at the end of an epoch\<close>

text \<open>The share of each rewarded operator in the domain's chain rewards, and the rest.\<close>

definition split_domain_rewards :: "'x config \<Rightarrow> u64 \<Rightarrow> balance \<Rightarrow> balance option \<times> balance" where
  "split_domain_rewards T active_operator_count domain_rewards =
     (if active_operator_count > 0 \<and> domain_rewards \<noteq> 0 then
        let reward_per_operator = mul_floor T (from_rational T 1 active_operator_count) domain_rewards;
            total_allocated_rewards = saturating_mul 128 reward_per_operator active_operator_count
        in (Some reward_per_operator, saturating_sub domain_rewards total_allocated_rewards)
      else if \<not> active_operator_count > 0 \<and> domain_rewards \<noteq> 0 then (None, domain_rewards)
      else (None, 0))"

text \<open>The operator's tax is minted to its owner and staked by it.\<close>

definition stake_reward_tax ::
    "'x config \<Rightarrow> domain_id \<Rightarrow> epoch_index \<Rightarrow> operator_id \<Rightarrow> balance \<Rightarrow> operator \<Rightarrow> 'x domains \<Rightarrow>
       staking_error + operator \<times> 'x domains" where
  "stake_reward_tax T d epoch i operator_tax_amount op s =
     and_then (ok_or MissingOperatorOwner (operator_id_owner s i)) (\<lambda>nominator_id.
     and_then (with_ext MintBalance (mint_into T nominator_id operator_tax_amount) s) (\<lambda>s.
     and_then (map_err BundleStorageFund (deposit_reserve_for_storage_fund T i nominator_id operator_tax_amount s))
       (\<lambda>(new_dep, s).
     and_then (hold_deposit T nominator_id i (nd_staking new_dep) s) (\<lambda>s.
     and_then (ok_or BalanceOverflow (checked_add 128 (op_deposits_in_epoch op) (nd_staking new_dep)))
       (\<lambda>in_epoch.
     and_then (ok_or BalanceOverflow
                 (checked_add 128 (op_total_storage_fee_deposit op) (nd_storage_fee_deposit new_dep)))
       (\<lambda>fee.
     and_then (do_calculate_previous_epoch_deposit_shares_and_add_new_deposit T i nominator_id
                 (DomainEpoch d epoch) new_dep None s) (\<lambda>s.
     Inr (op\<lparr>op_deposits_in_epoch := in_epoch, op_total_storage_fee_deposit := fee\<rparr>,
          deposit_event (OperatorTaxCollected i operator_tax_amount) s))))))))"

record 'x reward_loop =
  rl_to_treasury :: balance
  rl_rewarded_operator_count :: u32
  rl_operators_with_self_deposits :: "operator_id list"
  rl_state :: "'x domains"

definition take_reward ::
    "'x config \<Rightarrow> domain_id \<Rightarrow> epoch_index \<Rightarrow> balance option \<Rightarrow> operator_id \<times> balance \<Rightarrow>
       'x reward_loop \<Rightarrow> staking_error + 'x reward_loop" where
  "take_reward T d epoch maybe_reward_per_operator entry st =
     (let i = fst entry;
          reward = saturating_add 128 (snd entry) (case_option 0 (\<lambda>r. r) maybe_reward_per_operator);
          s = rl_state st;
          lost = st\<lparr>rl_to_treasury := wrapping_add 128 (rl_to_treasury st) reward\<rparr>
      in case operators s i of
           None \<Rightarrow> Inr lost
         | Some op \<Rightarrow>
             if operator_status_of op i s \<in> {Slashed, PendingSlash} then Inr lost
             else
               let s = (case maybe_reward_per_operator of
                          Some r \<Rightarrow> deposit_event (OperatorRewarded XDMProtocolFees i r) s
                        | None \<Rightarrow> s);
                   operator_tax_amount = percent_mul_floor T (op_nomination_tax op) reward
               in and_then
                    (if operator_tax_amount \<noteq> 0
                     then stake_reward_tax T d epoch i operator_tax_amount op s
                     else Inr (op, s)) (\<lambda>(op, s).
                  and_then (ok_or BalanceUnderflow (checked_sub reward operator_tax_amount)) (\<lambda>rewards.
                  and_then (ok_or BalanceOverflow (checked_add 128 (op_current_total_stake op) rewards)) (\<lambda>stake.
                  Inr (st\<lparr>rl_rewarded_operator_count := wrapping_add 32 (rl_rewarded_operator_count st) 1,
                          rl_operators_with_self_deposits :=
                            (if operator_tax_amount \<noteq> 0 then os_insert i (rl_operators_with_self_deposits st)
                             else rl_operators_with_self_deposits st),
                          rl_state := put_operator i (op\<lparr>op_current_total_stake := stake\<rparr>) s\<rparr>)))))"

definition operator_take_reward_tax_and_stake ::
    "'x config \<Rightarrow> domain_id \<Rightarrow> 'x domains \<Rightarrow> staking_epoch_error + (u32 \<times> operator_id list) \<times> 'x domains" where
  "operator_take_reward_tax_and_stake T d s =
     map_err OperatorRewardStaking
       (and_then (ok_or DomainNotInitialized (domain_staking_summary s d)) (\<lambda>stake_summary.
        let domain_rewards = domain_chain_rewards s d;
            s = s\<lparr>domain_chain_rewards := (domain_chain_rewards s)(d := 0)\<rparr>;
            epoch_rewards = ss_current_epoch_rewards stake_summary;
            (maybe_reward_per_operator, to_treasury) = split_domain_rewards T (length epoch_rewards) domain_rewards
        in and_then
             (try_fold (take_reward T d (ss_current_epoch_index stake_summary) maybe_reward_per_operator)
                epoch_rewards
                \<lparr>rl_to_treasury = to_treasury, rl_rewarded_operator_count = 0,
                 rl_operators_with_self_deposits = [], rl_state = s\<rparr>) (\<lambda>st.
           and_then (mint_into_treasury T (rl_to_treasury st) (rl_state st)) (\<lambda>s.
           Inr ((rl_rewarded_operator_count st, rl_operators_with_self_deposits st),
                put_summary d (stake_summary\<lparr>ss_current_epoch_rewards := []\<rparr>) s)))))"

section \<open>Finalizing the pools\<close>

text \<open>The new stake and shares of a pool: the withdrawals of the epoch are taken out, the deposits added.\<close>

definition finalize_pool ::
    "'x config \<Rightarrow> share_price \<Rightarrow> operator \<Rightarrow> staking_error + balance \<times> share" where
  "finalize_pool T price op =
     and_then
       (if op_withdrawals_in_epoch op \<noteq> 0 then
          and_then (ok_or BalanceUnderflow
                      (checked_sub (op_current_total_stake op) (shares_to_stake T price (op_withdrawals_in_epoch op))))
            (\<lambda>total_stake.
          and_then (ok_or ShareUnderflow (checked_sub (op_current_total_shares op) (op_withdrawals_in_epoch op)))
            (\<lambda>total_shares. Inr (total_stake, total_shares)))
        else Inr (op_current_total_stake op, op_current_total_shares op)) (\<lambda>(total_stake, total_shares).
     if op_deposits_in_epoch op \<noteq> 0 then
       and_then (ok_or BalanceOverflow (checked_add 128 total_stake (op_deposits_in_epoch op))) (\<lambda>total_stake.
       and_then (ok_or ShareOverflow
                   (checked_add 128 total_shares (stake_to_shares T price (op_deposits_in_epoch op))))
         (\<lambda>total_shares. Inr (total_stake, total_shares)))
     else Inr (total_stake, total_shares))"

definition do_finalize_operator_epoch_staking ::
    "'x config \<Rightarrow> domain_id \<Rightarrow> operator_id \<Rightarrow> epoch_index \<Rightarrow> bool \<Rightarrow> 'x domains \<Rightarrow>
       staking_error + (balance \<times> bool) \<times> 'x domains" where
  "do_finalize_operator_epoch_staking T d i previous_epoch check_status s =
     and_then (ok_or UnknownOperator (operators s i)) (\<lambda>op.
     if check_status \<and> operator_status_of op i s \<noteq> Registered then Inl OperatorNotRegistered
     else if op_deposits_in_epoch op = 0 \<and> op_withdrawals_in_epoch op = 0
     then Inr ((op_current_total_stake op, False), s)
     else
       and_then (SharePrice_new T (op_current_total_shares op) (op_current_total_stake op)) (\<lambda>price.
       and_then (finalize_pool T price op) (\<lambda>(total_stake, total_shares).
       let s = s\<lparr>operator_epoch_share_price := (operator_epoch_share_price s)
                   (i := (operator_epoch_share_price s i)(DomainEpoch d previous_epoch \<mapsto> price))\<rparr> in
       Inr ((total_stake, True),
            put_operator i
              (op\<lparr>op_withdrawals_in_epoch := 0, op_deposits_in_epoch := 0,
                  op_current_total_shares := total_shares, op_current_total_stake := total_stake\<rparr>) s))))"

record 'x epoch_loop =
  el_total_domain_stake :: balance
  el_current_operators :: "(operator_id \<times> balance) list"
  el_next_operators :: "operator_id list"
  el_finalized_operator_count :: u32
  el_state :: "'x domains"

text \<open>The event for an operator of the epoch's set that has produced too few bundles.\<close>

definition check_operator_performance ::
    "'x config \<Rightarrow> domain_id \<Rightarrow> staking_summary \<Rightarrow> u64 \<Rightarrow> u64 \<times> u64 \<Rightarrow> (operator_id \<rightharpoonup> u64) \<Rightarrow>
       operator_id \<Rightarrow> 'x domains \<Rightarrow> 'x domains" where
  "check_operator_performance T d stake_summary total_epoch_slots bundle_slot_probability bundle_counts i s =
     (case (om_get (ss_current_operators stake_summary) i, bundle_counts i) of
        (Some operator_stake, Some bundle_count) \<Rightarrow>
          (case operator_expected_bundles_in_epoch T total_epoch_slots (saturated_into 128 operator_stake)
                  (saturated_into 128 (ss_current_total_stake stake_summary)) bundle_slot_probability
                  LN_1_OVER_TAU_1_PERCENT E_BASE of
             Some expectations \<Rightarrow>
               if bundle_count < oee_min_required_bundles expectations
               then deposit_event (OperatorOffline i d bundle_count expectations) s else s
           | None \<Rightarrow> s)
      | _ \<Rightarrow> s)"

definition finalize_next_operator ::
    "'x config \<Rightarrow> domain_id \<Rightarrow> staking_summary \<Rightarrow> u64 \<Rightarrow> u64 \<times> u64 \<Rightarrow> (operator_id \<rightharpoonup> u64) \<Rightarrow>
       operator_id \<Rightarrow> 'x epoch_loop \<Rightarrow> staking_error + 'x epoch_loop" where
  "finalize_next_operator T d stake_summary total_epoch_slots prob bundle_counts i st =
     (if is_operator_pending_to_slash d i (el_state st) then Inr st
      else
        let s = check_operator_performance T d stake_summary total_epoch_slots prob bundle_counts i (el_state st)
        in and_then (do_finalize_operator_epoch_staking T d i (ss_current_epoch_index stake_summary) True s)
             (\<lambda>((operator_stake, stake_changed), s).
           and_then (ok_or BalanceOverflow (checked_add 128 (el_total_domain_stake st) operator_stake))
             (\<lambda>total_domain_stake.
           Inr \<lparr>el_total_domain_stake = total_domain_stake,
                el_current_operators = om_insert i operator_stake (el_current_operators st),
                el_next_operators = os_insert i (el_next_operators st),
                el_finalized_operator_count =
                  (if stake_changed then wrapping_add 32 (el_finalized_operator_count st) 1
                   else el_finalized_operator_count st),
                el_state = s\<rparr>)))"

text \<open>An operator outside the next set whose nominators need the share price of the epoch.\<close>

definition finalize_other_operator ::
    "'x config \<Rightarrow> domain_id \<Rightarrow> epoch_index \<Rightarrow> operator_id \<Rightarrow> u32 \<times> 'x domains \<Rightarrow>
       staking_error + u32 \<times> 'x domains" where
  "finalize_other_operator T d previous_epoch i st =
     (case st of (finalized_operator_count, s) \<Rightarrow>
      case operators s i of
        None \<Rightarrow> Inr st
      | Some op \<Rightarrow>
          if operator_status_of op i s \<in> {Slashed, PendingSlash} then Inr st
          else
            and_then (do_finalize_operator_epoch_staking T d i previous_epoch False s)
              (\<lambda>((_, stake_changed), s).
            Inr (if stake_changed then wrapping_add 32 finalized_operator_count 1 else finalized_operator_count,
                 s)))"

text \<open>
  The end of the epoch: the operators that left the next set during it and those that deposited their own
  tax are finalized as well, the operator set that ends is remembered, and the summary of the domain moves
  to the next epoch.
\<close>

definition finish_epoch ::
    "'x config \<Rightarrow> domain_id \<Rightarrow> operator_id list \<Rightarrow> staking_summary \<Rightarrow> slot \<Rightarrow> epoch_index \<Rightarrow> 'x epoch_loop \<Rightarrow>
       staking_error + (epoch_index \<times> u32) \<times> 'x domains" where
  "finish_epoch T d operators_with_self_deposits stake_summary slot_now next_epoch st =
     (let previous_epoch = ss_current_epoch_index stake_summary;
          s = (el_state st)\<lparr>epoch_start_slot := Some slot_now\<rparr>;
          others = os_extend (os_extend (os_extend operators_with_self_deposits
                     (invalid_bundle_authors s d)) (deregistered_operators s d)) (deactivated_operators s d);
          s = s\<lparr>invalid_bundle_authors := (invalid_bundle_authors s)(d := []),
                deactivated_operators := (deactivated_operators s)(d := []),
                deregistered_operators := (deregistered_operators s)(d := [])\<rparr>;
          others = filter (\<lambda>i. i \<notin> set (ss_next_operators stake_summary)) others
      in and_then (try_fold (finalize_other_operator T d previous_epoch) others (el_finalized_operator_count st, s))
           (\<lambda>(finalized_operator_count, s).
         let s = s\<lparr>last_epoch_staking_distribution := (last_epoch_staking_distribution s)
                     (d \<mapsto> \<lparr>evp_operators = ss_current_operators stake_summary,
                            evp_total_domain_stake = ss_current_total_stake stake_summary\<rparr>)\<rparr>
         in Inr ((previous_epoch, finalized_operator_count),
                 put_summary d
                   (stake_summary\<lparr>ss_current_epoch_index := next_epoch,
                      ss_current_total_stake := el_total_domain_stake st,
                      ss_current_operators := el_current_operators st,
                      ss_next_operators := el_next_operators st\<rparr>) s)))"

definition do_finalize_domain_epoch_staking ::
    "'x config \<Rightarrow> domain_id \<Rightarrow> operator_id list \<Rightarrow> 'x domains \<Rightarrow>
       staking_epoch_error + (epoch_index \<times> u32) \<times> 'x domains" where
  "do_finalize_domain_epoch_staking T d operators_with_self_deposits s =
     map_err FinalizeDomainEpochStaking
       (and_then (ok_or DomainNotInitialized (domain_staking_summary s d)) (\<lambda>stake_summary.
        and_then (ok_or EpochOverflow (checked_add 32 (ss_current_epoch_index stake_summary) 1)) (\<lambda>next_epoch.
        let slot_now = current_slot T (ext s);
            total_epoch_slots =
              (case epoch_start_slot s of
                 Some start_slot \<Rightarrow> wrapping_add 64 (wrapping_sub 64 slot_now start_slot) 1 | None \<Rightarrow> 0);
            bundle_counts = operator_bundle_count_in_epoch s;
            s = s\<lparr>operator_bundle_count_in_epoch := Map.empty\<rparr> in
        and_then (ok_or DomainNotInitialized (domain_registry s d)) (\<lambda>domain_obj.
        and_then
          (try_fold (finalize_next_operator T d stake_summary total_epoch_slots
                       (dc_bundle_slot_probability (do_domain_config domain_obj)) bundle_counts)
             (ss_next_operators stake_summary)
             \<lparr>el_total_domain_stake = 0, el_current_operators = [], el_next_operators = [],
              el_finalized_operator_count = 0, el_state = s\<rparr>)
          (finish_epoch T d operators_with_self_deposits stake_summary slot_now next_epoch)))))"

record epoch_transition_result =
  etr_rewarded_operator_count :: u32
  etr_finalized_operator_count :: u32
  etr_completed_epoch_index :: epoch_index

definition do_finalize_domain_current_epoch ::
    "'x config \<Rightarrow> domain_id \<Rightarrow> 'x domains \<Rightarrow> staking_epoch_error + epoch_transition_result \<times> 'x domains" where
  "do_finalize_domain_current_epoch T d s =
     (let s = s\<lparr>pending_staking_operation_count := (pending_staking_operation_count s)(d := 0)\<rparr> in
      and_then (operator_take_reward_tax_and_stake T d s)
        (\<lambda>((rewarded_operator_count, operators_with_self_deposits), s).
      and_then (do_finalize_domain_epoch_staking T d operators_with_self_deposits s)
        (\<lambda>((completed_epoch_index, finalized_operator_count), s).
      Inr (\<lparr>etr_rewarded_operator_count = rewarded_operator_count,
            etr_finalized_operator_count = finalized_operator_count,
            etr_completed_epoch_index = completed_epoch_index\<rparr>, s))))"

section \<open>Lemmas: the pools\<close>

lemma shares_to_stake_0: "perthing_laws T \<Longrightarrow> valid_price p \<Longrightarrow> shares_to_stake T p 0 = 0"
  by (simp add: shares_to_stake_eq mul_div_def)

lemma stake_to_shares_0: "perthing_laws T \<Longrightarrow> valid_price p \<Longrightarrow> stake_to_shares T p 0 = 0"
  by (simp add: stake_to_shares_eq mul_div_def)

text \<open>The new stake and shares of a pool as equations, under which the zero tests of the code disappear.\<close>

lemma finalize_pool_Inr:
  assumes laws: "perthing_laws T" "valid_price p" and ok: "finalize_pool T p op = Inr (st, sh)"
  shows "op_withdrawals_in_epoch op \<le> op_current_total_shares op"
    and "shares_to_stake T p (op_withdrawals_in_epoch op) \<le> op_current_total_stake op"
    and "st = op_current_total_stake op - shares_to_stake T p (op_withdrawals_in_epoch op) + op_deposits_in_epoch op"
    and "sh = op_current_total_shares op - op_withdrawals_in_epoch op + stake_to_shares T p (op_deposits_in_epoch op)"
  using ok
  by (auto simp: finalize_pool_def result_simps arith_simps shares_to_stake_0 [OF laws] stake_to_shares_0 [OF laws]
      split: if_splits)

text \<open>How an epoch transition changes one pool.\<close>

definition pool_finalized :: "'x config \<Rightarrow> operator \<Rightarrow> operator \<Rightarrow> bool" where
  "pool_finalized T op op' \<longleftrightarrow>
     op_deposits_in_epoch op = 0 \<and> op_withdrawals_in_epoch op = 0 \<and> op' = op \<or>
     (\<exists>price st sh. SharePrice_new T (op_current_total_shares op) (op_current_total_stake op) = Inr price \<and>
        finalize_pool T price op = Inr (st, sh) \<and>
        op' = op\<lparr>op_withdrawals_in_epoch := 0, op_deposits_in_epoch := 0, op_current_total_shares := sh,
                 op_current_total_stake := st\<rparr>)"


lemma pool_finalized_solvent:
  assumes laws: "perthing_laws T" "from_rational_rounds_down T" and fin: "pool_finalized T op op'"
    and "op_current_total_shares op \<le> op_current_total_stake op"
  shows "op_current_total_shares op' \<le> op_current_total_stake op'"
  using fin unfolding pool_finalized_def
proof (elim disjE exE conjE)
  fix p st sh
  assume p: "SharePrice_new T (op_current_total_shares op) (op_current_total_stake op) = Inr p"
    and ok: "finalize_pool T p op = Inr (st, sh)"
    and op': "op' = op\<lparr>op_withdrawals_in_epoch := 0, op_deposits_in_epoch := 0, op_current_total_shares := sh,
       op_current_total_stake := st\<rparr>"
  note v = SharePrice_new_valid [OF laws(1) p]
  note fin = finalize_pool_Inr [OF laws(1) v ok]
  from shares_to_stake_rest(2) [OF laws p fin(1)] stake_to_shares_le [OF laws(1) v, of "op_deposits_in_epoch op"]
  show ?thesis by (simp add: op' fin(3,4))
qed (use assms(4) in simp)

lemma do_finalize_operator_InrE:
  assumes "do_finalize_operator_epoch_staking T d i e chk s = Inr ((st, changed), s')"
  obtains op op' pr where "operators s i = Some op" "chk \<longrightarrow> operator_status_of op i s = Registered"
    "pool_finalized T op op'" "st = op_current_total_stake op'"
    "s' = s\<lparr>operator_epoch_share_price := pr, operators := (operators s)(i \<mapsto> op')\<rparr>"
    "changed \<longleftrightarrow> op_deposits_in_epoch op \<noteq> 0 \<or> op_withdrawals_in_epoch op \<noteq> 0"
    "changed \<Longrightarrow> \<exists>price. SharePrice_new T (op_current_total_shares op) (op_current_total_stake op) = Inr price \<and>
       pr = (operator_epoch_share_price s)(i := (operator_epoch_share_price s i)(DomainEpoch d e \<mapsto> price))"
    "\<not> changed \<Longrightarrow> pr = operator_epoch_share_price s"
proof -
  from assms obtain op where op: "operators s i = Some op"
    and chk: "chk \<longrightarrow> operator_status_of op i s = Registered"
    by (auto simp: do_finalize_operator_epoch_staking_def result_simps split: if_splits)
  show ?thesis
  proof (cases "op_deposits_in_epoch op = 0 \<and> op_withdrawals_in_epoch op = 0")
    case True
    with assms op chk have "st = op_current_total_stake op" "\<not> changed" "s' = s"
      by (auto simp: do_finalize_operator_epoch_staking_def)
    with op chk True show ?thesis
      by (intro that [of op op "operator_epoch_share_price s"])
        (auto simp: pool_finalized_def fun_upd_idem)
  next
    case False
    with assms op chk obtain price sh where *: "changed"
      "SharePrice_new T (op_current_total_shares op) (op_current_total_stake op) = Inr price"
      "finalize_pool T price op = Inr (st, sh)"
      "s' = put_operator i
              (op\<lparr>op_withdrawals_in_epoch := 0, op_deposits_in_epoch := 0,
                  op_current_total_shares := sh, op_current_total_stake := st\<rparr>)
              (s\<lparr>operator_epoch_share_price := (operator_epoch_share_price s)
                   (i := (operator_epoch_share_price s i)(DomainEpoch d e \<mapsto> price))\<rparr>)"
      by (auto simp: do_finalize_operator_epoch_staking_def Let_def and_then_Inr_iff split: if_splits prod.splits)
    let ?op' = "op\<lparr>op_withdrawals_in_epoch := 0, op_deposits_in_epoch := 0,
                  op_current_total_shares := sh, op_current_total_stake := st\<rparr>"
    from *(2,3) have "pool_finalized T op ?op'" by (auto simp: pool_finalized_def)
    with op chk False * show ?thesis
      by (intro that [of op ?op' "(operator_epoch_share_price s)
            (i := (operator_epoch_share_price s i)(DomainEpoch d e \<mapsto> price))"])
        (simp_all add: put_operator_def)
  qed
qed

section \<open>Lemmas: the operator sets\<close>

lemma try_fold_append: "try_fold f (xs @ ys) s = and_then (try_fold f xs s) (try_fold f ys)"
  by (induction xs arbitrary: s) (auto simp: and_then_def split: sum.splits)

lemma operator_status_frame [simp]:
  "is_operator_pending_to_slash d i (s\<lparr>events := ev\<rparr>) = is_operator_pending_to_slash d i s"
  "is_operator_pending_to_slash d i (s\<lparr>operator_epoch_share_price := pr\<rparr>) = is_operator_pending_to_slash d i s"
  "is_operator_pending_to_slash d i (s\<lparr>operators := ops\<rparr>) = is_operator_pending_to_slash d i s"
  "operator_status_of op i (s\<lparr>events := ev\<rparr>) = operator_status_of op i s"
  "operator_status_of op i (s\<lparr>operator_epoch_share_price := pr\<rparr>) = operator_status_of op i s"
  "operator_status_of op i (s\<lparr>operators := ops\<rparr>) = operator_status_of op i s"
  by (simp_all add: is_operator_pending_to_slash_def operator_status_of_def)

lemma om_insert_os_insert: "map fst (om_insert k v m) = os_insert k (map fst m)"
  by (induction k v m rule: om_insert.induct) auto

lemma check_operator_performance_events:
  obtains ev where "check_operator_performance T d ss slots prob counts i s = s\<lparr>events := ev\<rparr>"
proof -
  have "\<exists>ev. check_operator_performance T d ss slots prob counts i s = s\<lparr>events := ev\<rparr>"
    unfolding check_operator_performance_def deposit_event_def
    by (split option.split prod.split)+ (auto split: option.splits intro: exI [of _ "events s"])
  then show thesis using that by blast
qed

lemma finalize_next_operator_InrE:
  assumes "finalize_next_operator T d ss slots prob counts i st = Inr st'"
  obtains (skipped) "is_operator_pending_to_slash d i (el_state st)" "st' = st"
  | (finalized) op op' pr ev where "\<not> is_operator_pending_to_slash d i (el_state st)"
      "operators (el_state st) i = Some op" "operator_status_of op i (el_state st) = Registered"
      "pool_finalized T op op'"
      "el_total_domain_stake st' = el_total_domain_stake st + op_current_total_stake op'"
      "el_current_operators st' = om_insert i (op_current_total_stake op') (el_current_operators st)"
      "el_next_operators st' = os_insert i (el_next_operators st)"
      "el_state st' = (el_state st)\<lparr>events := ev, operator_epoch_share_price := pr,
         operators := (operators (el_state st))(i \<mapsto> op')\<rparr>"
proof (cases "is_operator_pending_to_slash d i (el_state st)")
  case True
  with assms have "st' = st" by (simp add: finalize_next_operator_def)
  with True show ?thesis by (rule skipped)
next
  case False
  obtain ev where ev: "check_operator_performance T d ss slots prob counts i (el_state st)
      = (el_state st)\<lparr>events := ev\<rparr>" by (rule check_operator_performance_events)
  from assms False obtain b c t where fin: "do_finalize_operator_epoch_staking T d i (ss_current_epoch_index ss) True
      ((el_state st)\<lparr>events := ev\<rparr>) = Inr ((b, c), t)"
    and st': "el_total_domain_stake st' = el_total_domain_stake st + b"
      "el_current_operators st' = om_insert i b (el_current_operators st)"
      "el_next_operators st' = os_insert i (el_next_operators st)" "el_state st' = t"
    by (auto simp: finalize_next_operator_def Let_def ev result_simps arith_simps)
  from fin show ?thesis
  proof (cases rule: do_finalize_operator_InrE)
    case (1 op op' pr)
    with 1 False st' show ?thesis by (intro finalized [of op op' pr ev]) simp_all
  qed
qed

text \<open>What the loop over the next operator set has done after some of its iterations.\<close>

definition next_operator_finalized ::
    "'x config \<Rightarrow> 'x domains \<Rightarrow> (operator_id \<rightharpoonup> operator) \<Rightarrow> (operator_id \<times> balance) list \<Rightarrow> operator_id \<Rightarrow> bool" where
  "next_operator_finalized T s ops m i \<longleftrightarrow>
     (\<exists>op op'. operators s i = Some op \<and> operator_status_of op i s = Registered \<and> pool_finalized T op op' \<and>
        ops i = Some op' \<and> om_get m i = Some (op_current_total_stake op'))"

definition epoch_loop_inv ::
    "'x config \<Rightarrow> domain_id \<Rightarrow> 'x domains \<Rightarrow> operator_id set \<Rightarrow> 'x epoch_loop \<Rightarrow> bool" where
  "epoch_loop_inv T d s seen st \<longleftrightarrow>
     (let ops = operators (el_state st); m = el_current_operators st;
          fin = {i \<in> seen. \<not> is_operator_pending_to_slash d i s} in
      (\<exists>ev pr. el_state st = s\<lparr>events := ev, operator_epoch_share_price := pr, operators := ops\<rparr>) \<and>
      om_invar m \<and> el_next_operators st = map fst m \<and> set (map fst m) = fin \<and>
      el_total_domain_stake st = om_total (\<lambda>b. b) m \<and>
      (\<forall>i. if i \<in> fin then next_operator_finalized T s ops m i else ops i = operators s i))"

lemma epoch_loop_inv_start:
  "epoch_loop_inv T d s {}
     \<lparr>el_total_domain_stake = 0, el_current_operators = [], el_next_operators = [],
      el_finalized_operator_count = 0, el_state = s\<rparr>"
  by (auto simp: epoch_loop_inv_def om_total_def intro!: exI [of _ "events s"] exI [of _ "operator_epoch_share_price s"])

lemma epoch_loop_inv_step:
  assumes inv: "epoch_loop_inv T d s seen st" and "i \<notin> seen"
    and ok: "finalize_next_operator T d ss slots prob counts i st = Inr st'"
  shows "epoch_loop_inv T d s (insert i seen) st'"
  using ok
proof (cases rule: finalize_next_operator_InrE)
  case skipped
  from inv obtain ev pr where "el_state st
      = s\<lparr>events := ev, operator_epoch_share_price := pr, operators := operators (el_state st)\<rparr>"
    by (auto simp: epoch_loop_inv_def Let_def)
  with skipped(1) have "is_operator_pending_to_slash d i s" by (metis operator_status_frame(1-3))
  then have "{j \<in> insert i seen. \<not> is_operator_pending_to_slash d j s}
      = {j \<in> seen. \<not> is_operator_pending_to_slash d j s}" by auto
  with inv skipped show ?thesis by (simp add: epoch_loop_inv_def)
next
  case (finalized op op' pr ev)
  let ?fin = "{j \<in> seen. \<not> is_operator_pending_to_slash d j s}" and ?m = "el_current_operators st"
  from inv have frame: "\<exists>ev pr ops. el_state st = s\<lparr>events := ev, operator_epoch_share_price := pr, operators := ops\<rparr>"
    and m: "om_invar ?m" "el_next_operators st = map fst ?m" "set (map fst ?m) = ?fin"
      "el_total_domain_stake st = om_total (\<lambda>b. b) ?m"
    by (auto simp: epoch_loop_inv_def Let_def)
  from frame have same: "is_operator_pending_to_slash d i (el_state st) = is_operator_pending_to_slash d i s"
      "operator_status_of op i (el_state st) = operator_status_of op i s"
    by auto
  from same finalized(1) have fin: "{j \<in> insert i seen. \<not> is_operator_pending_to_slash d j s} = insert i ?fin" by auto
  have fresh: "om_get ?m i = None" using m(3) assms(2) by (auto simp: om_get_None_iff)
  from inv have others: "if j \<in> ?fin then next_operator_finalized T s (operators (el_state st)) ?m j
      else operators (el_state st) j = operators s j" for j
    by (auto simp: epoch_loop_inv_def Let_def)
  from others [of i] assms(2) finalized same
  have "next_operator_finalized T s (operators (el_state st')) (el_current_operators st') i"
    unfolding next_operator_finalized_def by (intro exI [of _ op] exI [of _ op']) simp
  moreover have "if j \<in> ?fin then next_operator_finalized T s (operators (el_state st')) (el_current_operators st') j
    else operators (el_state st') j = operators s j" if "j \<noteq> i" for j
    using others [of j] that finalized(6,8)
    by (auto simp: next_operator_finalized_def [of T s _ _ j] om_get_insert)
  ultimately have "if j \<in> insert i ?fin
    then next_operator_finalized T s (operators (el_state st')) (el_current_operators st') j
    else operators (el_state st') j = operators s j" for j by (cases "j = i") simp_all
  then have all: "\<forall>j. if j \<in> insert i ?fin
    then next_operator_finalized T s (operators (el_state st')) (el_current_operators st') j
    else operators (el_state st') j = operators s j" by blast
  have "\<exists>ev pr. el_state st' = s\<lparr>events := ev, operator_epoch_share_price := pr, operators := operators (el_state st')\<rparr>"
    using frame finalized(8) by (intro exI [of _ ev] exI [of _ pr]) auto
  then show ?thesis
    using m finalized(5-7) btree.total_ins_fresh [OF m(1) fresh, of "\<lambda>b. b"]
    om_insert_keys [of i "op_current_total_stake op'" ?m, unfolded set_map]
    unfolding epoch_loop_inv_def Let_def fin
    by (intro conjI) (rule all | simp add: om_invar_insert om_insert_os_insert)+
qed

lemma epoch_loop:
  assumes "try_fold (finalize_next_operator T d ss slots prob counts) xs
     \<lparr>el_total_domain_stake = 0, el_current_operators = [], el_next_operators = [],
      el_finalized_operator_count = 0, el_state = s\<rparr> = Inr st" and "distinct xs"
  shows "epoch_loop_inv T d s (set xs) st"
  using assms
proof (induction xs arbitrary: st rule: rev_induct)
  case (snoc i xs)
  then show ?case
    by (auto simp: try_fold_append result_simps intro: epoch_loop_inv_step)
qed (auto simp: epoch_loop_inv_start)

text \<open>The operators outside the next set.\<close>

lemma finalize_other_operator_InrE:
  assumes "finalize_other_operator T d e i (n, s) = Inr (n', s')"
  obtains (unknown) "operators s i = None" "s' = s"
  | (slashed) op where "operators s i = Some op" "operator_status_of op i s \<in> {Slashed, PendingSlash}" "s' = s"
  | (finalized) op op' pr where "operators s i = Some op" "operator_status_of op i s \<notin> {Slashed, PendingSlash}"
      "pool_finalized T op op'"
      "s' = s\<lparr>operator_epoch_share_price := pr, operators := (operators s)(i \<mapsto> op')\<rparr>"
proof (cases "operators s i")
  case None
  with assms have "s' = s" by (simp add: finalize_other_operator_def)
  with None show ?thesis by (rule unknown)
next
  case (Some op)
  show ?thesis
  proof (cases "operator_status_of op i s \<in> {Slashed, PendingSlash}")
    case True
    with assms Some have "s' = s" by (auto simp: finalize_other_operator_def)
    with Some True show ?thesis by (rule slashed)
  next
    case False
    with assms Some obtain b c where "do_finalize_operator_epoch_staking T d i e False s = Inr ((b, c), s')"
      by (auto simp: finalize_other_operator_def result_simps)
    then show ?thesis
    proof (cases rule: do_finalize_operator_InrE)
      case (1 op' op'' pr)
      with Some False show ?thesis by (intro finalized [of op op'' pr]) simp_all
    qed
  qed
qed

definition other_finalized :: "'x config \<Rightarrow> 'x domains \<Rightarrow> (operator_id \<rightharpoonup> operator) \<Rightarrow> operator_id \<Rightarrow> bool" where
  "other_finalized T s ops i \<longleftrightarrow>
     (case operators s i of
        None \<Rightarrow> ops i = None
      | Some op \<Rightarrow>
          if operator_status_of op i s \<in> {Slashed, PendingSlash} then ops i = Some op
          else \<exists>op'. ops i = Some op' \<and> pool_finalized T op op')"

lemma other_finalized_cong: "ops i = ops' i \<Longrightarrow> other_finalized T s ops i = other_finalized T s ops' i"
  by (simp add: other_finalized_def split: option.split)

lemma other_finalized_frame:
  assumes "operators t i = operators s i" "latest_submitted_er t = latest_submitted_er s"
    "head_receipt_number t = head_receipt_number s"
  shows "other_finalized T t ops i = other_finalized T s ops i"
proof -
  have status: "operator_status_of op i t = operator_status_of op i s" for op
    by (simp add: operator_status_of_def is_operator_pending_to_slash_def assms)
  show ?thesis unfolding other_finalized_def assms(1) status ..
qed

lemma others_loop:
  assumes "try_fold (finalize_other_operator T d e) xs (n, s) = Inr (n', s')" and "distinct xs"
  shows "(\<exists>pr. s' = s\<lparr>operator_epoch_share_price := pr, operators := operators s'\<rparr>) \<and>
    (\<forall>i. if i \<in> set xs then other_finalized T s (operators s') i else operators s' i = operators s i)"
  using assms
proof (induction xs arbitrary: n' s' rule: rev_induct)
  case (snoc i xs)
  then obtain k t where loop: "try_fold (finalize_other_operator T d e) xs (n, s) = Inr (k, t)"
    and step: "finalize_other_operator T d e i (k, t) = Inr (n', s')"
    by (auto simp: try_fold_append result_simps)
  from snoc.IH [OF loop] snoc.prems(2) obtain pr
    where t: "t = s\<lparr>operator_epoch_share_price := pr, operators := operators t\<rparr>"
      and IH: "\<And>j. if j \<in> set xs then other_finalized T s (operators t) j else operators t j = operators s j"
    by auto
  have st: "operator_status_of op i t = operator_status_of op i s" for op
    using t by (metis operator_status_frame(5,6))
  have i: "i \<notin> set xs" using snoc.prems(2) by simp
  have at_i: "operators t i = operators s i" using IH [of i] i by simp
  from step have "(\<exists>pr. s' = s\<lparr>operator_epoch_share_price := pr, operators := operators s'\<rparr>) \<and>
      other_finalized T s (operators s') i \<and> (\<forall>j. j \<noteq> i \<longrightarrow> operators s' j = operators t j)"
  proof (cases rule: finalize_other_operator_InrE)
    case (finalized op op' pr')
    have "\<exists>pr. s' = s\<lparr>operator_epoch_share_price := pr, operators := operators s'\<rparr>"
      using finalized(4) by (subst (asm) t) auto
    with finalized st at_i show ?thesis by (simp add: other_finalized_def)
  qed (use t st at_i in \<open>auto simp: other_finalized_def\<close>)
  moreover from this have "if j \<in> set (xs @ [i]) then other_finalized T s (operators s') j
      else operators s' j = operators s j" for j
    using IH [of j] other_finalized_cong [of "operators s'" j "operators t" T s] by (cases "j = i") simp_all
  ultimately show ?case by blast
qed (auto intro: exI [of _ "operator_epoch_share_price s"])

lemma finish_epoch_Inr:
  assumes ok: "finish_epoch T d self ss slot e st = Inr ((p, n), s')" and "sorted_wrt (<) self"
  shows "p = ss_current_epoch_index ss"
    and "domain_staking_summary s' = (domain_staking_summary (el_state st))(d \<mapsto> ss\<lparr>ss_current_epoch_index := e,
           ss_current_total_stake := el_total_domain_stake st, ss_current_operators := el_current_operators st,
           ss_next_operators := el_next_operators st\<rparr>)"
    and "last_epoch_staking_distribution s' d
      = Some \<lparr>evp_operators = ss_current_operators ss, evp_total_domain_stake = ss_current_total_stake ss\<rparr>"
    and "invalid_bundle_authors s' d = []" "deregistered_operators s' d = []" "deactivated_operators s' d = []"
    and "if i \<in> (set self \<union> set (invalid_bundle_authors (el_state st) d) \<union> set (deregistered_operators (el_state st) d) \<union>
             set (deactivated_operators (el_state st) d)) - set (ss_next_operators ss)
         then other_finalized T (el_state st) (operators s') i else operators s' i = operators (el_state st) i"
    and "ext s' = ext (el_state st)" "accumulated_treasury_funds s' = accumulated_treasury_funds (el_state st)"
    "deposits s' = deposits (el_state st)" "withdrawals s' = withdrawals (el_state st)"
    "deposit_on_hold s' = deposit_on_hold (el_state st)"
proof -
  let ?s = "el_state st"
  let ?t = "?s\<lparr>epoch_start_slot := Some slot, invalid_bundle_authors := (invalid_bundle_authors ?s)(d := []),
    deactivated_operators := (deactivated_operators ?s)(d := []),
    deregistered_operators := (deregistered_operators ?s)(d := [])\<rparr>"
  let ?others = "filter (\<lambda>i. i \<notin> set (ss_next_operators ss)) (os_extend (os_extend (os_extend self
    (invalid_bundle_authors ?s d)) (deregistered_operators ?s d)) (deactivated_operators ?s d))"
  from ok obtain u where p: "p = ss_current_epoch_index ss"
    and loop: "try_fold (finalize_other_operator T d p) ?others (el_finalized_operator_count st, ?t) = Inr (n, u)"
    and s': "s' = put_summary d (ss\<lparr>ss_current_epoch_index := e,
           ss_current_total_stake := el_total_domain_stake st, ss_current_operators := el_current_operators st,
           ss_next_operators := el_next_operators st\<rparr>) (u\<lparr>last_epoch_staking_distribution :=
             (last_epoch_staking_distribution u)
               (d \<mapsto> \<lparr>evp_operators = ss_current_operators ss, evp_total_domain_stake = ss_current_total_stake ss\<rparr>)\<rparr>)"
    by (auto simp: finish_epoch_def Let_def and_then_Inr_iff)
  have "distinct ?others"
    using sorted_os_extend [OF sorted_os_extend [OF sorted_os_extend [OF assms(2)]]] strict_sorted_iff
    by (intro distinct_filter) blast
  from others_loop [OF loop this] obtain pr where u: "u = ?t\<lparr>operator_epoch_share_price := pr, operators := operators u\<rparr>"
    and ops: "if i \<in> set ?others then other_finalized T ?t (operators u) i else operators u i = operators ?t i" for i
    by blast
  show "p = ss_current_epoch_index ss" by (rule p)
  have fields: "domain_staking_summary u = domain_staking_summary ?s" "invalid_bundle_authors u d = []"
    "deregistered_operators u d = []" "deactivated_operators u d = []" "ext u = ext ?s"
    "accumulated_treasury_funds u = accumulated_treasury_funds ?s" "deposits u = deposits ?s"
    "withdrawals u = withdrawals ?s" "deposit_on_hold u = deposit_on_hold ?s"
    by (subst u, simp)+
  show "domain_staking_summary s' = (domain_staking_summary (el_state st))(d \<mapsto> ss\<lparr>ss_current_epoch_index := e,
           ss_current_total_stake := el_total_domain_stake st, ss_current_operators := el_current_operators st,
           ss_next_operators := el_next_operators st\<rparr>)"
    "last_epoch_staking_distribution s' d
      = Some \<lparr>evp_operators = ss_current_operators ss, evp_total_domain_stake = ss_current_total_stake ss\<rparr>"
    "invalid_bundle_authors s' d = []" "deregistered_operators s' d = []" "deactivated_operators s' d = []"
    "ext s' = ext ?s" "accumulated_treasury_funds s' = accumulated_treasury_funds ?s"
    "deposits s' = deposits ?s" "withdrawals s' = withdrawals ?s" "deposit_on_hold s' = deposit_on_hold ?s"
    by (simp_all add: s' put_summary_def fields)
  show "if i \<in> (set self \<union> set (invalid_bundle_authors (el_state st) d) \<union> set (deregistered_operators (el_state st) d) \<union>
             set (deactivated_operators (el_state st) d)) - set (ss_next_operators ss)
         then other_finalized T (el_state st) (operators s') i else operators s' i = operators (el_state st) i"
    using ops [of i] other_finalized_frame [of ?t i ?s T "operators u"] by (auto simp: s' put_summary_def)
qed

lemma do_finalize_domain_epoch_staking_InrE:
  assumes ok: "do_finalize_domain_epoch_staking T d self s = Inr ((e, n), s')"
  obtains ss slots prob st where "domain_staking_summary s d = Some ss"
    "try_fold (finalize_next_operator T d ss slots prob (operator_bundle_count_in_epoch s)) (ss_next_operators ss)
       \<lparr>el_total_domain_stake = 0, el_current_operators = [], el_next_operators = [], el_finalized_operator_count = 0,
        el_state = s\<lparr>operator_bundle_count_in_epoch := Map.empty\<rparr>\<rparr> = Inr st"
    "finish_epoch T d self ss (current_slot T (ext s)) (Suc (ss_current_epoch_index ss)) st = Inr ((e, n), s')"
proof -
  note defs = do_finalize_domain_epoch_staking_def Let_def
  from ok obtain ss where ss: "domain_staking_summary s d = Some ss"
    by (auto simp: defs map_err_Inr_iff and_then_Inr_iff ok_or_Inr_iff)
  moreover from ok ss obtain obj where "domain_registry s d = Some obj"
    "checked_add 32 (ss_current_epoch_index ss) 1 = Some (Suc (ss_current_epoch_index ss))"
    by (auto simp: defs map_err_Inr_iff and_then_Inr_iff ok_or_Inr_iff arith_simps)
  ultimately obtain st where "try_fold (finalize_next_operator T d ss
         (case epoch_start_slot s of
            Some start_slot \<Rightarrow> wrapping_add 64 (wrapping_sub 64 (current_slot T (ext s)) start_slot) 1 | None \<Rightarrow> 0)
         (dc_bundle_slot_probability (do_domain_config obj)) (operator_bundle_count_in_epoch s)) (ss_next_operators ss)
       \<lparr>el_total_domain_stake = 0, el_current_operators = [], el_next_operators = [], el_finalized_operator_count = 0,
        el_state = s\<lparr>operator_bundle_count_in_epoch := Map.empty\<rparr>\<rparr> = Inr st"
    "finish_epoch T d self ss (current_slot T (ext s)) (Suc (ss_current_epoch_index ss)) st = Inr ((e, n), s')"
    using ok by (auto simp: defs map_err_Inr_iff and_then_Inr_iff)
  from that [OF ss this] show ?thesis .
qed

text \<open>Both loops together, in terms of the state before the transition.\<close>

lemma finalize_domain_epoch_Inr:
  assumes ok: "do_finalize_domain_epoch_staking T d self s = Inr ((e, n), s')" and self: "sorted_wrt (<) self"
    and ss: "domain_staking_summary s d = Some ss" and sorted: "sorted_wrt (<) (ss_next_operators ss)"
  obtains ss' where "domain_staking_summary s' d = Some ss'" "e = ss_current_epoch_index ss"
    "ss_current_epoch_index ss' = Suc e"
    "ss_next_operators ss' = filter (\<lambda>i. \<not> is_operator_pending_to_slash d i s) (ss_next_operators ss)"
    "om_keys (ss_current_operators ss') = ss_next_operators ss'"
    "ss_current_total_stake ss' = om_total (\<lambda>b. b) (ss_current_operators ss')"
    "\<And>i. i \<in> set (ss_next_operators ss') \<Longrightarrow>
       next_operator_finalized T s (operators s') (ss_current_operators ss') i"
    "\<And>i. i \<notin> set (ss_next_operators ss') \<Longrightarrow> other_finalized T s (operators s') i \<or> operators s' i = operators s i"
    "\<And>i. i \<in> set self \<union> set (invalid_bundle_authors s d) \<union> set (deregistered_operators s d) \<union>
       set (deactivated_operators s d) \<Longrightarrow> i \<notin> set (ss_next_operators ss) \<Longrightarrow> other_finalized T s (operators s') i"
    "ext s' = ext s" "accumulated_treasury_funds s' = accumulated_treasury_funds s"
  using ok
proof (cases rule: do_finalize_domain_epoch_staking_InrE)
  case (1 ss0 slots prob st)
  let ?s = "s\<lparr>operator_bundle_count_in_epoch := Map.empty\<rparr>" and ?fin = "filter (\<lambda>i. \<not> is_operator_pending_to_slash d i s)"
  have status: "is_operator_pending_to_slash d i ?s = is_operator_pending_to_slash d i s"
    "operator_status_of op i ?s = operator_status_of op i s" for i op
    by (simp_all add: is_operator_pending_to_slash_def operator_status_of_def)
  from 1(1) ss have "ss0 = ss" by simp
  note 1 = 1 [unfolded this]
  have "distinct (ss_next_operators ss)" using sorted strict_sorted_iff by blast
  from epoch_loop [OF 1(2) this] have inv: "epoch_loop_inv T d ?s (set (ss_next_operators ss)) st" .
  then obtain ev pr where st: "el_state st = ?s\<lparr>events := ev, operator_epoch_share_price := pr, operators := operators (el_state st)\<rparr>"
    by (auto simp: epoch_loop_inv_def Let_def)
  from inv have m: "om_invar (el_current_operators st)" "el_next_operators st = map fst (el_current_operators st)"
    "el_total_domain_stake st = om_total (\<lambda>b. b) (el_current_operators st)"
    and set_m: "set (el_next_operators st) = set (?fin (ss_next_operators ss))"
    and loop: "if i \<in> set (?fin (ss_next_operators ss))
       then next_operator_finalized T ?s (operators (el_state st)) (el_current_operators st) i
       else operators (el_state st) i = operators ?s i" for i
    by (auto simp: epoch_loop_inv_def Let_def status)
  have next_eq: "el_next_operators st = ?fin (ss_next_operators ss)"
    using m(1,2) set_m sorted by (intro strict_sorted_equal) (auto simp: om_invar_def sorted_wrt_filter)
  note fin = finish_epoch_Inr [OF 1(3) self]
  have fields: "invalid_bundle_authors (el_state st) = invalid_bundle_authors s"
    "deregistered_operators (el_state st) = deregistered_operators s"
    "deactivated_operators (el_state st) = deactivated_operators s" "ext (el_state st) = ext s"
    "accumulated_treasury_funds (el_state st) = accumulated_treasury_funds s"
    "latest_submitted_er (el_state st) = latest_submitted_er s" "head_receipt_number (el_state st) = head_receipt_number s"
    by (subst st, simp)+
  have other: "other_finalized T (el_state st) (operators s') i = other_finalized T s (operators s') i"
    if "i \<notin> set (ss_next_operators ss)" for i
    using loop [of i] that by (intro other_finalized_frame) (simp_all add: fields)
  let ?ss' = "ss\<lparr>ss_current_epoch_index := Suc (ss_current_epoch_index ss),
    ss_current_total_stake := el_total_domain_stake st, ss_current_operators := el_current_operators st,
    ss_next_operators := el_next_operators st\<rparr>"
  show ?thesis
  proof (rule that [of ?ss'])
    fix i
    show "next_operator_finalized T s (operators s') (ss_current_operators ?ss') i"
      if "i \<in> set (ss_next_operators ?ss')"
      using that loop [of i] fin(7) [of i] by (simp add: next_eq next_operator_finalized_def status)
    show "other_finalized T s (operators s') i"
      if "i \<in> set self \<union> set (invalid_bundle_authors s d) \<union> set (deregistered_operators s d) \<union>
        set (deactivated_operators s d)" "i \<notin> set (ss_next_operators ss)"
      using that fin(7) [of i] other [OF that(2)] by (simp add: fields split: if_splits)
    show "other_finalized T s (operators s') i \<or> operators s' i = operators s i"
      if "i \<notin> set (ss_next_operators ?ss')"
      using that fin(7) [of i] other [of i] loop [of i] by (simp add: next_eq split: if_splits)
  qed (simp_all add: fin fields next_eq m(3) om_keys_def m(2) [symmetric])
qed

section \<open>Lemmas: rewards\<close>

lemma deposit_reserve_issued:
  assumes laws: "issuance_laws T iss"
    and "map_err f (deposit_reserve_for_storage_fund T i source amount s) = Inr (nd, s')"
  shows "issued iss s' = issued iss s" and "operators s' = operators s"
  using assms(2)
  by (auto simp: deposit_reserve_for_storage_fund_def Let_def result_simps issued_def deposit_event_def
      dest!: issuance_lawsD(5) [OF laws])

lemma hold_deposit_issued:
  assumes laws: "issuance_laws T iss" and "hold_deposit T who i amount s = Inr s'"
  shows "issued iss s' = issued iss s" and "operators s' = operators s"
  using assms(2)
  by (auto simp: hold_deposit_def result_simps arith_simps issued_def dest!: issuance_lawsD(3) [OF laws])

lemma stake_reward_tax_issued:
  assumes laws: "issuance_laws T iss" and ok: "stake_reward_tax T d e i tax op s = Inr (op', s')"
  shows "issued iss s' = issued iss s + tax" and "operators s' = operators s"
    and "op_current_total_stake op' = op_current_total_stake op"
    and "op_current_total_shares op' = op_current_total_shares op"
    and "domain_staking_summary s' = domain_staking_summary s"
proof -
  from ok obtain who x nd s1 s2 s3 where
    mint: "mint_into T who tax (ext s) = Some x" and
    reserve: "map_err BundleStorageFund (deposit_reserve_for_storage_fund T i who tax (s\<lparr>ext := x\<rparr>)) = Inr (nd, s1)" and
    hold: "hold_deposit T who i (nd_staking nd) s1 = Inr s2" and
    add: "do_calculate_previous_epoch_deposit_shares_and_add_new_deposit T i who (DomainEpoch d e) nd None s2 = Inr s3" and
    s': "s' = deposit_event (OperatorTaxCollected i tax) s3" and
    op_eq: "op' = op\<lparr>op_deposits_in_epoch := op_deposits_in_epoch op + nd_staking nd,
      op_total_storage_fee_deposit := op_total_storage_fee_deposit op + nd_storage_fee_deposit nd\<rparr>"
    unfolding stake_reward_tax_def
    by (simp only: and_then_Inr_iff ok_or_Inr_iff with_ext_Inr_iff arith_simps prod.case split_paired_Ex
        sum.inject prod.inject) blast
  show "op_current_total_stake op' = op_current_total_stake op" "op_current_total_shares op' = op_current_total_shares op"
    by (simp_all add: op_eq)
  have "issued iss (s\<lparr>ext := x\<rparr>) = issued iss s + tax"
    using issuance_lawsD(1) [OF laws mint] by (simp add: issued_def)
  moreover from add have "issued iss s3 = issued iss s2" "operators s3 = operators s2"
    "domain_staking_summary s3 = domain_staking_summary s2"
    by (cases rule: add_new_deposit_InrE; simp add: put_deposit_def issued_def)+
  moreover from reserve have "domain_staking_summary s1 = domain_staking_summary s"
    by (cases rule: deposit_reserve_InrE) simp
  moreover from hold have "domain_staking_summary s2 = domain_staking_summary s1"
    by (cases rule: hold_deposit_InrE) simp
  ultimately show "issued iss s' = issued iss s + tax" "operators s' = operators s"
    "domain_staking_summary s' = domain_staking_summary s"
    using deposit_reserve_issued [OF laws reserve] hold_deposit_issued [OF laws hold]
    by (simp_all add: s' deposit_event_def issued_def)
qed

text \<open>The stake of an operator's pool.\<close>

definition pool_stake :: "'x domains \<Rightarrow> operator_id \<Rightarrow> balance" where
  "pool_stake s i = (case operators s i of None \<Rightarrow> 0 | Some op \<Rightarrow> op_current_total_stake op)"

definition epoch_reward :: "balance option \<Rightarrow> operator_id \<times> balance \<Rightarrow> balance" where
  "epoch_reward extra entry = snd entry + case_option 0 (\<lambda>r. r) extra"

lemma take_reward_InrE:
  assumes laws: "issuance_laws T iss" and ok: "take_reward T d e extra (i, r) st = Inr st'"
    and small: "epoch_reward extra (i, r) < 2 ^ 128" "rl_to_treasury st + epoch_reward extra (i, r) < 2 ^ 128"
  obtains (lost) "rl_state st' = rl_state st" "rl_to_treasury st' = rl_to_treasury st + epoch_reward extra (i, r)"
      "rl_operators_with_self_deposits st' = rl_operators_with_self_deposits st"
  | (rewarded) op op' tax where "operators (rl_state st) i = Some op" "tax \<le> epoch_reward extra (i, r)"
      "operators (rl_state st') = (operators (rl_state st))(i \<mapsto> op')" "rl_to_treasury st' = rl_to_treasury st"
      "op_current_total_stake op' = op_current_total_stake op + (epoch_reward extra (i, r) - tax)"
      "op_current_total_shares op' = op_current_total_shares op"
      "issued iss (rl_state st') = issued iss (rl_state st) + tax"
      "domain_staking_summary (rl_state st') = domain_staking_summary (rl_state st)"
      "rl_operators_with_self_deposits st' = rl_operators_with_self_deposits st \<or>
       rl_operators_with_self_deposits st' = os_insert i (rl_operators_with_self_deposits st)"
proof -
  let ?R = "epoch_reward extra (i, r)" and ?s = "rl_state st"
  have R: "saturating_add 128 (snd (i, r)) (case_option 0 (\<lambda>r. r) extra) = ?R"
    using small(1) by (simp add: saturating_add_exact epoch_reward_def)
  show ?thesis
  proof (cases "\<exists>op. operators ?s i = Some op \<and> operator_status_of op i ?s \<notin> {Slashed, PendingSlash}")
    case False
    with ok have "st' = st\<lparr>rl_to_treasury := wrapping_add 128 (rl_to_treasury st) ?R\<rparr>"
      unfolding take_reward_def Let_def R by (auto split: option.splits if_splits)
    with small(2) show ?thesis by (intro lost) (simp_all add: wrapping_add_exact)
  next
    case True
    then obtain op where op: "operators ?s i = Some op" "operator_status_of op i ?s \<notin> {Slashed, PendingSlash}" by blast
    let ?tax = "percent_mul_floor T (op_nomination_tax op) ?R"
    define t where "t = (case extra of Some r \<Rightarrow> deposit_event (OperatorRewarded XDMProtocolFees i r) ?s | None \<Rightarrow> ?s)"
    have t: "issued iss t = issued iss ?s" "operators t = operators ?s" "domain_staking_summary t = domain_staking_summary ?s"
      by (simp_all add: t_def deposit_event_def issued_def split: option.split)
    from ok op obtain op1 s1 where tax: "(if ?tax \<noteq> 0 then stake_reward_tax T d e i ?tax op t else Inr (op, t)) = Inr (op1, s1)"
      and le: "?tax \<le> ?R" and st': "st' = st\<lparr>rl_rewarded_operator_count := wrapping_add 32 (rl_rewarded_operator_count st) 1,
         rl_operators_with_self_deposits := (if ?tax \<noteq> 0 then os_insert i (rl_operators_with_self_deposits st)
            else rl_operators_with_self_deposits st),
         rl_state := put_operator i (op1\<lparr>op_current_total_stake := op_current_total_stake op1 + (?R - ?tax)\<rparr>) s1\<rparr>"
      unfolding take_reward_def Let_def R t_def
      by (simp only: fst_conv option.case if_False and_then_Inr_iff ok_or_Inr_iff arith_simps prod.case split_paired_Ex
          sum.inject) blast
    have s1: "issued iss s1 = issued iss ?s + ?tax" "operators s1 = operators ?s"
      "op_current_total_stake op1 = op_current_total_stake op" "op_current_total_shares op1 = op_current_total_shares op"
      "domain_staking_summary s1 = domain_staking_summary ?s"
      using tax stake_reward_tax_issued [OF laws, of d e i ?tax op t op1 s1] t by (auto split: if_splits)
    show ?thesis
      by (rule rewarded [OF op(1) le, of "op1\<lparr>op_current_total_stake := op_current_total_stake op1 + (?R - ?tax)\<rparr>"])
        (simp_all add: st' s1 put_operator_def)
  qed
qed

text \<open>Every iteration moves a reward to the treasury, into the currency or into a pool.\<close>

lemma take_reward_conserves:
  assumes "issuance_laws T iss" and "take_reward T d e extra (i, r) st = Inr st'"
    and "epoch_reward extra (i, r) < 2 ^ 128" "rl_to_treasury st + epoch_reward extra (i, r) < 2 ^ 128"
  shows "issued iss (rl_state st') + rl_to_treasury st' + pool_stake (rl_state st') i
      = issued iss (rl_state st) + rl_to_treasury st + pool_stake (rl_state st) i + epoch_reward extra (i, r)"
    and "rl_to_treasury st' \<le> rl_to_treasury st + epoch_reward extra (i, r)"
    and "j \<noteq> i \<Longrightarrow> operators (rl_state st') j = operators (rl_state st) j"
    and "domain_staking_summary (rl_state st') = domain_staking_summary (rl_state st)"
    and "sorted_wrt (<) (rl_operators_with_self_deposits st) \<Longrightarrow> sorted_wrt (<) (rl_operators_with_self_deposits st')"
  using assms by (cases rule: take_reward_InrE; auto simp: pool_stake_def sorted_os_insert)+

lemma reward_loop_conserves:
  assumes laws: "issuance_laws T iss" and "try_fold (take_reward T d e extra) es st = Inr st'"
    and "distinct (map fst es)"
    and "rl_to_treasury st + sum_list (map (epoch_reward extra) es) < 2 ^ 128"
  shows "issued iss (rl_state st') + rl_to_treasury st' + sum_list (map (\<lambda>x. pool_stake (rl_state st') (fst x)) es)
      = issued iss (rl_state st) + rl_to_treasury st + sum_list (map (\<lambda>x. pool_stake (rl_state st) (fst x)) es)
        + sum_list (map (epoch_reward extra) es) \<and>
    (\<forall>j. j \<notin> fst ` set es \<longrightarrow> operators (rl_state st') j = operators (rl_state st) j) \<and>
    domain_staking_summary (rl_state st') = domain_staking_summary (rl_state st) \<and>
    (sorted_wrt (<) (rl_operators_with_self_deposits st) \<longrightarrow> sorted_wrt (<) (rl_operators_with_self_deposits st'))"
  using assms(2-)
proof (induction es arbitrary: st)
  case (Cons x es)
  obtain i r where x: "x = (i, r)" by fastforce
  from Cons.prems(1) obtain t where t: "take_reward T d e extra (i, r) st = Inr t"
    "try_fold (take_reward T d e extra) es t = Inr st'"
    by (auto simp: x result_simps)
  from Cons.prems(3) have small: "epoch_reward extra (i, r) < 2 ^ 128"
    "rl_to_treasury st + epoch_reward extra (i, r) < 2 ^ 128"
    by (simp_all add: x)
  note step = take_reward_conserves [OF laws t(1) small]
  have "distinct (map fst es)" "rl_to_treasury t + sum_list (map (epoch_reward extra) es) < 2 ^ 128"
    using step(2) Cons.prems(2,3) by (simp_all add: x)
  note IH = Cons.IH [OF t(2) this]
  have i: "i \<notin> fst ` set es" using Cons.prems(2) by (simp add: x)
  have "sum_list (map (\<lambda>x. pool_stake (rl_state t) (fst x)) es) = sum_list (map (\<lambda>x. pool_stake (rl_state st) (fst x)) es)"
    using i step(3) by (intro arg_cong [of _ _ sum_list] map_cong) (auto simp: pool_stake_def image_iff)
  moreover have "pool_stake (rl_state st') i = pool_stake (rl_state t) i" using IH i by (simp add: pool_stake_def)
  ultimately show ?case using IH step(1,3-5) by (simp add: x)
qed simp

lemma split_domain_rewards_exact:
  assumes laws: "perthing_laws T" "from_rational_rounds_down T" and "rewards < 2 ^ 128"
    and split: "split_domain_rewards T (length es) rewards = (extra, rest)"
  shows "rest + sum_list (map (epoch_reward extra) es) = rewards + sum_list (map snd es)"
proof -
  have sum: "sum_list (map (epoch_reward extra) es) = sum_list (map snd es) + length es * case_option 0 (\<lambda>r. r) extra"
    by (induction es) (simp_all add: epoch_reward_def)
  show ?thesis
  proof (cases "0 < length es \<and> rewards \<noteq> 0")
    case True
    let ?r = "mul_floor T (from_rational T 1 (length es)) rewards"
    have "sum_list (map (\<lambda>w. mul_floor T (from_rational T w (length es)) rewards) (replicate (length es) 1)) \<le> rewards"
      using True by (intro sum_mul_floor_rational_le [OF laws]) (simp_all add: sum_list_replicate)
    then have le: "length es * ?r \<le> rewards" by (simp add: sum_list_replicate)
    with assms(3) have "saturating_mul 128 ?r (length es) = length es * ?r"
      by (simp add: saturating_mul_def max_of_def mult.commute)
    with True split have "extra = Some ?r" "rest = rewards - length es * ?r"
      by (auto simp: split_domain_rewards_def Let_def saturating_sub_eq)
    with le sum show ?thesis by simp
  next
    case False
    with split sum show ?thesis by (auto simp: split_domain_rewards_def split: if_splits)
  qed
qed


lemma operator_take_reward_InrE:
  assumes ok: "operator_take_reward_tax_and_stake T d s = Inr ((n, self), s')"
  obtains ss extra rest st t where "domain_staking_summary s d = Some ss"
    "split_domain_rewards T (length (ss_current_epoch_rewards ss)) (domain_chain_rewards s d) = (extra, rest)"
    "try_fold (take_reward T d (ss_current_epoch_index ss) extra) (ss_current_epoch_rewards ss)
       \<lparr>rl_to_treasury = rest, rl_rewarded_operator_count = 0, rl_operators_with_self_deposits = [],
        rl_state = s\<lparr>domain_chain_rewards := (domain_chain_rewards s)(d := 0)\<rparr>\<rparr> = Inr st"
    "self = rl_operators_with_self_deposits st" "mint_into_treasury T (rl_to_treasury st) (rl_state st) = Inr t"
    "s' = put_summary d (ss\<lparr>ss_current_epoch_rewards := []\<rparr>) t"
proof -
  from ok obtain ss where ss: "domain_staking_summary s d = Some ss"
    by (auto simp: operator_take_reward_tax_and_stake_def map_err_Inr_iff and_then_Inr_iff ok_or_Inr_iff)
  obtain extra rest where split: "split_domain_rewards T (length (ss_current_epoch_rewards ss)) (domain_chain_rewards s d)
      = (extra, rest)" by fastforce
  from ok ss split obtain st t where "try_fold (take_reward T d (ss_current_epoch_index ss) extra) (ss_current_epoch_rewards ss)
       \<lparr>rl_to_treasury = rest, rl_rewarded_operator_count = 0, rl_operators_with_self_deposits = [],
        rl_state = s\<lparr>domain_chain_rewards := (domain_chain_rewards s)(d := 0)\<rparr>\<rparr> = Inr st"
    "self = rl_operators_with_self_deposits st" "mint_into_treasury T (rl_to_treasury st) (rl_state st) = Inr t"
    "s' = put_summary d (ss\<lparr>ss_current_epoch_rewards := []\<rparr>) t"
    by (auto simp: operator_take_reward_tax_and_stake_def Let_def map_err_Inr_iff and_then_Inr_iff)
  from that [OF ss split this] show ?thesis .
qed

section \<open>Lemmas: progress\<close>








section \<open>Properties\<close>


text \<open>A registered operator at the end of an epoch in which it got deposits and a withdrawal.\<close>

definition epoch_example :: "ledger domains" where
  "epoch_example = registered_state\<lparr>operators := [0 \<mapsto> registered_operator
     \<lparr>op_current_total_stake := 1000, op_deposits_in_epoch := 400, op_withdrawals_in_epoch := 300\<rparr>]\<rparr>"

lemmas [eval_defs] =
  split_domain_rewards_def stake_reward_tax_def take_reward_def operator_take_reward_tax_and_stake_def
  finalize_pool_def do_finalize_operator_epoch_staking_def check_operator_performance_def finalize_next_operator_def
  finalize_other_operator_def finish_epoch_def do_finalize_domain_epoch_staking_def
  do_finalize_domain_current_epoch_def epoch_example_def

lemma epoch_example_ok:
  obtains e n s' where "do_finalize_domain_epoch_staking reference_runtime 0 [] epoch_example = Inr ((e, n), s')"
proof -
  have "\<not> isl (do_finalize_domain_epoch_staking reference_runtime 0 [] epoch_example)" by (simp add: eval_defs)
  then show thesis using is_ok_ex that by (metis surj_pair)
qed

lemma epoch_example_summary:
  "domain_staking_summary epoch_example 0 = Some (reference_summary\<lparr>ss_next_operators := [0]\<rparr>)"
  by (simp add: epoch_example_def registered_state_def)


text \<open>
  C36: An epoch transition keeps every pool solvent: a pool with at least one unit of stake per share still
  has so after the withdrawals of the epoch have been taken out and its deposits added, whatever the domain
  and whatever the status of the operator.
\<close>

theorem epoch_transition_keeps_pools_solvent:
  assumes laws: "perthing_laws T" "from_rational_rounds_down T"
    and ok: "do_finalize_domain_epoch_staking T d self s = Inr ((e, n), s')" and self: "sorted_wrt (<) self"
    and ss: "domain_staking_summary s d = Some ss" and sorted: "sorted_wrt (<) (ss_next_operators ss)"
    and solvent: "\<And>i op. operators s i = Some op \<Longrightarrow> op_current_total_shares op \<le> op_current_total_stake op"
    and op': "operators s' i = Some op'"
  shows "op_current_total_shares op' \<le> op_current_total_stake op'"
  using ok self ss sorted
proof (cases rule: finalize_domain_epoch_Inr)
  case (1 ss')
  have "operators s i = Some op' \<or> (\<exists>op. operators s i = Some op \<and> pool_finalized T op op')"
  proof (cases "i \<in> set (ss_next_operators ss')")
    case True
    from 1(7) [OF this] op' show ?thesis by (auto simp: next_operator_finalized_def)
  next
    case False
    from 1(8) [OF this] op' show ?thesis by (auto simp: other_finalized_def split: option.splits if_splits)
  qed
  with solvent pool_finalized_solvent [OF laws] show ?thesis by blast
qed

theorem epoch_transition_keeps_pools_solvent_witness:
  "\<exists>e n s' op'. do_finalize_domain_epoch_staking reference_runtime 0 [] epoch_example = Inr ((e, n), s') \<and>
     operators s' 0 = Some op' \<and> op_current_total_shares op' \<le> op_current_total_stake op'"
proof -
  obtain e n s' where ok: "do_finalize_domain_epoch_staking reference_runtime 0 [] epoch_example = Inr ((e, n), s')"
    by (rule epoch_example_ok)
  have "op_current_total_shares op \<le> op_current_total_stake op" if "operators epoch_example i = Some op" for i op
    using that by (auto simp: epoch_example_def registered_operator_def split: if_splits)
  moreover have "operators s' 0 \<noteq> None" using ok by (auto simp: eval_defs)
  ultimately show ?thesis
    using epoch_transition_keeps_pools_solvent [OF reference_laws(1,2) ok _ epoch_example_summary] ok by auto
qed




text \<open>
  C11: Paying out the rewards of an epoch loses and creates nothing: what is issued, what is kept for the
  treasury and the stakes of the rewarded pools grow together by exactly the rewards of the epoch and the
  rewards of the domain's chain, and the operators whose own deposits must be finalized are returned in
  ascending order.
\<close>

theorem epoch_rewards_conserved:
  assumes laws: "perthing_laws T" "from_rational_rounds_down T" "issuance_laws T iss"
    and ok: "operator_take_reward_tax_and_stake T d s = Inr ((n, self), s')"
    and ss: "domain_staking_summary s d = Some ss" "om_invar (ss_current_epoch_rewards ss)"
    and small: "domain_chain_rewards s d + om_total (\<lambda>r. r) (ss_current_epoch_rewards ss) < 2 ^ 128"
  shows "issued iss s' + sum_list (map (pool_stake s') (om_keys (ss_current_epoch_rewards ss)))
      = issued iss s + sum_list (map (pool_stake s) (om_keys (ss_current_epoch_rewards ss)))
        + domain_chain_rewards s d + om_total (\<lambda>r. r) (ss_current_epoch_rewards ss)
    \<and> sorted_wrt (<) self"
  using ok
proof (cases rule: operator_take_reward_InrE)
  case (1 ss0 extra rest st t)
  with ss(1) have ss0: "ss0 = ss" by simp
  let ?es = "ss_current_epoch_rewards ss" and ?s = "s\<lparr>domain_chain_rewards := (domain_chain_rewards s)(d := 0)\<rparr>"
  have total: "om_total (\<lambda>r. r) ?es = sum_list (map snd ?es)" by (simp add: om_total_def comp_def)
  with small have "domain_chain_rewards s d < 2 ^ 128" by simp
  note split = split_domain_rewards_exact [OF laws(1,2) this 1(2) [unfolded ss0]]
  have dist: "distinct (map fst ?es)" using ss(2) strict_sorted_iff by (auto simp: om_invar_def)
  have fits: "rest + sum_list (map (epoch_reward extra) ?es) < 2 ^ 128" using split small total by simp
  note loop = reward_loop_conserves [OF laws(3) 1(3) [unfolded ss0] dist, simplified, OF fits [simplified]]
  note mint = mint_into_treasury_issued [OF laws(3) 1(5)]
  have stakes: "pool_stake s' = pool_stake (rl_state st)" "pool_stake ?s = pool_stake s"
    using mint(2) 1(6) by (auto simp: pool_stake_def put_summary_def fun_eq_iff)
  have "issued iss s' = issued iss (rl_state st) + rl_to_treasury st" "issued iss ?s = issued iss s"
    using mint(1) 1(6) by (simp_all add: issued_def put_summary_def)
  with loop split show ?thesis
    by (simp add: stakes om_keys_def total 1(4) comp_def)
qed

text \<open>An operator with a tax of five percent that has earned a reward.\<close>

definition rewarded_state :: "ledger domains" where
  "rewarded_state = registered_state\<lparr>domain_chain_rewards := (\<lambda>d. 0)(0 := 101),
     domain_staking_summary := [0 \<mapsto> reference_summary\<lparr>ss_next_operators := [0],
       ss_current_epoch_rewards := [(0, 1000)]\<rparr>]\<rparr>"

lemmas [eval_defs] = rewarded_state_def

theorem epoch_rewards_conserved_witness:
  "\<exists>n self s'. operator_take_reward_tax_and_stake reference_runtime 0 rewarded_state = Inr ((n, self), s') \<and>
     issued lg_issuance s' + pool_stake s' 0
       = issued lg_issuance rewarded_state + pool_stake rewarded_state 0 + 101 + 1000"
proof -
  have "\<not> isl (operator_take_reward_tax_and_stake reference_runtime 0 rewarded_state)" by (simp add: eval_defs)
  then obtain n self s' where ok: "operator_take_reward_tax_and_stake reference_runtime 0 rewarded_state = Inr ((n, self), s')"
    using is_ok_ex by (metis surj_pair)
  let ?ss = "reference_summary\<lparr>ss_next_operators := [0], ss_current_epoch_rewards := [(0, 1000)]\<rparr>"
  have "domain_staking_summary rewarded_state 0 = Some ?ss" "om_invar (ss_current_epoch_rewards ?ss)"
    "domain_chain_rewards rewarded_state 0 = 101"
    by (simp_all add: rewarded_state_def om_invar_def)
  with epoch_rewards_conserved [OF reference_laws(1,2,4) ok, of ?ss] ok show ?thesis
    by (auto simp: om_total_def om_keys_def)
qed

end
