(* ===== verification/Slashing.thy ===== *)
theory Slashing
  imports Staking_Epoch
begin

text \<open>
  \<open>do_slash_operator\<close> (crates/pallet-domains/src/staking_epoch.rs): the stake of the nominators of a slashed operator
  goes to the treasury, a bounded number of nominators per call, and what was only pending goes back to them.
\<close>

section \<open>Definitions\<close>

text \<open>A share price may be missing where the deposit or the withdrawal is of the epoch of the slash.\<close>

definition tolerate_missing_price :: "(staking_error + unit) \<times> 'a \<Rightarrow> staking_error + 'a" where
  "tolerate_missing_price r =
     (case fst r of
        Inr _ \<Rightarrow> Inr (snd r)
      | Inl e \<Rightarrow> if e = MissingOperatorEpochSharePrice then Inr (snd r) else Inl e)"

definition settle_slashed_withdrawal ::
    "'x config \<Rightarrow> 'x domains \<Rightarrow> operator_id \<Rightarrow> epoch_index \<Rightarrow> withdrawal option \<Rightarrow>
       staking_error + balance \<times> balance \<times> share" where
  "settle_slashed_withdrawal T s i epoch maybe_withdrawal =
     (case maybe_withdrawal of
        None \<Rightarrow> Inr (0, 0, 0)
      | Some wd \<Rightarrow>
          and_then (tolerate_missing_price (do_convert_previous_epoch_withdrawal T s i wd epoch)) (\<lambda>wd.
          Inr (w_total_withdrawal_amount wd, w_total_storage_fee_withdrawal wd,
               case_option 0 ws_shares (w_withdrawal_in_shares wd))))"

record 'x slash_loop =
  sl_total_shares :: share
  sl_total_stake :: balance
  sl_total_storage_fee_deposit :: balance
  sl_slashed_nominator_count :: u32
  sl_state :: "'x domains"

text \<open>
  The money of one nominator: what it holds goes to the treasury except for the deposit that is not staked
  yet, what it has gained is minted to the treasury, the storage fee of a deposit that is not staked yet goes
  back to it and the storage fee on withdrawal goes to the treasury.
\<close>

definition pay_slashed ::
    "'x config \<Rightarrow> operator_id \<Rightarrow> account_id \<Rightarrow> balance \<Rightarrow> pending_deposit option \<Rightarrow> balance \<Rightarrow> balance \<Rightarrow> balance \<Rightarrow>
       balance \<Rightarrow> 'x domains \<Rightarrow> staking_error + balance \<times> 'x domains" where
  "pay_slashed T i nominator_id locked_amount pending_deposit nominator_staked_amount amount_ready_to_withdraw
     withdraw_storage_fee_on_hold total_storage_fee_deposit s =
     (let pending_amount = case_option 0 pd_amount pending_deposit in
      and_then (ok_or BalanceUnderflow (checked_sub locked_amount pending_amount))
        (\<lambda>amount_to_slash_in_holding.
      and_then (with_ext RemoveLock
                  (transfer_on_hold T StakingStaked nominator_id (TreasuryAccount T) amount_to_slash_in_holding
                     Exact Free Force) s) (\<lambda>s.
      and_then (with_ext RemoveLock (release T StakingStaked nominator_id pending_amount BestEffort) s) (\<lambda>s.
      and_then (ok_or BalanceOverflow (checked_add 128 nominator_staked_amount amount_ready_to_withdraw))
        (\<lambda>gross.
      and_then (mint_into_treasury T (saturating_sub gross amount_to_slash_in_holding) s) (\<lambda>s.
      and_then
        (case pending_deposit of
           None \<Rightarrow> Inr (total_storage_fee_deposit, s)
         | Some pending \<Rightarrow>
             let redeem_price = storage_fund_redeem_price T i total_storage_fee_deposit s in
             and_then (map_err BundleStorageFund
                         (withdraw_to T i nominator_id (redeem T redeem_price (pd_storage_fee_deposit pending)) s))
               (\<lambda>(s, _).
             Inr (saturating_sub total_storage_fee_deposit (pd_storage_fee_deposit pending), s)))
        (\<lambda>(total_storage_fee_deposit, s).
      and_then (with_ext RemoveLock
                  (transfer_on_hold T StorageFundWithdrawal nominator_id (TreasuryAccount T)
                     withdraw_storage_fee_on_hold Exact Free Force) s) (\<lambda>s.
      Inr (total_storage_fee_deposit, s)))))))))"

text \<open>One iteration of the loop: the nominator's entries are taken out of the storage and settled.\<close>

definition slash_nominator ::
    "'x config \<Rightarrow> operator_id \<Rightarrow> epoch_index \<Rightarrow> share_price \<Rightarrow> account_id \<times> deposit \<Rightarrow> 'x slash_loop \<Rightarrow>
       staking_error + 'x slash_loop" where
  "slash_nominator T i epoch price entry st =
     (let nominator_id = fst entry;
          s = remove_deposit i nominator_id (sl_state st);
          locked_amount = deposit_on_hold s (i, nominator_id);
          s = s\<lparr>deposit_on_hold := (deposit_on_hold s)((i, nominator_id) := 0)\<rparr> in
      and_then (tolerate_missing_price (do_convert_previous_epoch_deposits T s i (snd entry) epoch)) (\<lambda>dep.
      let maybe_withdrawal = get_withdrawal s i nominator_id;
          s = remove_withdrawal i nominator_id s in
      and_then (settle_slashed_withdrawal T s i epoch maybe_withdrawal)
        (\<lambda>(amount_ready_to_withdraw, withdraw_storage_fee_on_hold, shares_withdrew_in_current_epoch).
      and_then (ok_or ShareOverflow
                  (checked_add 128 (kd_shares (dep_known dep)) shares_withdrew_in_current_epoch))
        (\<lambda>nominator_shares.
      and_then (ok_or ShareOverflow (checked_sub (sl_total_shares st) nominator_shares)) (\<lambda>total_shares.
      let nominator_staked_amount = shares_to_stake T price nominator_shares in
      and_then (ok_or BalanceOverflow (checked_sub (sl_total_stake st) nominator_staked_amount)) (\<lambda>total_stake.
      and_then (pay_slashed T i nominator_id locked_amount (dep_pending dep) nominator_staked_amount
                  amount_ready_to_withdraw withdraw_storage_fee_on_hold (sl_total_storage_fee_deposit st) s)
        (\<lambda>(total_storage_fee_deposit, s).
      Inr \<lparr>sl_total_shares = total_shares, sl_total_stake = total_stake,
           sl_total_storage_fee_deposit = total_storage_fee_deposit,
           sl_slashed_nominator_count = wrapping_add 32 (sl_slashed_nominator_count st) 1,
           sl_state = s\<rparr>)))))))"

text \<open>The loop over the deposits, which ends early once enough nominators have been slashed.\<close>

fun slash_nominators ::
    "'x config \<Rightarrow> operator_id \<Rightarrow> epoch_index \<Rightarrow> share_price \<Rightarrow> u32 \<Rightarrow> (account_id \<times> deposit) list \<Rightarrow>
       'x slash_loop \<Rightarrow> staking_error + 'x slash_loop" where
  "slash_nominators T i epoch price max_nominator_count [] st = Inr st"
| "slash_nominators T i epoch price max_nominator_count (entry # entries) st =
     and_then (slash_nominator T i epoch price entry st) (\<lambda>st.
     if sl_slashed_nominator_count st \<ge> max_nominator_count then Inr st
     else slash_nominators T i epoch price max_nominator_count entries st)"

definition do_slash_operator ::
    "'x config \<Rightarrow> domain_id \<Rightarrow> u32 \<Rightarrow> 'x domains \<Rightarrow> staking_error + u32 \<times> 'x domains" where
  "do_slash_operator T d max_nominator_count s =
     (case pending_slashes s d of
        None \<Rightarrow> Inr (0, s)
      | Some [] \<Rightarrow> Inr (0, s\<lparr>pending_slashes := (pending_slashes s)(d := None)\<rparr>)
      | Some (i # slashed_operators) \<Rightarrow>
          and_then (ok_or DomainNotInitialized (domain_staking_summary s d)) (\<lambda>stake_summary.
          and_then (ok_or UnknownOperator (operators s i)) (\<lambda>op.
          and_then (SharePrice_new T (op_current_total_shares op) (op_current_total_stake op)) (\<lambda>price.
          and_then
            (slash_nominators T i (ss_current_epoch_index stake_summary) price max_nominator_count (deposits s i)
               \<lparr>sl_total_shares = op_current_total_shares op, sl_total_stake = op_current_total_stake op,
                sl_total_storage_fee_deposit = op_total_storage_fee_deposit op,
                sl_slashed_nominator_count = 0, sl_state = s\<rparr>) (\<lambda>st.
          let s = sl_state st in
          if deposits s i = [] \<and> withdrawals s i = [] then
            and_then (do_cleanup_operator T i (sl_total_stake st) s) (\<lambda>s.
            Inr (sl_slashed_nominator_count st,
                 s\<lparr>pending_slashes := (pending_slashes s)
                     (d := if slashed_operators = [] then None else Some slashed_operators),
                   operators := (operators s)(i := None)\<rparr>))
          else
            Inr (sl_slashed_nominator_count st,
                 put_operator i
                   (op\<lparr>op_current_total_shares := sl_total_shares st,
                       op_current_total_stake := sl_total_stake st,
                       op_total_storage_fee_deposit := sl_total_storage_fee_deposit st\<rparr>) s))))))"

section \<open>Lemmas\<close>

text \<open>What the slash of one nominator changes.\<close>

lemma pay_slashed_InrE:
  assumes "pay_slashed T i who locked pd staked ready fee tf s = Inr (tf', s')"
  obtains x a where "s' = s\<lparr>ext := x, accumulated_treasury_funds := a\<rparr>"
proof -
  let ?refund = "\<lambda>t. case pd of
       None \<Rightarrow> Inr (tf, t)
     | Some pending \<Rightarrow>
         and_then (map_err BundleStorageFund
             (withdraw_to T i who (redeem T (storage_fund_redeem_price T i tf t) (pd_storage_fee_deposit pending)) t))
           (\<lambda>(s, _). Inr (saturating_sub tf (pd_storage_fee_deposit pending), s))"
  from assms obtain x0 x1 m t t' x2 where mint: "mint_into_treasury T m (s\<lparr>ext := x0, ext := x1\<rparr>) = Inr t"
    and refund: "?refund t = Inr (tf', t')" and s': "s' = t'\<lparr>ext := x2\<rparr>"
    unfolding pay_slashed_def Let_def
    by (simp only: and_then_Inr_iff ok_or_Inr_iff with_ext_Inr_iff arith_simps prod.case split_paired_Ex sum.inject
        prod.inject) blast
  from mint obtain x3 a where t: "t = s\<lparr>ext := x3, accumulated_treasury_funds := a\<rparr>"
    by (cases rule: mint_into_treasury_InrE) auto
  from refund have "\<exists>x. t' = t\<lparr>ext := x\<rparr>"
    by (cases pd) (auto simp: and_then_Inr_iff elim!: withdraw_to_InrE intro: exI [of _ "ext t"])
  with t s' show ?thesis by (intro that [of a x2]) auto
qed

lemma slash_nominator_InrE:
  assumes "slash_nominator T i e price (who, dep0) st = Inr st'"
  obtains n x a where "n \<le> sl_total_shares st" "shares_to_stake T price n \<le> sl_total_stake st"
    "sl_total_shares st' = sl_total_shares st - n"
    "sl_total_stake st' = sl_total_stake st - shares_to_stake T price n"
    "sl_slashed_nominator_count st' = wrapping_add 32 (sl_slashed_nominator_count st) 1"
    "sl_state st' = (sl_state st)
       \<lparr>deposits := (deposits (sl_state st))(i := om_remove who (deposits (sl_state st) i)),
        deposit_on_hold := (deposit_on_hold (sl_state st))((i, who) := 0),
        withdrawals := (withdrawals (sl_state st))(i := om_remove who (withdrawals (sl_state st) i)),
        ext := x, accumulated_treasury_funds := a\<rparr>"
proof -
  let ?s = "(remove_deposit i who (sl_state st))\<lparr>deposit_on_hold :=
     (deposit_on_hold (remove_deposit i who (sl_state st)))((i, who) := 0)\<rparr>"
  from assms obtain n locked pd ready fee tf t where
    n: "n \<le> sl_total_shares st" "shares_to_stake T price n \<le> sl_total_stake st" and
    pay: "pay_slashed T i who locked pd (shares_to_stake T price n) ready fee (sl_total_storage_fee_deposit st)
      (remove_withdrawal i who ?s) = Inr (tf, t)" and
    st': "st' = \<lparr>sl_total_shares = sl_total_shares st - n, sl_total_stake = sl_total_stake st - shares_to_stake T price n,
           sl_total_storage_fee_deposit = tf,
           sl_slashed_nominator_count = wrapping_add 32 (sl_slashed_nominator_count st) 1, sl_state = t\<rparr>"
    unfolding slash_nominator_def Let_def
    by (simp only: fst_conv snd_conv and_then_Inr_iff ok_or_Inr_iff arith_simps prod.case split_paired_Ex sum.inject) blast
  from pay show ?thesis
    by (cases rule: pay_slashed_InrE)
      (rule that [OF n], simp_all add: st' remove_deposit_def remove_withdrawal_def)
qed

text \<open>Slashing some of the nominators leaves the pool solvent, as long as they have no more shares than it.\<close>

lemma shares_to_stake_rest_list:
  assumes laws: "perthing_laws T" "from_rational_rounds_down T"
    and p: "SharePrice_new T sh st = Inr p" and le: "sum_list xs \<le> sh"
  shows "sh - sum_list xs \<le> st - sum_list (map (shares_to_stake T p) xs)"
proof -
  note v = SharePrice_new_valid [OF laws(1) p]
  let ?f = "mul_div ACCURACY (price_above p)"
  have "sum_list (map (shares_to_stake T p) xs) \<le> sum_list (map ?f xs)"
    by (rule sum_list_mono) (rule shares_to_stake_le_floor [OF laws(1) v])
  also have "\<dots> \<le> ?f (sum_list xs)" by (rule mul_div.conv_sum_list)
  finally have "sum_list (map (shares_to_stake T p) xs) + (sh - sum_list xs) \<le> ?f (sum_list xs) + ?f (sh - sum_list xs)"
    using mul_div_ge price_above_bounds(2,3) [OF v] by (intro add_mono) simp_all
  also have "\<dots> \<le> ?f sh"
    using mul_div.superadditive [of ACCURACY "price_above p" "sum_list xs" "sh - sum_list xs"] le by simp
  also have "\<dots> \<le> st" by (rule shares_to_stake_total [OF laws p])
  finally show ?thesis by simp
qed

lemma om_remove_keys: "om_invar m \<Longrightarrow> set (map fst (om_remove k m)) = set (map fst m) - {k}"
  by (induction k m rule: om_remove.induct) (auto simp: om_invar_Cons)

text \<open>What the loop changes: it removes the first entries, as many as it may.\<close>

definition slash_frame :: "operator_id \<Rightarrow> 'x domains \<Rightarrow> 'x domains \<Rightarrow> bool" where
  "slash_frame i s s' \<longleftrightarrow>
     (\<exists>ds h ws x a. s' = s\<lparr>deposits := (deposits s)(i := ds), deposit_on_hold := h, withdrawals := (withdrawals s)(i := ws),
        ext := x, accumulated_treasury_funds := a\<rparr>)"

lemma slash_frame_refl: "slash_frame i s s"
  unfolding slash_frame_def
  by (intro exI [of _ "deposits s i"] exI [of _ "deposit_on_hold s"] exI [of _ "withdrawals s i"] exI [of _ "ext s"]
      exI [of _ "accumulated_treasury_funds s"]) simp

lemma slash_frame_trans: "slash_frame i s t \<Longrightarrow> slash_frame i t u \<Longrightarrow> slash_frame i s u"
  unfolding slash_frame_def by (elim exE) (simp, blast)

lemma slash_nominators_Inr:
  assumes "slash_nominators T i e price mx es st = Inr st'" and "deposits (sl_state st) i = es"
    and "sl_slashed_nominator_count st < mx" and "mx < 2 ^ 32" and "om_invar (withdrawals (sl_state st) i)"
  shows "let k = min (mx - sl_slashed_nominator_count st) (length es) in
    slash_frame i (sl_state st) (sl_state st') \<and>
    deposits (sl_state st') i = drop k es \<and>
    set (map fst (withdrawals (sl_state st') i)) = set (map fst (withdrawals (sl_state st) i)) - set (map fst (take k es)) \<and>
    om_invar (withdrawals (sl_state st') i) \<and>
    sl_slashed_nominator_count st' = sl_slashed_nominator_count st + k \<and>
    (\<exists>xs. sl_total_shares st' + sum_list xs = sl_total_shares st \<and>
       sl_total_stake st' + sum_list (map (shares_to_stake T price) xs) = sl_total_stake st)"
  using assms
proof (induction es arbitrary: st)
  case Nil
  then show ?case by (auto simp: Let_def slash_frame_refl intro: exI [of _ "[]"])
next
  case (Cons entry es)
  obtain who dep where entry: "entry = (who, dep)" by fastforce
  from Cons.prems(1) obtain t where t: "slash_nominator T i e price (who, dep) st = Inr t"
    and rest: "(if mx \<le> sl_slashed_nominator_count t then Inr t else slash_nominators T i e price mx es t) = Inr st'"
    by (auto simp: entry and_then_Inr_iff)
  from t obtain n x a where n: "n \<le> sl_total_shares st" "shares_to_stake T price n \<le> sl_total_stake st"
    "sl_total_shares t = sl_total_shares st - n" "sl_total_stake t = sl_total_stake st - shares_to_stake T price n"
    and count: "sl_slashed_nominator_count t = wrapping_add 32 (sl_slashed_nominator_count st) 1"
    and state: "sl_state t = (sl_state st)
       \<lparr>deposits := (deposits (sl_state st))(i := om_remove who (deposits (sl_state st) i)),
        deposit_on_hold := (deposit_on_hold (sl_state st))((i, who) := 0),
        withdrawals := (withdrawals (sl_state st))(i := om_remove who (withdrawals (sl_state st) i)),
        ext := x, accumulated_treasury_funds := a\<rparr>"
    by (rule slash_nominator_InrE)
  have frame: "slash_frame i (sl_state st) (sl_state t)" unfolding state slash_frame_def by blast
  have c: "sl_slashed_nominator_count t = Suc (sl_slashed_nominator_count st)"
    using count Cons.prems(3,4) by (simp add: wrapping_add_exact)
  have d: "deposits (sl_state t) i = es" "om_invar (withdrawals (sl_state t) i)"
    "set (map fst (withdrawals (sl_state t) i)) = set (map fst (withdrawals (sl_state st) i)) - {who}"
    using Cons.prems(2,5) om_remove_keys [OF Cons.prems(5), of who] by (simp_all add: state entry om_invar_remove)
  show ?case
  proof (cases "mx \<le> sl_slashed_nominator_count t")
    case True
    with c Cons.prems(3) have k: "min (mx - sl_slashed_nominator_count st) (length (entry # es)) = 1" by simp
    from True rest have "st' = t" by simp
    with k frame c d n entry show ?thesis
      by (auto simp: Let_def intro!: exI [of _ "[n]"])
  next
    case False
    with rest have "slash_nominators T i e price mx es t = Inr st'" by simp
    note IH = Cons.IH [OF this d(1) _ Cons.prems(4) d(2), unfolded Let_def]
    let ?k = "min (mx - sl_slashed_nominator_count t) (length es)"
    have k: "min (mx - sl_slashed_nominator_count st) (length (entry # es)) = Suc ?k" using False c by simp
    from IH False obtain xs where "sl_total_shares st' + sum_list xs = sl_total_shares t"
      "sl_total_stake st' + sum_list (map (shares_to_stake T price) xs) = sl_total_stake t" by auto
    with n have "\<exists>xs. sl_total_shares st' + sum_list xs = sl_total_shares st \<and>
       sl_total_stake st' + sum_list (map (shares_to_stake T price) xs) = sl_total_stake st"
      by (intro exI [of _ "n # xs"] conjI; simp only: sum_list.Cons list.map; linarith)
    with IH False frame c d show ?thesis
      unfolding Let_def k by (auto simp: entry intro: slash_frame_trans)
  qed
qed

lemma do_slash_operator_InrE:
  assumes ok: "do_slash_operator T d mx s = Inr (count, s')" and pending: "pending_slashes s d = Some (i # rest)"
    and mx: "0 < mx" "mx < 2 ^ 32" and invar: "om_invar (withdrawals s i)"
  obtains op price xs fee t where "operators s i = Some op"
    "SharePrice_new T (op_current_total_shares op) (op_current_total_stake op) = Inr price"
    "sum_list xs \<le> op_current_total_shares op"
    "count = min mx (length (deposits s i))" "slash_frame i s t" "deposits t i = drop mx (deposits s i)"
    "set (map fst (withdrawals t i)) = set (map fst (withdrawals s i)) - set (map fst (take mx (deposits s i)))"
    "om_invar (withdrawals t i)"
    "if deposits t i = [] \<and> withdrawals t i = []
     then \<exists>x a. s' = t\<lparr>ext := x, accumulated_treasury_funds := a,
            operator_id_owner := (operator_id_owner t)(i := None),
            operator_highest_slot := (operator_highest_slot t)(i := 0),
            operator_epoch_share_price := (operator_epoch_share_price t)(i := Map.empty),
            pending_slashes := (pending_slashes t)(d := if rest = [] then None else Some rest),
            operators := (operators t)(i := None)\<rparr>
     else s' = put_operator i (op\<lparr>op_current_total_shares := op_current_total_shares op - sum_list xs,
            op_current_total_stake := op_current_total_stake op - sum_list (map (shares_to_stake T price) xs),
            op_total_storage_fee_deposit := fee\<rparr>) t"
proof -
  from ok pending obtain ss op price where op: "operators s i = Some op"
    and price: "SharePrice_new T (op_current_total_shares op) (op_current_total_stake op) = Inr price"
    and ss: "domain_staking_summary s d = Some ss"
    by (auto simp: do_slash_operator_def and_then_Inr_iff ok_or_Inr_iff)
  let ?st0 = "\<lparr>sl_total_shares = op_current_total_shares op, sl_total_stake = op_current_total_stake op,
                sl_total_storage_fee_deposit = op_total_storage_fee_deposit op,
                sl_slashed_nominator_count = 0, sl_state = s\<rparr>"
  from ok pending op price ss obtain st where
    loop: "slash_nominators T i (ss_current_epoch_index ss) price mx (deposits s i) ?st0 = Inr st"
    by (auto simp: do_slash_operator_def and_then_Inr_iff)
  with ok pending op price ss have
    fin: "(if deposits (sl_state st) i = [] \<and> withdrawals (sl_state st) i = [] then
            and_then (do_cleanup_operator T i (sl_total_stake st) (sl_state st)) (\<lambda>s.
            Inr (sl_slashed_nominator_count st,
                 s\<lparr>pending_slashes := (pending_slashes s)(d := if rest = [] then None else Some rest),
                   operators := (operators s)(i := None)\<rparr>))
          else
            Inr (sl_slashed_nominator_count st,
                 put_operator i
                   (op\<lparr>op_current_total_shares := sl_total_shares st,
                       op_current_total_stake := sl_total_stake st,
                       op_total_storage_fee_deposit := sl_total_storage_fee_deposit st\<rparr>) (sl_state st))) = Inr (count, s')"
    by (simp add: do_slash_operator_def Let_def)
  have k: "drop (min mx (length ds)) ds = drop mx ds" "take (min mx (length ds)) ds = take mx ds" for ds :: "(account_id \<times> deposit) list"
    by (simp_all add: min_def)
  note L = slash_nominators_Inr [OF loop _ _ mx(2), unfolded Let_def, simplified, OF mx(1) invar, unfolded k]
  then obtain xs where xs: "sl_total_shares st + sum_list xs = op_current_total_shares op"
    "sl_total_stake st + sum_list (map (shares_to_stake T price) xs) = op_current_total_stake op" by blast
  let ?t = "sl_state st"
  show ?thesis
  proof (rule that [OF op price, of xs])
    show "sum_list xs \<le> op_current_total_shares op" using xs(1) by simp
    show "if deposits ?t i = [] \<and> withdrawals ?t i = []
     then \<exists>x a. s' = ?t\<lparr>ext := x, accumulated_treasury_funds := a,
            operator_id_owner := (operator_id_owner ?t)(i := None),
            operator_highest_slot := (operator_highest_slot ?t)(i := 0),
            operator_epoch_share_price := (operator_epoch_share_price ?t)(i := Map.empty),
            pending_slashes := (pending_slashes ?t)(d := if rest = [] then None else Some rest),
            operators := (operators ?t)(i := None)\<rparr>
     else s' = put_operator i (op\<lparr>op_current_total_shares := op_current_total_shares op - sum_list xs,
            op_current_total_stake := op_current_total_stake op - sum_list (map (shares_to_stake T price) xs),
            op_total_storage_fee_deposit := sl_total_storage_fee_deposit st\<rparr>) ?t"
    proof (cases "deposits ?t i = [] \<and> withdrawals ?t i = []")
      case True
      with fin obtain u where "do_cleanup_operator T i (sl_total_stake st) ?t = Inr u"
        and s': "s' = u\<lparr>pending_slashes := (pending_slashes u)(d := if rest = [] then None else Some rest),
                   operators := (operators u)(i := None)\<rparr>"
        by (auto simp: and_then_Inr_iff)
      from this(1) obtain x a where u: "u = ?t\<lparr>ext := x, accumulated_treasury_funds := a,
            operator_id_owner := (operator_id_owner ?t)(i := None),
            operator_highest_slot := (operator_highest_slot ?t)(i := 0),
            operator_epoch_share_price := (operator_epoch_share_price ?t)(i := Map.empty)\<rparr>"
        by (rule do_cleanup_operator_InrE)
      have "s' = ?t\<lparr>ext := x, accumulated_treasury_funds := a,
            operator_id_owner := (operator_id_owner ?t)(i := None),
            operator_highest_slot := (operator_highest_slot ?t)(i := 0),
            operator_epoch_share_price := (operator_epoch_share_price ?t)(i := Map.empty),
            pending_slashes := (pending_slashes ?t)(d := if rest = [] then None else Some rest),
            operators := (operators ?t)(i := None)\<rparr>"
        unfolding s' u by simp
      with True show ?thesis by auto
    next
      case False
      have totals: "sl_total_shares st = op_current_total_shares op - sum_list xs"
        "sl_total_stake st = op_current_total_stake op - sum_list (map (shares_to_stake T price) xs)"
        using xs by linarith+
      from fin show ?thesis unfolding if_not_P [OF False] totals by simp
    qed
  qed (use L fin in \<open>auto simp: and_then_Inr_iff split: if_splits\<close>)
qed

lemma slash_call:
  assumes laws: "perthing_laws T" "from_rational_rounds_down T"
    and ok: "do_slash_operator T d mx s = Inr (count, s')" and pending: "pending_slashes s d = Some (i # rest)"
    and mx: "0 < mx" "mx < 2 ^ 32" and invar: "om_invar (withdrawals s i)"
    and owned: "set (map fst (withdrawals s i)) \<subseteq> set (map fst (deposits s i))"
  shows "count = min mx (length (deposits s i)) \<and> deposits s' i = drop mx (deposits s i) \<and>
    (\<forall>j. j \<noteq> i \<longrightarrow> deposits s' j = deposits s j \<and> withdrawals s' j = withdrawals s j \<and> operators s' j = operators s j) \<and>
    (if length (deposits s i) \<le> mx
     then operators s' i = None \<and> withdrawals s' i = [] \<and>
       pending_slashes s' d = (if rest = [] then None else Some rest)
     else pending_slashes s' d = Some (i # rest) \<and> om_invar (withdrawals s' i) \<and>
       set (map fst (withdrawals s' i)) \<subseteq> set (map fst (deposits s' i)) \<and>
       (\<exists>op'. operators s' i = Some op' \<and> op_current_total_shares op' \<le> op_current_total_stake op'))"
  using ok pending mx invar
proof (cases rule: do_slash_operator_InrE)
  case (1 op price xs fee t)
  from 1(5) have t: "\<forall>j. j \<noteq> i \<longrightarrow> deposits t j = deposits s j \<and> withdrawals t j = withdrawals s j"
    "operators t = operators s" "pending_slashes t = pending_slashes s"
    by (auto simp: slash_frame_def)
  have keys: "set (map fst (deposits s i)) = set (map fst (take mx (deposits s i))) \<union> set (map fst (drop mx (deposits s i)))"
    by (metis append_take_drop_id map_append set_append)
  show ?thesis
  proof (cases "length (deposits s i) \<le> mx")
    case True
    with 1(6,7) owned have "deposits t i = []" "set (map fst (withdrawals t i)) = {}" by (simp_all add: Diff_eq_empty_iff)
    then have "deposits t i = []" "withdrawals t i = []" by simp_all
    with 1 t True show ?thesis by auto
  next
    case False
    then have ne: "drop mx (deposits s i) \<noteq> []" by simp
    from shares_to_stake_rest_list [OF laws 1(2,3)] have solvent: "op_current_total_shares op - sum_list xs
        \<le> op_current_total_stake op - sum_list (map (shares_to_stake T price) xs)" .
    have sub: "set (map fst (withdrawals t i)) \<subseteq> set (map fst (deposits t i))"
      using 1(6,7) owned keys by auto
    from 1 ne have s': "s' = put_operator i (op\<lparr>op_current_total_shares := op_current_total_shares op - sum_list xs,
            op_current_total_stake := op_current_total_stake op - sum_list (map (shares_to_stake T price) xs),
            op_total_storage_fee_deposit := fee\<rparr>) t" by simp
    with 1 t False sub solvent pending show ?thesis by (simp add: put_operator_def)
  qed
qed



lemmas [eval_defs] =
  tolerate_missing_price_def settle_slashed_withdrawal_def pay_slashed_def slash_nominator_def do_slash_operator_def

section \<open>Properties\<close>

text \<open>
  C37: Every call slashes as many nominators of the first pending operator as it may, and no others. Once no
  nominator is left the operator is removed and the next one is first; until then the operator stays first,
  with the nominators that are left and a pool that still has at least one unit of stake per share.
\<close>

theorem slash_call_progress:
  assumes laws: "perthing_laws T" "from_rational_rounds_down T"
    and ok: "do_slash_operator T d mx s = Inr (count, s')" and pending: "pending_slashes s d = Some (i # rest)"
    and mx: "0 < mx" "mx < 2 ^ 32" and invar: "om_invar (withdrawals s i)"
    and owned: "set (map fst (withdrawals s i)) \<subseteq> set (map fst (deposits s i))"
  shows "count = min mx (length (deposits s i)) \<and> deposits s' i = drop mx (deposits s i) \<and>
    (\<forall>j. j \<noteq> i \<longrightarrow> deposits s' j = deposits s j \<and> withdrawals s' j = withdrawals s j \<and> operators s' j = operators s j) \<and>
    (if length (deposits s i) \<le> mx
     then operators s' i = None \<and> withdrawals s' i = [] \<and>
       pending_slashes s' d = (if rest = [] then None else Some rest)
     else pending_slashes s' d = Some (i # rest) \<and> om_invar (withdrawals s' i) \<and>
       set (map fst (withdrawals s' i)) \<subseteq> set (map fst (deposits s' i)) \<and>
       (\<exists>op'. operators s' i = Some op' \<and> op_current_total_shares op' \<le> op_current_total_stake op'))"
  using assms by (rule slash_call)

text \<open>A slashed operator with two nominators, one of which has something to withdraw.\<close>

definition slashed_example :: "ledger domains" where
  "slashed_example = leaving_example
    \<lparr>operators := [0 \<mapsto> registered_operator\<lparr>op_partial_status := Slashed,
       op_current_total_stake := 1300, op_current_total_shares := 1200\<rparr>],
     pending_slashes := [0 \<mapsto> [0]]\<rparr>"

lemmas [eval_defs] = slashed_example_def

theorem slash_call_progress_witness:
  "\<exists>s'. do_slash_operator reference_runtime 0 1 slashed_example = Inr (1, s') \<and> pending_slashes s' 0 = Some [0] \<and>
     length (deposits s' 0) = 1"
proof -
  have "\<not> isl (do_slash_operator reference_runtime 0 1 slashed_example)" by (simp add: eval_defs)
  then obtain count s' where ok: "do_slash_operator reference_runtime 0 1 slashed_example = Inr (count, s')"
    using is_ok_ex by (metis surj_pair)
  have "pending_slashes slashed_example 0 = Some [0]" "withdrawals slashed_example 0 = []"
    "length (deposits slashed_example 0) = 2"
    by (simp_all add: slashed_example_def leaving_example_def registered_state_def reference_state_def)
  with slash_call_progress [OF reference_laws(1,2) ok] ok show ?thesis by (auto simp: om_invar_def)
qed



end
