(* ===== verification/Block_Tree.thy ===== *)
theory Block_Tree
  imports Staking
begin

text \<open>
  The block tree of a domain (crates/pallet-domains/src/block_tree.rs): which execution receipts are accepted, how an
  accepted receipt extends the tree, and what happens when the receipt that leaves the challenge period is
  confirmed.
\<close>

section \<open>Verification of a receipt\<close>

definition latest_confirmed_domain_block_number :: "domain_id \<Rightarrow> 'x domains \<Rightarrow> domain_block_number" where
  "latest_confirmed_domain_block_number d s =
     case_option 0 er_domain_block_number (latest_confirmed_domain_execution_receipt s d)"

definition runtime_id_of :: "domain_id \<Rightarrow> 'x domains \<Rightarrow> runtime_id option" where
  "runtime_id_of d s = map_option (\<lambda>obj. dc_runtime_id (do_domain_config obj)) (domain_registry s d)"

definition does_receipt_exists :: "domain_id \<Rightarrow> domain_block_number \<Rightarrow> hash \<Rightarrow> 'x domains \<Rightarrow> bool" where
  "does_receipt_exists d domain_number receipt_hash s =
     (case block_tree s d domain_number of Some h \<Rightarrow> h = receipt_hash | None \<Rightarrow> False)"

definition execution_receipt_type :: "'x config \<Rightarrow> domain_id \<Rightarrow> execution_receipt \<Rightarrow> 'x domains \<Rightarrow> receipt_type" where
  "execution_receipt_type T d er s =
     (let receipt_number = er_domain_block_number er;
          head = head_receipt_number s d;
          head_receipt_extended = (new_added_head_receipt s d \<noteq> None);
          next_receipt_number = saturating_add 32 head 1;
          latest_confirmed = latest_confirmed_domain_block_number d s
      in if receipt_number > next_receipt_number then Rejected InFuture
         else if receipt_number = next_receipt_number then
           if head_receipt_extended then Rejected InFuture else Accepted NewHead
         else if latest_confirmed \<noteq> 0 \<and> receipt_number \<le> latest_confirmed then Rejected Pruned
         else if \<not> does_receipt_exists d receipt_number (er_hash T er) s then Rejected NewBranch
         else if receipt_number = head \<and>
                 (head_receipt_extended \<or> (receipt_number = 0 \<and> head_domain_number s d = 0))
         then Accepted CurrentHead
         else Rejected Stale)"

text \<open>The consensus block hash that the receipt must name.\<close>

definition expected_consensus_block_hash ::
    "'x config \<Rightarrow> domain_id \<Rightarrow> block_number \<Rightarrow> domain_runtime_upgrade_entry option \<Rightarrow> 'x domains \<Rightarrow>
       block_tree_error + hash" where
  "expected_consensus_block_hash T d n maybe_upgraded s =
     (case consensus_block_hash s d n of
        Some h \<Rightarrow> Inr h
      | None \<Rightarrow>
          if n = wrapping_sub 32 (current_block_number T (ext s)) 1 then Inr (parent_hash T (ext s))
          else (case maybe_upgraded of
                  Some entry \<Rightarrow> Inr (rue_at_hash entry)
                | None \<Rightarrow> Inl UnavailableConsensusBlockHash))"

definition verify_execution_receipt ::
    "'x config \<Rightarrow> domain_id \<Rightarrow> execution_receipt \<Rightarrow> 'x domains \<Rightarrow> block_tree_error + unit" where
  "verify_execution_receipt T d er s =
     (case execution_receipt_type T d er s of
        Rejected r \<Rightarrow> Inl (rejected_error r)
      | Accepted _ \<Rightarrow>
      (case new_added_head_receipt s d of
        Some new_added \<Rightarrow> ensure (new_added = er_hash T er) UnmatchedNewHeadReceipt
      | None \<Rightarrow>
      if er_domain_block_number er = 0
      then ensure (does_receipt_exists d (er_domain_block_number er) (er_hash T er) s) BadGenesisReceipt
      else if length (er_execution_trace er) < 2 then Inl InvalidExecutionTrace
      else
        and_then (ok_or RuntimeNotFound (runtime_id_of d s)) (\<lambda>runtime_id.
        let maybe_upgraded = om_get (domain_runtime_upgrade_records s runtime_id) (er_consensus_block_number er) in
        and_then (expected_consensus_block_hash T d (er_consensus_block_number er) maybe_upgraded s) (\<lambda>h.
        and_then (ensure (er_consensus_block_hash er = h) BuiltOnUnknownConsensusBlock) (\<lambda>_.
        let roots = map ib_extrinsics_root (er_inboxed_bundles er);
            expected_roots = map bd_extrinsics_root
              (get_execution_inbox s d (er_domain_block_number er) (er_consensus_block_number er)) in
        and_then (ensure ((roots \<noteq> [] \<or> maybe_upgraded \<noteq> None) \<and> roots = expected_roots)
                    InvalidExtrinsicsRoots) (\<lambda>_.
        and_then (ok_or InvalidTraceRoot (trace_root T (er_execution_trace er))) (\<lambda>expected_root.
        and_then (ensure (expected_root = er_execution_trace_root er) InvalidTraceRoot) (\<lambda>_.
        and_then (if er_execution_trace er \<noteq> []
                  then ensure (er_final_state_root er = last (er_execution_trace er)) InvalidStateRoot
                  else Inr ()) (\<lambda>_.
        case checked_sub (er_domain_block_number er) 1 of
          Some parent_block_number \<Rightarrow>
            ensure (does_receipt_exists d parent_block_number (er_parent_domain_block_receipt_hash er) s)
              UnknownParentBlockReceipt
        | None \<Rightarrow> Inr ())))))))))"

section \<open>Extending and pruning the tree\<close>

definition add_new_receipt_to_block_tree ::
    "'x config \<Rightarrow> domain_id \<Rightarrow> operator_id \<Rightarrow> execution_receipt \<Rightarrow> 'x domains \<Rightarrow>
       block_tree_error + 'x domains" where
  "add_new_receipt_to_block_tree T d submitter er s =
     (let h = er_hash T er; n = er_domain_block_number er in
      and_then (ensure (block_tree s d n = None) OverwritingER) (\<lambda>_.
      Inr (s\<lparr>block_tree := (block_tree s)(d := (block_tree s d)(n \<mapsto> h)),
             block_tree_nodes := (block_tree_nodes s)
               (h \<mapsto> \<lparr>btn_execution_receipt = er, btn_operator_ids = [submitter]\<rparr>)\<rparr>)))"

definition import_genesis_receipt ::
    "'x config \<Rightarrow> domain_id \<Rightarrow> execution_receipt \<Rightarrow> 'x domains \<Rightarrow> 'x domains" where
  "import_genesis_receipt T d genesis_receipt s =
     (let h = er_hash T genesis_receipt; n = er_domain_block_number genesis_receipt in
      s\<lparr>latest_confirmed_domain_execution_receipt :=
          (latest_confirmed_domain_execution_receipt s)(d \<mapsto> genesis_receipt),
        domain_genesis_block_execution_receipt :=
          (domain_genesis_block_execution_receipt s)(d \<mapsto> genesis_receipt),
        block_tree := (block_tree s)(d := (block_tree s d)(n \<mapsto> h)),
        block_tree_nodes := (block_tree_nodes s)
          (h \<mapsto> \<lparr>btn_execution_receipt = genesis_receipt, btn_operator_ids = []\<rparr>)\<rparr>)"

definition forget_submitted_er ::
    "domain_id \<Rightarrow> domain_block_number \<Rightarrow> operator_id \<Rightarrow> 'x domains \<Rightarrow> 'x domains" where
  "forget_submitted_er d n i s =
     (if n = latest_submitted_er s (d, i)
      then s\<lparr>latest_submitted_er := (latest_submitted_er s)((d, i) := 0)\<rparr> else s)"

definition prune_receipt ::
    "domain_id \<Rightarrow> domain_block_number \<Rightarrow> 'x domains \<Rightarrow>
       block_tree_error + block_tree_node option \<times> 'x domains" where
  "prune_receipt d receipt_number s =
     (case block_tree s d receipt_number of
        None \<Rightarrow> Inr (None, s)
      | Some receipt_hash \<Rightarrow>
          let s = s\<lparr>block_tree := (block_tree s)(d := (block_tree s d)(receipt_number := None))\<rparr> in
          and_then (ok_or MissingDomainBlock (block_tree_nodes s receipt_hash)) (\<lambda>node.
          let s = s\<lparr>block_tree_nodes := (block_tree_nodes s)(receipt_hash := None)\<rparr> in
          Inr (Some node,
               fold (forget_submitted_er d (er_domain_block_number (btn_execution_receipt node)))
                 (btn_operator_ids node) s)))"

section \<open>Confirmation of a receipt\<close>

text \<open>\<open>BlockFees::total_fees\<close> and \<open>Transfers::is_valid\<close>\<close>

definition total_fees :: "block_fees \<Rightarrow> balance option" where
  "total_fees fees =
     Option.bind
       (fold (\<lambda>e acc. Option.bind acc (\<lambda>a. checked_add 128 a (snd e))) (bf_chain_rewards fees) (Some 0))
       (\<lambda>total_chain_reward.
     Option.bind (checked_add 128 (bf_consensus_storage_fee fees) (bf_domain_execution_fee fees)) (\<lambda>balance.
     Option.bind (checked_add 128 balance (bf_burned_balance fees)) (\<lambda>balance.
     checked_add 128 balance total_chain_reward)))"

definition transfers_is_valid :: "transfers \<Rightarrow> chain_id \<Rightarrow> bool" where
  "transfers_is_valid tr c =
     (om_get (tr_transfers_rejected tr) c = None \<and> om_get (tr_transfers_in tr) c = None \<and>
      om_get (tr_transfers_out tr) c = None \<and> om_get (tr_rejected_transfers_claimed tr) c = None)"

definition update_domain_transfers ::
    "'x config \<Rightarrow> domain_id \<Rightarrow> transfers \<Rightarrow> balance \<Rightarrow> 'x domains \<Rightarrow> unit + 'x domains" where
  "update_domain_transfers T d tr fees s =
     (let c = Domain d in
      and_then (try_fold (\<lambda>(from, amount). with_ext () (confirm_transfer T from c amount))
                  (tr_transfers_in tr) s) (\<lambda>s.
      and_then (try_fold (\<lambda>(to, amount). with_ext () (note_transfer T c to amount))
                  (tr_transfers_out tr) s) (\<lambda>s.
      and_then (try_fold (\<lambda>(from, amount). with_ext () (reject_transfer T from c amount))
                  (tr_transfers_rejected tr) s) (\<lambda>s.
      and_then (try_fold (\<lambda>(to, amount). with_ext () (claim_rejected_transfer T c to amount))
                  (tr_rejected_transfers_claimed tr) s) (\<lambda>s.
      with_ext () (reduce_domain_balance T d fees) s)))))"

definition update_domain_runtime_upgrade_records ::
    "domain_id \<Rightarrow> block_number \<Rightarrow> 'x domains \<Rightarrow> block_tree_error + 'x domains" where
  "update_domain_runtime_upgrade_records d consensus_number s =
     and_then (ok_or RuntimeNotFound (runtime_id_of d s)) (\<lambda>runtime_id.
     let records = domain_runtime_upgrade_records s runtime_id in
     case om_get records consensus_number of
       None \<Rightarrow> Inr s
     | Some entry \<Rightarrow>
         let records =
               (if rue_reference_count entry > 1
                then om_insert consensus_number
                       (entry\<lparr>rue_reference_count := saturating_sub (rue_reference_count entry) 1\<rparr>) records
                else om_remove consensus_number records)
         in Inr (s\<lparr>domain_runtime_upgrade_records :=
                    (domain_runtime_upgrade_records s)(runtime_id := records)\<rparr>))"

text \<open>
  \<open>Pallet::reward_domain_operators\<close>: the closure given to \<open>mutate\<close> returns the sum, which nobody reads, and
  leaves the stored value as it was.
\<close>

definition reward_domain_operators :: "domain_id \<Rightarrow> balance \<Rightarrow> 'x domains \<Rightarrow> 'x domains" where
  "reward_domain_operators d rewards s =
     (let current_rewards = domain_chain_rewards s d;
          (stored, returned) = (current_rewards, saturating_add 128 current_rewards rewards)
      in s\<lparr>domain_chain_rewards := (domain_chain_rewards s)(d := stored)\<rparr>)"

text \<open>\<open>OnChainRewards::on_chain_rewards\<close> of the consensus runtime\<close>

definition on_chain_rewards :: "'x config \<Rightarrow> chain_id \<Rightarrow> balance \<Rightarrow> 'x domains \<Rightarrow> 'x domains" where
  "on_chain_rewards T c reward s =
     (case c of
        Consensus \<Rightarrow> s\<lparr>ext := reward_block_author T reward (ext s)\<rparr>
      | Domain d \<Rightarrow> reward_domain_operators d reward s)"

text \<open>
  The loop over the bundles of the confirmed block: the authors of invalid bundles and the storage that the
  others have paid for; \<open>None\<close> where the receipt has no bundle at an index.
\<close>

record 'x bundle_loop =
  bl_paid_bundle_storage_fees :: "(operator_id \<times> u32) list"
  bl_invalid_bundle_authors :: "operator_id list"
  bl_state :: "'x domains"

fun collect_bundle_authors ::
    "inboxed_bundle list \<Rightarrow> nat \<Rightarrow> bundle_digest list \<Rightarrow> 'x bundle_loop \<Rightarrow> 'x bundle_loop option" where
  "collect_bundle_authors inboxed index [] st = Some st"
| "collect_bundle_authors inboxed index (bd # bds) st =
     (let s = bl_state st in
      case inboxed_bundle_author s (bd_header_hash bd) of
        None \<Rightarrow> collect_bundle_authors inboxed (Suc index) bds st
      | Some bundle_author \<Rightarrow>
          let st = st\<lparr>bl_state :=
                s\<lparr>inboxed_bundle_author := (inboxed_bundle_author s)(bd_header_hash bd := None)\<rparr>\<rparr> in
          if \<not> index < length inboxed then None
          else if is_invalid (inboxed ! index)
          then collect_bundle_authors inboxed (Suc index) bds
                 (st\<lparr>bl_invalid_bundle_authors := bl_invalid_bundle_authors st @ [bundle_author]\<rparr>)
          else
            let fees = bl_paid_bundle_storage_fees st in
            collect_bundle_authors inboxed (Suc index) bds
              (st\<lparr>bl_paid_bundle_storage_fees :=
                 om_insert bundle_author
                   (case om_get fees bundle_author of
                      Some n \<Rightarrow> wrapping_add 32 n (bd_size bd) | None \<Rightarrow> bd_size bd) fees\<rparr>))"

definition confirm_receipt ::
    "'x config \<Rightarrow> domain_id \<Rightarrow> domain_block_number \<Rightarrow> block_tree_node \<Rightarrow> 'x domains \<Rightarrow>
       block_tree_error + confirmed_domain_block_info \<times> 'x domains" where
  "confirm_receipt T d to_prune node s =
     (let er = btn_execution_receipt node;
          n = er_consensus_block_number er;
          fees = er_block_fees er in
      and_then (ok_or BlockTreePanic
                  (collect_bundle_authors (er_inboxed_bundles er) 0 (get_execution_inbox s d to_prune n)
                     \<lparr>bl_paid_bundle_storage_fees = [], bl_invalid_bundle_authors = [], bl_state = s\<rparr>)) (\<lambda>st.
      let s = bl_state st;
          s = s\<lparr>execution_inbox := (execution_inbox s)(d := (execution_inbox s d)(to_prune := [])),
                latest_confirmed_domain_execution_receipt :=
                  (latest_confirmed_domain_execution_receipt s)(d \<mapsto> er),
                consensus_block_hash := (consensus_block_hash s)(d := (consensus_block_hash s d)(n := None))\<rparr> in
      and_then (ok_or BlockTreeBalanceOverflow (total_fees fees)) (\<lambda>block_fees.
      and_then (ensure (transfers_is_valid (er_transfers er) (Domain d)) InvalidDomainTransfers) (\<lambda>_.
      and_then (map_err (\<lambda>_. DomainTransfersTracking)
                  (update_domain_transfers T d (er_transfers er) block_fees s)) (\<lambda>s.
      and_then (update_domain_runtime_upgrade_records d n s) (\<lambda>s.
      let s = fold (\<lambda>(c, reward). on_chain_rewards T c reward) (bf_chain_rewards fees) s in
      Inr (\<lparr>ci_consensus_block_number = n, ci_domain_block_number = to_prune,
            ci_operator_ids = btn_operator_ids node, ci_rewards = bf_domain_execution_fee fees,
            ci_invalid_bundle_authors = bl_invalid_bundle_authors st,
            ci_total_storage_fee = bf_consensus_storage_fee fees,
            ci_paid_bundle_storage_fees = bl_paid_bundle_storage_fees st\<rparr>, s)))))))"

definition note_submitted_er ::
    "domain_id \<Rightarrow> operator_id \<Rightarrow> domain_block_number \<Rightarrow> 'x domains \<Rightarrow> 'x domains" where
  "note_submitted_er d submitter n s =
     (if n > latest_submitted_er s (d, submitter)
      then s\<lparr>latest_submitted_er := (latest_submitted_er s)((d, submitter) := n)\<rparr> else s)"

definition process_execution_receipt ::
    "'x config \<Rightarrow> domain_id \<Rightarrow> operator_id \<Rightarrow> execution_receipt \<Rightarrow> accepted_receipt_type \<Rightarrow> 'x domains \<Rightarrow>
       block_tree_error + confirmed_domain_block_info option \<times> 'x domains" where
  "process_execution_receipt T d submitter er receipt_type s =
     (let h = er_hash T er; n = er_domain_block_number er in
      case receipt_type of
        NewHead \<Rightarrow>
          and_then (add_new_receipt_to_block_tree T d submitter er s) (\<lambda>s.
          let s = s\<lparr>head_receipt_number := (head_receipt_number s)(d := n),
                    new_added_head_receipt := (new_added_head_receipt s)(d \<mapsto> h)\<rparr> in
          case checked_sub n (BlockTreePruningDepth T) of
            Some to_prune \<Rightarrow>
              and_then (prune_receipt d to_prune s) (\<lambda>(maybe_node, s).
              case maybe_node of
                None \<Rightarrow> Inr (None, s)
              | Some node \<Rightarrow>
                  and_then (confirm_receipt T d to_prune node s) (\<lambda>(info, s). Inr (Some info, s)))
          | None \<Rightarrow> Inr (None, note_submitted_er d submitter n s))
      | CurrentHead \<Rightarrow>
          and_then (ok_or BlockTreePanic (block_tree_nodes s h)) (\<lambda>node.
          let s = s\<lparr>block_tree_nodes := (block_tree_nodes s)
                      (h \<mapsto> node\<lparr>btn_operator_ids := btn_operator_ids node @ [submitter]\<rparr>)\<rparr> in
          Inr (None, note_submitted_er d submitter n s)))"

end
