(* ===== verification/Bundle_Validation.thy ===== *)
theory Bundle_Validation
  imports Block_Tree Election
begin

text \<open>
  The checks that a bundle or a singleton receipt passes before it is dispatched
  (\<open>Pallet::validate_submit_bundle\<close> and \<open>Pallet::validate_singleton_receipt\<close> of crates/pallet-domains/src/lib.rs):
  the version of the receipt, the receipt gap, the eligibility of the operator and the receipt itself.
\<close>

section \<open>Versions\<close>

text \<open>\<open>bundle_and_execution_receipt_version_for_consensus_number\<close>: the loop, then the function\<close>

fun first_version_from :: "block_number \<Rightarrow> (block_number \<times> 'v) list \<Rightarrow> 'v option" where
  "first_version_from er_derived_number [] = None"
| "first_version_from er_derived_number ((upgraded_number, version) # rest) =
     (if er_derived_number \<le> upgraded_number then Some version else first_version_from er_derived_number rest)"

definition version_for_consensus_number ::
    "block_number \<Rightarrow> (block_number \<times> 'v) list \<Rightarrow> 'v \<Rightarrow> 'v option" where
  "version_for_consensus_number er_derived_number previous_versions current_version =
     (if previous_versions = [] then Some current_version
      else
        let (number, version) = last previous_versions
        in if er_derived_number > number then Some current_version
           else if er_derived_number = number then Some version
           else first_version_from er_derived_number previous_versions)"

text \<open>\<open>calculate_previous_bundle_and_execution_receipt_versions\<close>\<close>

definition calculate_previous_versions ::
    "block_number \<Rightarrow> (block_number \<times> 'v) list \<Rightarrow> 'v \<Rightarrow> (block_number \<times> 'v) list" where
  "calculate_previous_versions n previous_versions current_version =
     (if previous_versions = [] then om_insert n current_version previous_versions
      else
        let (prev_number, prev_version) = last previous_versions;
            previous_versions = butlast previous_versions
        in if prev_version = current_version then om_insert n current_version previous_versions
           else om_insert n current_version (om_insert prev_number prev_version previous_versions))"

definition set_code :: "'x config \<Rightarrow> block_number \<Rightarrow> 'x domains \<Rightarrow> 'x domains" where
  "set_code T n s =
     s\<lparr>previous_bundle_and_execution_receipt_versions :=
         calculate_previous_versions n (previous_bundle_and_execution_receipt_versions s)
           (CurrentBundleAndExecutionReceiptVersion T)\<rparr>"

definition check_execution_receipt_version ::
    "'x config \<Rightarrow> block_number \<Rightarrow> execution_receipt_version \<Rightarrow> 'x domains \<Rightarrow> bundle_error + unit" where
  "check_execution_receipt_version T er_derived_consensus_number receipt_version s =
     and_then (ok_or ExecutionVersionMissing
                 (version_for_consensus_number er_derived_consensus_number
                    (previous_bundle_and_execution_receipt_versions s)
                    (CurrentBundleAndExecutionReceiptVersion T))) (\<lambda>expected.
     case (receipt_version, bev_execution_receipt_version expected) of (ReceiptV0, ReceiptV0) \<Rightarrow> Inr ())"

section \<open>The receipt gap\<close>

text \<open>
  The first key of a storage prefix in the order of the trie: the keys are encoded in little endian and
  compared byte by byte.
\<close>

definition storage_order :: "u32 \<Rightarrow> nat" where
  "storage_order n = from_le_bytes (rev (to_le_bytes 4 n))"

definition missed_domain_runtime_upgrade :: "domain_id \<Rightarrow> 'x domains \<Rightarrow> block_tree_error + u32" where
  "missed_domain_runtime_upgrade d s =
     and_then (ok_or RuntimeNotFound (runtime_id_of d s)) (\<lambda>runtime_id.
     let inbox_keys = om_keys (execution_inbox s d (head_domain_number s d)) in
     and_then (ok_or LastBlockNotFound
                 (if inbox_keys \<noteq> [] then Some (arg_min_list storage_order inbox_keys)
                  else map_option do_created_at (domain_registry s d))) (\<lambda>last_block_at.
     Inr (length (takeWhile (\<lambda>upgraded_at. upgraded_at > last_block_at)
                    (rev (om_keys (domain_runtime_upgrade_records s runtime_id)))) mod 2 ^ 32)))"

definition domain_best_number :: "domain_id \<Rightarrow> 'x domains \<Rightarrow> bundle_error + domain_block_number" where
  "domain_best_number d s =
     and_then (map_err (\<lambda>_. FailedToGetMissedUpgradeCount) (missed_domain_runtime_upgrade d s))
       (\<lambda>missed_upgrade. Inr (wrapping_add 32 (head_domain_number s d) missed_upgrade))"

definition receipt_gap :: "domain_id \<Rightarrow> 'x domains \<Rightarrow> bundle_error + domain_block_number" where
  "receipt_gap d s =
     and_then (domain_best_number d s) (\<lambda>best. Inr (saturating_sub best (head_receipt_number s d)))"

definition is_bad_er_pending_to_prune :: "domain_id \<Rightarrow> domain_block_number \<Rightarrow> 'x domains \<Rightarrow> bool" where
  "is_bad_er_pending_to_prune d receipt_number s =
     (if receipt_number = 0 then False else head_receipt_number s d < receipt_number)"

definition oldest_unconfirmed_receipt_number :: "domain_id \<Rightarrow> 'x domains \<Rightarrow> domain_block_number option" where
  "oldest_unconfirmed_receipt_number d s =
     (let n = saturating_add 32 (latest_confirmed_domain_block_number d s) 1
      in if block_tree s d n \<noteq> None \<and> \<not> is_bad_er_pending_to_prune d n s then Some n else None)"

section \<open>Eligibility\<close>

definition fetch_operator_stake_info ::
    "domain_id \<Rightarrow> operator_id \<Rightarrow> 'x domains \<Rightarrow> bundle_error + balance \<times> balance" where
  "fetch_operator_stake_info d i s =
     (case Option.bind (last_epoch_staking_distribution s d)
             (\<lambda>params. map_option (\<lambda>stake. (stake, evp_total_domain_stake params)) (om_get (evp_operators params) i)) of
        Some r \<Rightarrow> Inr r
      | None \<Rightarrow>
          and_then (ok_or InvalidDomainId (domain_staking_summary s d)) (\<lambda>stake_summary.
          and_then (ok_or BadOperator (om_get (ss_current_operators stake_summary) i)) (\<lambda>operator_stake.
          Inr (operator_stake, ss_current_total_stake stake_summary))))"

definition operator_highest_slot_from_previous_block :: "operator_id \<Rightarrow> bool \<Rightarrow> 'x domains \<Rightarrow> slot" where
  "operator_highest_slot_from_previous_block i pre_dispatch s =
     (if pre_dispatch \<or> operator_bundle_slot s i = [] then operator_highest_slot s i
      else last (operator_bundle_slot s i))"

definition check_slot_and_proof_of_time ::
    "'x config \<Rightarrow> slot \<Rightarrow> bytes \<Rightarrow> bool \<Rightarrow> 'x domains \<Rightarrow> bundle_error + unit" where
  "check_slot_and_proof_of_time T slot_number proof_of_time pre_dispatch s =
     (let x = ext s; now = current_block_number T x in
      and_then (case future_slot T x now of
                  Some fs \<Rightarrow> if pre_dispatch then ensure (slot_number \<le> fs) SlotInTheFuture else Inr ()
                | None \<Rightarrow> Inr ()) (\<lambda>_.
      and_then (case slot_produced_after T x slot_number of
                  Some n \<Rightarrow> Inr n
                | None \<Rightarrow> if now > BundleLongevity T then Inl SlotInThePast else Inr 0) (\<lambda>produced_after.
      let produced_after_hash =
            (if produced_after = now then parent_hash T x else block_hash T x produced_after) in
      and_then (case checked_sub now (BundleLongevity T) of
                  Some last_eligible_block \<Rightarrow> ensure (produced_after \<ge> last_eligible_block) SlotInThePast
                | None \<Rightarrow> Inr ()) (\<lambda>_.
      if \<not> is_proof_of_time_valid T x produced_after_hash slot_number proof_of_time (\<not> pre_dispatch)
      then Inl InvalidProofOfTime else Inr ()))))"

definition validate_eligibility ::
    "'x config \<Rightarrow> hash \<Rightarrow> bytes \<Rightarrow> proof_of_election \<Rightarrow> domain_config \<Rightarrow> bool \<Rightarrow> 'x domains \<Rightarrow>
       bundle_error + unit" where
  "validate_eligibility T to_sign signature poe cfg pre_dispatch s =
     (let d = poe_domain_id poe; i = poe_operator_id poe; slot_number = poe_slot_number poe in
      and_then (ensure (d \<notin> set (frozen_domains s)) BundleDomainFrozen) (\<lambda>_.
      and_then (ok_or InvalidOperatorId (operators s i)) (\<lambda>op.
      and_then (ensure (can_operator_submit_bundle op i s) BadOperator) (\<lambda>_.
      and_then (ensure (signature_verify T (op_signing_key op) to_sign signature) BadBundleSignature) (\<lambda>_.
      and_then (ensure (slot_number > operator_highest_slot_from_previous_block i pre_dispatch s)
                  SlotSmallerThanPreviousBlockBundle) (\<lambda>_.
      and_then (ensure (slot_number \<notin> set (operator_bundle_slot s i)) EquivocatedBundle) (\<lambda>_.
      and_then (fetch_operator_stake_info d i s) (\<lambda>(operator_stake, total_domain_stake).
      and_then (check_slot_and_proof_of_time T slot_number (poe_proof_of_time poe) pre_dispatch s) (\<lambda>_.
      map_err poe_bundle_error
        (check_proof_of_election T (op_signing_key op) (dc_bundle_slot_probability cfg) poe
           (saturated_into 128 operator_stake) (saturated_into 128 total_domain_stake)))))))))))"

section \<open>Bundles\<close>

definition weight_all_lte :: "weight \<Rightarrow> weight \<Rightarrow> bool" where
  "weight_all_lte a b = (fst a \<le> fst b \<and> snd a \<le> snd b)"

definition bundle_size :: "'x config \<Rightarrow> opaque_bundle \<Rightarrow> u32" where
  "bundle_size T b = bundle_encoded_size T b mod 2 ^ 32"

definition bundle_body_size :: "'x config \<Rightarrow> opaque_bundle \<Rightarrow> u32" where
  "bundle_body_size T b =
     fold (\<lambda>tx acc. wrapping_add 32 acc (extrinsic_encoded_size T tx mod 2 ^ 32)) (ob_extrinsics b) 0"

definition validate_bundle :: "'x config \<Rightarrow> opaque_bundle \<Rightarrow> domain_config \<Rightarrow> bundle_error + unit" where
  "validate_bundle T b cfg =
     and_then (ensure (bundle_body_size T b \<le> dc_max_bundle_size cfg) BundleTooLarge) (\<lambda>_.
     and_then (ensure (weight_all_lte (bh_estimated_bundle_weight (ob_header b)) (dc_max_bundle_weight cfg))
                 BundleTooHeavy) (\<lambda>_.
     ensure (ordered_trie_root T (ob_extrinsics b) = bh_bundle_extrinsics_root (ob_header b)) InvalidExtrinsicRoot))"

text \<open>Charging the storage fee is the one effect of the validation.\<close>

definition validate_submit_bundle ::
    "'x config \<Rightarrow> opaque_bundle \<Rightarrow> bool \<Rightarrow> 'x domains \<Rightarrow> bundle_error + 'x domains" where
  "validate_submit_bundle T b pre_dispatch s =
     (let header = ob_header b;
          poe = bh_proof_of_election header;
          d = poe_domain_id poe;
          er = bh_receipt header in
      and_then (check_execution_receipt_version T (er_consensus_block_number er) ReceiptV0 s) (\<lambda>_.
      and_then (receipt_gap d s) (\<lambda>gap.
      and_then (ensure (gap \<le> 1) UnexpectedReceiptGap) (\<lambda>_.
      and_then (map_err (\<lambda>_. UnableToPayBundleStorageFee)
                  (charge_bundle_storage_fee T (poe_operator_id poe) (bundle_size T b) s)) (\<lambda>s.
      and_then (ok_or InvalidDomainId (domain_registry s d)) (\<lambda>obj.
      and_then (validate_bundle T b (do_domain_config obj)) (\<lambda>_.
      and_then (validate_eligibility T (bundle_header_hash T header) (ob_signature b) poe
                  (do_domain_config obj) pre_dispatch s) (\<lambda>_.
      and_then (map_err Receipt (verify_execution_receipt T d er s)) (\<lambda>_. Inr s)))))))))"

definition validate_singleton_receipt ::
    "'x config \<Rightarrow> singleton_receipt \<Rightarrow> bool \<Rightarrow> 'x domains \<Rightarrow> bundle_error + 'x domains" where
  "validate_singleton_receipt T r pre_dispatch s =
     (let poe = sr_proof_of_election r; d = poe_domain_id poe; er = sr_receipt r in
      and_then (receipt_gap d s) (\<lambda>gap.
      and_then (ensure (gap > 1) ExpectingReceiptGap) (\<lambda>_.
      and_then (map_err (\<lambda>_. UnableToPayBundleStorageFee)
                  (charge_bundle_storage_fee T (poe_operator_id poe)
                     (singleton_receipt_encoded_size T r mod 2 ^ 32) s)) (\<lambda>s.
      and_then (check_execution_receipt_version T (er_consensus_block_number er) ReceiptV0 s) (\<lambda>_.
      and_then (ok_or InvalidDomainId (domain_registry s d)) (\<lambda>obj.
      and_then (validate_eligibility T (singleton_receipt_hash T poe er) (sr_signature r) poe
                  (do_domain_config obj) pre_dispatch s) (\<lambda>_.
      and_then (map_err Receipt (verify_execution_receipt T d er s)) (\<lambda>_. Inr s))))))))"

section \<open>Lemmas\<close>

text \<open>
  The reference: the version for a consensus block is the one that the runtime had at the first upgrade at or
  after that block, and the current one where there has been no such upgrade.
\<close>

definition version_at :: "(block_number \<times> 'v) list \<Rightarrow> 'v \<Rightarrow> block_number \<Rightarrow> 'v" where
  "version_at upgrades current n =
     (case find (\<lambda>u. n \<le> fst u) upgrades of Some u \<Rightarrow> snd u | None \<Rightarrow> current)"

lemma version_at_simps [simp]:
  "version_at [] current n = current"
  "version_at ((m, v) # us) current n = (if n \<le> m then v else version_at us current n)"
  by (simp_all add: version_at_def)

lemma version_at_append: "version_at (us @ us') current n = version_at us (version_at us' current n) n"
  by (induction us) auto

lemma version_at_none: "(\<forall>u \<in> set us. fst u < n) \<Longrightarrow> version_at us current n = current"
  by (induction us) auto

lemma first_version_from_some:
  "u \<in> set us \<Longrightarrow> n \<le> fst u \<Longrightarrow> first_version_from n us = Some (version_at us current n)"
  by (induction us) auto

lemma om_invar_snoc: "om_invar (us @ [(m, v)]) \<longleftrightarrow> om_invar us \<and> (\<forall>u \<in> set us. fst u < m)"
  by (auto simp: om_invar_def sorted_wrt_append)

lemma version_for_consensus_number_eq:
  assumes "om_invar us"
  shows "version_for_consensus_number n us current = Some (version_at us current n)"
proof (cases us rule: rev_cases)
  case (snoc us' u)
  obtain m v where u: "u = (m, v)" by fastforce
  from assms snoc u have lt: "\<forall>u \<in> set us'. fst u < m" by (simp add: om_invar_snoc)
  consider "m < n" | "n = m" | "n < m" by linarith
  then show ?thesis
  proof cases
    case 1
    with lt have "\<forall>u \<in> set us. fst u < n" by (auto simp: snoc u)
    from version_at_none [OF this] 1 show ?thesis by (simp add: version_for_consensus_number_def snoc u)
  next
    case 2
    with lt version_at_none [of us' m v] show ?thesis
      by (simp add: version_for_consensus_number_def snoc u version_at_append)
  next
    case 3
    with first_version_from_some [of u us n current] show ?thesis
      by (simp add: version_for_consensus_number_def snoc u)
  qed
qed (simp add: version_for_consensus_number_def)

lemma om_insert_last: "\<forall>u \<in> set us. fst u < m \<Longrightarrow> om_insert m v us = us @ [(m, v)]"
  by (induction m v us rule: om_insert.induct) auto

text \<open>An upgrade extends the history, merging the versions of successive upgrades that did not change it.\<close>

lemma calculate_previous_versions:
  assumes us: "om_invar us" "\<forall>u \<in> set us. fst u < m"
  shows "om_invar (calculate_previous_versions m us v)"
    and "\<forall>u \<in> set (calculate_previous_versions m us v). fst u \<le> m"
    and "version_at (calculate_previous_versions m us v) current n = version_at (us @ [(m, v)]) current n"
proof -
  have "om_invar (calculate_previous_versions m us v) \<and> (\<forall>u \<in> set (calculate_previous_versions m us v). fst u \<le> m) \<and>
    version_at (calculate_previous_versions m us v) current n = version_at (us @ [(m, v)]) current n"
  proof (cases us rule: rev_cases)
    case Nil
    then show ?thesis by (simp add: calculate_previous_versions_def om_invar_def)
  next
    case (snoc us' u)
    obtain p w where u: "u = (p, w)" by fastforce
    from us have lt: "om_invar us'" "\<forall>u \<in> set us'. fst u < p" "p < m" by (auto simp: snoc u om_invar_snoc)
    then have lt': "\<forall>u \<in> set us'. fst u < m" by auto
    show ?thesis
    proof (cases "w = v")
      case True
      then have "calculate_previous_versions m us v = us' @ [(m, v)]"
        by (simp add: calculate_previous_versions_def snoc u om_insert_last [OF lt'])
      with lt lt' True show ?thesis
        by (auto simp: om_invar_snoc snoc u version_at_append less_imp_le)
    next
      case False
      have "om_insert m v (us' @ [(p, w)]) = us' @ [(p, w), (m, v)]"
        using lt lt' by (subst om_insert_last) auto
      with False lt lt' have "calculate_previous_versions m us v = us @ [(m, v)]"
        by (simp add: calculate_previous_versions_def snoc u om_insert_last)
      with us show ?thesis by (auto simp: om_invar_snoc less_imp_le)
    qed
  qed
  then show "om_invar (calculate_previous_versions m us v)"
    "\<forall>u \<in> set (calculate_previous_versions m us v). fst u \<le> m"
    "version_at (calculate_previous_versions m us v) current n = version_at (us @ [(m, v)]) current n" by auto
qed

lemma version_history:
  assumes "om_invar us"
  shows "om_invar (fold (\<lambda>(m, v) prev. calculate_previous_versions m prev v) us []) \<and>
    (\<forall>u \<in> set (fold (\<lambda>(m, v) prev. calculate_previous_versions m prev v) us []). \<exists>u' \<in> set us. fst u \<le> fst u') \<and>
    (\<forall>current n. version_at (fold (\<lambda>(m, v) prev. calculate_previous_versions m prev v) us []) current n
       = version_at us current n)"
  using assms
proof (induction us rule: rev_induct)
  case (snoc u us)
  obtain m v where u: "u = (m, v)" by fastforce
  let ?prev = "fold (\<lambda>(m, v) prev. calculate_previous_versions m prev v) us []"
  from snoc u have inv: "om_invar us" "\<forall>u \<in> set us. fst u < m" by (auto simp: om_invar_snoc)
  with snoc.IH have "om_invar ?prev" "\<forall>u \<in> set ?prev. fst u < m" by fastforce+
  note calc = calculate_previous_versions [OF this, of v]
  from calc inv snoc.IH show ?case by (auto simp: u version_at_append)
qed simp

section \<open>Properties\<close>

text \<open>
  C15: The version of a receipt is looked up correctly and always found. Whatever runtime upgrades there have
  been, the compressed record of versions answers for every consensus block with the version that the full
  history of upgrades gives.
\<close>

theorem version_lookup_equivalent:
  assumes "om_invar upgrades"
  shows "version_for_consensus_number n
           (fold (\<lambda>(m, v) previous. calculate_previous_versions m previous v) upgrades []) current
         = Some (version_at upgrades current n)"
  using version_for_consensus_number_eq version_history [OF assms] by metis

theorem version_lookup_equivalent_witness:
  "map (\<lambda>n. version_for_consensus_number n
       (fold (\<lambda>(m, v) previous. calculate_previous_versions m previous v)
          [(10, 0 :: nat), (20, 0), (30, 1), (40, 1)] []) 2) [5, 20, 21, 40, 41] = map Some [0, 0, 1, 1, 2]"
proof -
  have "om_invar [(10 :: nat, 0 :: nat), (20, 0), (30, 1), (40, 1)]" by (simp add: om_invar_def)
  from version_lookup_equivalent [OF this] show ?thesis by simp
qed

end
