(* ===== verification/Nominator_Position.thy ===== *)
theory Nominator_Position
  imports Withdrawals
begin

text \<open>
  The position of a nominator as the runtime reports it (crates/pallet-domains/src/nominator_position.rs): a read-only
  calculation on the nominator's deposit and withdrawal and on the pool of the operator.
\<close>

section \<open>Definitions\<close>

record position_data =
  pos_deposit :: deposit
  pos_operator :: operator
  pos_current_epoch_index :: epoch_index
  pos_current_share_price :: share_price

record pending_withdrawal =
  pw_stake_withdrawal_amount :: balance
  pw_storage_fee_refund :: balance
  pw_unlock_at_block :: domain_block_number

record nominator_position_info =
  np_current_staked_value :: balance
  np_total_shares :: share
  np_storage_fee_deposit :: "balance \<times> balance"
  np_pending_deposit :: "(balance \<times> epoch_index) option"
  np_pending_withdrawals :: "pending_withdrawal list"

definition fetch_position_data ::
    "'x config \<Rightarrow> operator_id \<Rightarrow> account_id \<Rightarrow> 'x domains \<Rightarrow> position_data option" where
  "fetch_position_data T i nominator_account s =
     Option.bind (get_deposit s i nominator_account) (\<lambda>dep.
     Option.bind (operators s i) (\<lambda>op.
     Option.bind (domain_staking_summary s (op_current_domain_id op)) (\<lambda>staking_summary.
     case current_share_price T i op staking_summary of
       Inl _ \<Rightarrow> None
     | Inr price \<Rightarrow>
         if op_current_total_shares op = 0 then None
         else Some \<lparr>pos_deposit = dep, pos_operator = op,
                    pos_current_epoch_index = ss_current_epoch_index staking_summary,
                    pos_current_share_price = price\<rparr>)))"

definition process_deposit ::
    "'x config \<Rightarrow> position_data \<Rightarrow> operator_id \<Rightarrow> 'x domains \<Rightarrow>
       share \<times> balance \<times> (balance \<times> epoch_index) option" where
  "process_deposit T data i s =
     (let dep = snd (do_convert_previous_epoch_deposits T s i (pos_deposit data) (pos_current_epoch_index data));
          known = dep_known dep;
          total_storage_fee_deposit =
            (case dep_pending dep of
               Some pd \<Rightarrow> saturating_add 128 (kd_storage_fee_deposit known) (pd_storage_fee_deposit pd)
             | None \<Rightarrow> kd_storage_fee_deposit known)
      in (kd_shares known, total_storage_fee_deposit,
          map_option (\<lambda>pd. (pd_amount pd, de_epoch (pd_effective_domain_epoch pd))) (dep_pending dep)))"

definition calculate_adjusted_storage_fee ::
    "'x config \<Rightarrow> operator_id \<Rightarrow> balance \<Rightarrow> balance \<Rightarrow> 'x domains \<Rightarrow> balance" where
  "calculate_adjusted_storage_fee T i operator_total_storage_fee nominator_storage_fee s =
     redeem T (storage_fund_redeem_price T i operator_total_storage_fee s) nominator_storage_fee"

definition process_withdrawals ::
    "'x config \<Rightarrow> operator_id \<Rightarrow> account_id \<Rightarrow> share_price \<Rightarrow> epoch_index \<Rightarrow> 'x domains \<Rightarrow>
       pending_withdrawal list" where
  "process_withdrawals T i nominator_account price epoch s =
     (case get_withdrawal s i nominator_account of
        None \<Rightarrow> []
      | Some wd \<Rightarrow>
          (let wd = snd (do_convert_previous_epoch_withdrawal T s i wd epoch)
           in map (\<lambda>w. \<lparr>pw_stake_withdrawal_amount = wb_amount_to_unlock w,
                        pw_storage_fee_refund = wb_storage_fee_refund w,
                        pw_unlock_at_block = wb_unlock_at w\<rparr>) (w_withdrawals wd) @
              (case w_withdrawal_in_shares wd of
                 None \<Rightarrow> []
               | Some ws \<Rightarrow> [\<lparr>pw_stake_withdrawal_amount = shares_to_stake T price (ws_shares ws),
                              pw_storage_fee_refund = ws_storage_fee_refund ws,
                              pw_unlock_at_block = ws_unlock_at ws\<rparr>])))"

definition nominator_position ::
    "'x config \<Rightarrow> operator_id \<Rightarrow> account_id \<Rightarrow> 'x domains \<Rightarrow> nominator_position_info option" where
  "nominator_position T i nominator_account s =
     Option.bind (fetch_position_data T i nominator_account s) (\<lambda>data.
     let (total_shares, total_storage_fee_deposit, pending) = process_deposit T data i s;
         price = pos_current_share_price data
     in Some \<lparr>np_current_staked_value = shares_to_stake T price total_shares,
              np_total_shares = total_shares,
              np_storage_fee_deposit =
                (total_storage_fee_deposit,
                 calculate_adjusted_storage_fee T i (op_total_storage_fee_deposit (pos_operator data))
                   total_storage_fee_deposit s),
              np_pending_deposit = pending,
              np_pending_withdrawals =
                process_withdrawals T i nominator_account price (pos_current_epoch_index data) s\<rparr>)"

end
