(* ===== verification/Domains_Calls.thy ===== *)
theory Domains_Calls
  imports Slashing Bundle_Validation Nominator_Position
begin

text \<open>
  The dispatchable calls of \<open>pallet-domains\<close> (crates/pallet-domains/src/lib.rs) that act on operators, receipts and
  bundles, composed from the components below them. A call that fails returns its error and no state: it
  runs in a storage transaction. The weights that a call reports after its execution are left out.
\<close>

section \<open>Origins\<close>

datatype origin = Root | Signed account_id | ValidatedUnsigned

fun ensure_root :: "origin \<Rightarrow> call_error + unit" where
  "ensure_root Root = Inr ()"
| "ensure_root _ = Inl BadOrigin"

fun ensure_signed :: "origin \<Rightarrow> call_error + account_id" where
  "ensure_signed (Signed who) = Inr who"
| "ensure_signed _ = Inl BadOrigin"

fun ensure_domain_origin :: "origin \<Rightarrow> call_error + unit" where
  "ensure_domain_origin ValidatedUnsigned = Inr ()"
| "ensure_domain_origin _ = Inl BadOrigin"

section \<open>Receipts\<close>

definition MAX_NOMINATORS_TO_SLASH :: u32 where
  "MAX_NOMINATORS_TO_SLASH = 10"

text \<open>
  A receipt that is proven or implied to be bad has been pruned: its submitters are slashed and the authors
  that it marked are restored.
\<close>

definition handle_bad_receipt ::
    "'x config \<Rightarrow> domain_id \<Rightarrow> hash \<Rightarrow> block_tree_node \<Rightarrow> 'x domains \<Rightarrow> call_error + 'x domains" where
  "handle_bad_receipt T d bad_receipt_hash node s =
     and_then (map_err StakingCall
                 (do_mark_operators_as_slashed (btn_operator_ids node) (BadExecutionReceipt bad_receipt_hash) s))
       (\<lambda>s. map_err StakingCall (do_unmark_invalid_bundle_authors T d (btn_execution_receipt node) s))"

text \<open>What follows the confirmation of a domain block.\<close>

definition settle_confirmed_block ::
    "'x config \<Rightarrow> domain_id \<Rightarrow> confirmed_domain_block_info \<Rightarrow> 'x domains \<Rightarrow> call_error + 'x domains" where
  "settle_confirmed_block T d info s =
     and_then (map_err BundleStorageFundCall
                 (refund_storage_fee T (ci_total_storage_fee info) (ci_paid_bundle_storage_fees info) s)) (\<lambda>s.
     and_then (map_err StakingCall
                 (do_reward_operators T d (Bundle (ci_consensus_block_number info)) (ci_operator_ids info)
                    (ci_rewards info) s)) (\<lambda>s.
     map_err StakingCall
       (do_mark_operators_as_slashed (ci_invalid_bundle_authors info)
          (SlashedInvalidBundle (ci_domain_block_number info)) s)))"

text \<open>The receipt of a bundle or of a singleton receipt: the \<open>match\<close> of \<open>submit_bundle\<close> and \<open>submit_receipt\<close>.\<close>

definition accept_receipt ::
    "'x config \<Rightarrow> domain_id \<Rightarrow> operator_id \<Rightarrow> execution_receipt \<Rightarrow> 'x domains \<Rightarrow> call_error + 'x domains" where
  "accept_receipt T d i er s =
     (case execution_receipt_type T d er s of
        Rejected r \<Rightarrow> Inl (BlockTreeCall (rejected_error r))
      | Accepted receipt_type \<Rightarrow>
          and_then
            (if receipt_type = NewHead then
               and_then (map_err BlockTreeCall (prune_receipt d (er_domain_block_number er) s))
                 (\<lambda>(maybe_node, s).
                    case maybe_node of
                      Some node \<Rightarrow> handle_bad_receipt T d (er_hash T (btn_execution_receipt node)) node s
                    | None \<Rightarrow> Inr s)
             else Inr s) (\<lambda>s.
          and_then
            (if receipt_type = NewHead then map_err StakingCall (do_mark_invalid_bundle_authors T d er s)
             else Inr s) (\<lambda>s.
          and_then (map_err BlockTreeCall (process_execution_receipt T d i er receipt_type s))
            (\<lambda>(maybe_info, s).
               case maybe_info of
                 Some info \<Rightarrow> settle_confirmed_block T d info s
               | None \<Rightarrow> Inr s))))"

definition slash_pending :: "'x config \<Rightarrow> domain_id \<Rightarrow> 'x domains \<Rightarrow> call_error + 'x domains" where
  "slash_pending T d s =
     and_then (map_err StakingCall (do_slash_operator T d MAX_NOMINATORS_TO_SLASH s)) (\<lambda>(_, s). Inr s)"

text \<open>The first bundle of a consensus block starts a domain block, and an epoch where one is due.\<close>

definition start_domain_block :: "'x config \<Rightarrow> domain_id \<Rightarrow> 'x domains \<Rightarrow> call_error + 'x domains" where
  "start_domain_block T d s =
     (if successful_bundles s d = [] then
        and_then (map_err BlockTreeCall (missed_domain_runtime_upgrade d s)) (\<lambda>missed_upgrade.
        and_then (ok_or (BlockTreeCall MaxHeadDomainNumber) (checked_add 32 (head_domain_number s d) 1)) (\<lambda>n.
        and_then (ok_or (BlockTreeCall MaxHeadDomainNumber) (checked_add 32 n missed_upgrade)) (\<lambda>next_number.
        and_then
          (if next_number mod StakeEpochDuration T = 0 then
             and_then (map_err StakingEpochCall (do_finalize_domain_current_epoch T d s)) (\<lambda>(res, s).
             Inr (deposit_event (DomainEpochCompleted d (etr_completed_epoch_index res)) s))
           else Inr s) (\<lambda>s.
        Inr (s\<lparr>head_domain_number := (head_domain_number s)(d := next_number)\<rparr>)))))
      else Inr s)"

definition submit_bundle :: "'x config \<Rightarrow> origin \<Rightarrow> opaque_bundle \<Rightarrow> 'x domains \<Rightarrow> call_error + 'x domains" where
  "submit_bundle T orig b s =
     (let header = ob_header b;
          poe = bh_proof_of_election header;
          d = poe_domain_id poe;
          i = poe_operator_id poe;
          header_hash = bundle_header_hash T header in
      and_then (ensure_domain_origin orig) (\<lambda>_.
      let s = s\<lparr>operator_bundle_count_in_epoch := (operator_bundle_count_in_epoch s)
                  (i \<mapsto> saturating_add 64 (case_option 0 (\<lambda>c. c) (operator_bundle_count_in_epoch s i)) 1)\<rparr> in
      and_then (accept_receipt T d i (bh_receipt header) s) (\<lambda>s.
      and_then (start_domain_block T d s) (\<lambda>s.
      let s = append_execution_inbox d (head_domain_number s d) (current_block_number T (ext s))
                \<lparr>bd_header_hash = header_hash, bd_extrinsics_root = bh_bundle_extrinsics_root header,
                 bd_size = bundle_size T b\<rparr> s;
          s = s\<lparr>inboxed_bundle_author := (inboxed_bundle_author s)(header_hash \<mapsto> i),
                successful_bundles := (successful_bundles s)
                  (d := successful_bundles s d @ [bundle_hash T b]),
                operator_bundle_slot := (operator_bundle_slot s)
                  (i := os_insert (poe_slot_number poe) (operator_bundle_slot s i))\<rparr> in
      and_then (slash_pending T d s) (\<lambda>s.
      Inr (deposit_event (BundleStored d (bundle_hash T b) i) s))))))"

definition submit_receipt :: "'x config \<Rightarrow> origin \<Rightarrow> singleton_receipt \<Rightarrow> 'x domains \<Rightarrow> call_error + 'x domains" where
  "submit_receipt T orig r s =
     (let poe = sr_proof_of_election r; d = poe_domain_id poe in
      and_then (ensure_domain_origin orig) (\<lambda>_.
      and_then (accept_receipt T d (poe_operator_id poe) (sr_receipt r) s) (\<lambda>s.
      slash_pending T d s)))"

text \<open>Reverting the tree to the parent of a bad receipt: a fraud proof or, on a frozen domain, \<open>Root\<close>.\<close>

definition prune_bad_receipt ::
    "'x config \<Rightarrow> domain_id \<Rightarrow> hash \<Rightarrow> 'x domains \<Rightarrow> call_error + domain_block_number \<times> 'x domains" where
  "prune_bad_receipt T d bad_receipt_hash s =
     and_then (ok_or BadReceiptNotFound (block_tree_nodes s bad_receipt_hash)) (\<lambda>node.
     let bad_receipt_number = er_domain_block_number (btn_execution_receipt node) in
     and_then (ensure (head_receipt_number s d \<ge> bad_receipt_number) BadReceiptNotFound) (\<lambda>_.
     and_then (map_err BlockTreeCall (prune_receipt d bad_receipt_number s)) (\<lambda>(maybe_node, s).
     and_then (ok_or BadReceiptNotFound maybe_node) (\<lambda>node.
     and_then (handle_bad_receipt T d bad_receipt_hash node s) (\<lambda>s.
     let new_head = saturating_sub bad_receipt_number 1 in
     Inr (new_head, s\<lparr>head_receipt_number := (head_receipt_number s)(d := new_head)\<rparr>))))))"

definition submit_fraud_proof ::
    "'x config \<Rightarrow> origin \<Rightarrow> domain_id \<Rightarrow> hash \<Rightarrow> 'x domains \<Rightarrow> call_error + 'x domains" where
  "submit_fraud_proof T orig d bad_receipt_hash s =
     and_then (ensure_domain_origin orig) (\<lambda>_.
     and_then (prune_bad_receipt T d bad_receipt_hash s) (\<lambda>(new_head, s).
     Inr (deposit_event (FraudProofProcessed d (Some new_head)) s)))"

definition prune_domain_execution_receipt ::
    "'x config \<Rightarrow> origin \<Rightarrow> domain_id \<Rightarrow> hash \<Rightarrow> 'x domains \<Rightarrow> call_error + 'x domains" where
  "prune_domain_execution_receipt T orig d bad_receipt_hash s =
     and_then (ensure_root orig) (\<lambda>_.
     and_then (ensure (d \<in> set (frozen_domains s)) DomainNotFrozen) (\<lambda>_.
     and_then (prune_bad_receipt T d bad_receipt_hash s) (\<lambda>(new_head, s).
     Inr (deposit_event (PrunedExecutionReceipt d (Some new_head)) s))))"

definition freeze_domain :: "origin \<Rightarrow> domain_id \<Rightarrow> 'x domains \<Rightarrow> call_error + 'x domains" where
  "freeze_domain orig d s =
     and_then (ensure_root orig) (\<lambda>_.
     Inr (deposit_event (DomainFrozen d) (s\<lparr>frozen_domains := os_insert d (frozen_domains s)\<rparr>)))"

definition unfreeze_domain :: "origin \<Rightarrow> domain_id \<Rightarrow> 'x domains \<Rightarrow> call_error + 'x domains" where
  "unfreeze_domain orig d s =
     and_then (ensure_root orig) (\<lambda>_.
     Inr (deposit_event (DomainUnfrozen d) (s\<lparr>frozen_domains := os_remove d (frozen_domains s)\<rparr>)))"

section \<open>Operators and nominators\<close>

definition register_operator ::
    "'x config \<Rightarrow> origin \<Rightarrow> domain_id \<Rightarrow> balance \<Rightarrow> operator_config \<Rightarrow> 'x domains \<Rightarrow>
       call_error + 'x domains" where
  "register_operator T orig d amount config s =
     and_then (ensure_signed orig) (\<lambda>owner.
     and_then (map_err StakingCall (do_register_operator T owner d amount config s))
       (\<lambda>((i, current_epoch_index), s).
     let s = deposit_event (OperatorRegistered i d) s in
     if current_epoch_index = 0
     then and_then (map_err StakingEpochCall (do_finalize_domain_current_epoch T d s)) (\<lambda>(_, s). Inr s)
     else Inr s))"

definition nominate_operator ::
    "'x config \<Rightarrow> origin \<Rightarrow> operator_id \<Rightarrow> balance \<Rightarrow> 'x domains \<Rightarrow> call_error + 'x domains" where
  "nominate_operator T orig i amount s =
     and_then (ensure_signed orig) (\<lambda>who. map_err StakingCall (do_nominate_operator T i who amount s))"

definition deregister_operator ::
    "'x config \<Rightarrow> origin \<Rightarrow> operator_id \<Rightarrow> 'x domains \<Rightarrow> call_error + 'x domains" where
  "deregister_operator T orig i s =
     and_then (ensure_signed orig) (\<lambda>who.
     and_then (map_err StakingCall (do_deregister_operator T who i s)) (\<lambda>(_, s).
     Inr (deposit_event (OperatorDeregistered i) s)))"

definition withdraw_stake ::
    "'x config \<Rightarrow> origin \<Rightarrow> operator_id \<Rightarrow> share \<Rightarrow> 'x domains \<Rightarrow> call_error + 'x domains" where
  "withdraw_stake T orig i to_withdraw s =
     and_then (ensure_signed orig) (\<lambda>who.
     and_then (map_err StakingCall (do_withdraw_stake T i who to_withdraw s)) (\<lambda>(_, s).
     Inr (deposit_event (WithdrewStake i who) s)))"

definition unlock_funds ::
    "'x config \<Rightarrow> origin \<Rightarrow> operator_id \<Rightarrow> 'x domains \<Rightarrow> call_error + 'x domains" where
  "unlock_funds T orig i s =
     and_then (ensure_signed orig) (\<lambda>who.
     and_then (map_err StakingCall (do_unlock_funds T i who s)) (\<lambda>(_, s). Inr s))"

definition unlock_nominator ::
    "'x config \<Rightarrow> origin \<Rightarrow> operator_id \<Rightarrow> 'x domains \<Rightarrow> call_error + 'x domains" where
  "unlock_nominator T orig i s =
     and_then (ensure_signed orig) (\<lambda>who.
     and_then (map_err StakingCall (do_unlock_nominator T i who s)) (\<lambda>s.
     Inr (deposit_event (NominatorUnlocked i who) s)))"

definition force_staking_epoch_transition ::
    "'x config \<Rightarrow> origin \<Rightarrow> domain_id \<Rightarrow> 'x domains \<Rightarrow> call_error + 'x domains" where
  "force_staking_epoch_transition T orig d s =
     and_then (ensure_root orig) (\<lambda>_.
     and_then (map_err StakingEpochCall (do_finalize_domain_current_epoch T d s)) (\<lambda>(res, s).
     Inr (deposit_event (ForceDomainEpochTransition d (etr_completed_epoch_index res)) s)))"

definition deactivate_operator ::
    "'x config \<Rightarrow> origin \<Rightarrow> operator_id \<Rightarrow> 'x domains \<Rightarrow> call_error + 'x domains" where
  "deactivate_operator T orig i s =
     and_then (ensure_root orig) (\<lambda>_. map_err StakingCall (do_deactivate_operator T i s))"

definition reactivate_operator ::
    "'x config \<Rightarrow> origin \<Rightarrow> operator_id \<Rightarrow> 'x domains \<Rightarrow> call_error + 'x domains" where
  "reactivate_operator T orig i s =
     and_then (ensure_root orig) (\<lambda>_. map_err StakingCall (do_reactivate_operator T i s))"

definition transfer_treasury_funds ::
    "'x config \<Rightarrow> origin \<Rightarrow> account_id \<Rightarrow> balance \<Rightarrow> 'x domains \<Rightarrow> call_error + 'x domains" where
  "transfer_treasury_funds T orig who amount s =
     and_then (ensure_root orig) (\<lambda>_.
     and_then (with_ext_value CurrencyCall (transfer T (TreasuryAccount T) who amount Preserve) s)
       (\<lambda>(s, _). Inr s))"

text \<open>\<open>on_finalize\<close>, without the data it stores for fraud proofs\<close>

definition on_finalize :: "'x domains \<Rightarrow> 'x domains" where
  "on_finalize s = s\<lparr>last_epoch_staking_distribution := Map.empty, new_added_head_receipt := Map.empty\<rparr>"

end
