(* ===== verification/Post_Conditions.thy ===== *)
theory Post_Conditions
  imports Domain_State
begin

text \<open>
  Post-conditions of fallible operations: \<open>post m Q\<close> says that the result of \<open>m\<close> satisfies \<open>Q\<close> where \<open>m\<close>
  succeeds. The rules of the collection \<open>post_simps\<close> push a post-condition through the Result combinators, so
  that what a long operation keeps of the state follows from what the operations it calls keep.
\<close>

named_theorems post_simps \<open>post-conditions of the Result combinators\<close>

definition post :: "'e + 'a \<Rightarrow> ('a \<Rightarrow> bool) \<Rightarrow> bool" where
  "post m Q \<longleftrightarrow> (\<forall>x. m = Inr x \<longrightarrow> Q x)"

lemma postI: "(\<And>x. m = Inr x \<Longrightarrow> Q x) \<Longrightarrow> post m Q"
  by (simp add: post_def)

lemma postD: "post m Q \<Longrightarrow> m = Inr x \<Longrightarrow> Q x"
  by (simp add: post_def)

lemma post_mono: "post m P \<Longrightarrow> (\<And>x. P x \<Longrightarrow> Q x) \<Longrightarrow> post m Q"
  by (simp add: post_def)

lemma post_Inr [post_simps]: "post (Inr x) Q \<longleftrightarrow> Q x"
  by (simp add: post_def)

lemma post_Inl [post_simps]: "post (Inl e) Q"
  by (simp add: post_def)

lemma post_and_then [post_simps]: "post (and_then m f) Q \<longleftrightarrow> post m (\<lambda>x. post (f x) Q)"
  by (auto simp: post_def and_then_Inr_iff)

lemma post_ensure [post_simps]: "post (ensure b e) Q \<longleftrightarrow> (b \<longrightarrow> Q ())"
  by (simp add: post_def ensure_Inr_iff)

lemma post_ok_or [post_simps]: "post (ok_or e x) Q \<longleftrightarrow> (\<forall>y. x = Some y \<longrightarrow> Q y)"
  by (simp add: post_def ok_or_Inr_iff)

lemma post_map_err [post_simps]: "post (map_err f m) Q \<longleftrightarrow> post m Q"
  by (simp add: post_def map_err_Inr_iff)

lemma post_or_fail [post_simps]: "post (or_fail r) Q \<longleftrightarrow> (\<forall>x. r = (Inr (), x) \<longrightarrow> Q x)"
  by (simp add: post_def or_fail_Inr_iff)

lemma post_with_ext [post_simps]: "post (with_ext e f s) Q \<longleftrightarrow> (\<forall>x. f (ext s) = Some x \<longrightarrow> Q (s\<lparr>ext := x\<rparr>))"
  by (auto simp: post_def with_ext_Inr_iff)

lemma post_with_ext_value [post_simps]:
  "post (with_ext_value e f s) Q \<longleftrightarrow> (\<forall>x v. f (ext s) = Some (x, v) \<longrightarrow> Q (s\<lparr>ext := x\<rparr>, v))"
  by (auto simp: post_def with_ext_value_Inr_iff)

lemma post_if [post_simps]: "post (if b then m else m') Q \<longleftrightarrow> (b \<longrightarrow> post m Q) \<and> (\<not> b \<longrightarrow> post m' Q)"
  by simp

lemma post_case_prod [post_simps]: "post (case_prod f p) Q \<longleftrightarrow> post (f (fst p) (snd p)) Q"
  by (simp add: case_prod_beta)

lemma post_case_option [post_simps]:
  "post (case_option m f x) Q \<longleftrightarrow> (x = None \<longrightarrow> post m Q) \<and> (\<forall>y. x = Some y \<longrightarrow> post (f y) Q)"
  by (cases x) auto

text \<open>A loop keeps what every iteration keeps.\<close>

lemma post_try_fold:
  assumes "P s" and "\<And>x t. x \<in> set xs \<Longrightarrow> P t \<Longrightarrow> post (f x t) P"
  shows "post (try_fold f xs s) P"
  using try_fold_invariant [of f xs s _ P] assms by (auto intro!: postI dest: postD)

text \<open>A preorder between states: what a sequence of operations keeps is what each of them keeps.\<close>

locale state_preorder =
  fixes keeps :: "'s \<Rightarrow> 's \<Rightarrow> bool"
  assumes keeps_refl [simp]: "keeps s s"
    and keeps_trans: "keeps s t \<Longrightarrow> keeps t u \<Longrightarrow> keeps s u"
begin

lemma post_step: "post m (keeps t) \<Longrightarrow> keeps s t \<Longrightarrow> post m (keeps s)"
  by (erule post_mono) (rule keeps_trans)

lemma post_loop:
  assumes "\<And>x t. x \<in> set xs \<Longrightarrow> post (f x t) (keeps t)"
  shows "post (try_fold f xs s) (keeps s)"
  by (rule post_try_fold) (auto intro: post_step assms)

lemma post_loop_state:
  assumes "\<And>x t. x \<in> set xs \<Longrightarrow> post (f x t) (\<lambda>t'. keeps (g t) (g t'))"
  shows "post (try_fold f xs st) (\<lambda>t'. keeps (g st) (g t'))"
proof (rule post_try_fold)
  fix x t
  assume "x \<in> set xs" "keeps (g st) (g t)"
  with assms show "post (f x t) (\<lambda>t'. keeps (g st) (g t'))" by (meson keeps_trans post_mono)
qed simp

end

end
