(* ===== verification/Pool_Invariant.thy ===== *)
theory Pool_Invariant
  imports Domains_Calls Post_Conditions
begin

text \<open>
  The invariant of the staking pools across every operation of the pallet: no pool ever has more shares
  than stake. The theory also shows which operations leave the block tree alone.
\<close>

section \<open>What the operations keep\<close>

definition solvent :: "'x domains \<Rightarrow> bool" where
  "solvent s \<longleftrightarrow> (\<forall>i op. operators s i = Some op \<longrightarrow> op_current_total_shares op \<le> op_current_total_stake op)"

definition same_tree :: "'x domains \<Rightarrow> 'x domains \<Rightarrow> bool" where
  "same_tree s s' \<longleftrightarrow> block_tree s' = block_tree s \<and> block_tree_nodes s' = block_tree_nodes s \<and>
     head_receipt_number s' = head_receipt_number s"

definition untouched :: "'x domains \<Rightarrow> 'x domains \<Rightarrow> bool" where
  "untouched s s' \<longleftrightarrow> operators s' = operators s \<and> same_tree s s'"

definition staking_ok :: "'x domains \<Rightarrow> 'x domains \<Rightarrow> bool" where
  "staking_ok s s' \<longleftrightarrow> same_tree s s' \<and> (solvent s \<longrightarrow> solvent s')"

interpretation un: state_preorder untouched
  by unfold_locales (auto simp: untouched_def same_tree_def)

interpretation stk: state_preorder staking_ok
  by unfold_locales (auto simp: staking_ok_def same_tree_def)

interpretation tre: state_preorder same_tree
  by unfold_locales (auto simp: same_tree_def)

lemma untouched_staking_ok: "untouched s s' \<Longrightarrow> staking_ok s s'"
  by (auto simp: untouched_def staking_ok_def solvent_def)

lemma solvent_put_operator:
  "solvent s \<Longrightarrow> op_current_total_shares op \<le> op_current_total_stake op \<Longrightarrow> solvent (put_operator i op s)"
  by (auto simp: solvent_def put_operator_def)

lemma solventD: "solvent s \<Longrightarrow> operators s i = Some op \<Longrightarrow> op_current_total_shares op \<le> op_current_total_stake op"
  by (simp add: solvent_def)

lemmas frame_defs = untouched_def same_tree_def deposit_event_def put_summary_def put_deposit_def put_withdrawal_def
  remove_deposit_def remove_withdrawal_def

named_theorems keep_rules \<open>what the operations leave untouched\<close>

lemma keep_mint_into_treasury [keep_rules]: "post (mint_into_treasury T a s) (untouched s)"
  by (auto simp: mint_into_treasury_def post_simps frame_defs)

lemma keep_mint_funds [keep_rules]: "post (mint_funds T who a s) (untouched s)"
  by (auto simp: mint_funds_def post_simps frame_defs)

lemma keep_deposit_reserve [keep_rules]:
  "post (deposit_reserve_for_storage_fund T i who a s) (\<lambda>r. untouched s (snd r))"
  by (auto simp: deposit_reserve_for_storage_fund_def post_simps frame_defs Let_def)

lemma keep_hold_deposit [keep_rules]: "post (hold_deposit T who i a s) (untouched s)"
  by (auto simp: hold_deposit_def post_simps frame_defs)

lemma keep_add_new_deposit [keep_rules]:
  "post (do_calculate_previous_epoch_deposit_shares_and_add_new_deposit T i who de nd req s) (untouched s)"
  by (rule postI) (auto simp: frame_defs elim!: add_new_deposit_InrE)

lemma keep_note_pending [keep_rules]: "post (note_pending_staking_operation T d s) (untouched s)"
  by (auto simp: note_pending_staking_operation_def post_simps frame_defs Let_def)

lemma keep_withdraw_to [keep_rules]: "post (withdraw_to T i who a s) (\<lambda>r. untouched s (fst r))"
  by (auto simp: withdraw_to_def post_simps frame_defs)

lemma keep_withdraw_and_hold [keep_rules]: "post (withdraw_and_hold T i who a s) (\<lambda>r. untouched s (fst r))"
  by (auto simp: withdraw_and_hold_def post_simps frame_defs)

lemma keep_charge [keep_rules]: "post (charge_bundle_storage_fee T i n s) (untouched s)"
  by (auto simp: charge_bundle_storage_fee_def post_simps frame_defs Let_def)

lemma keep_convert_nominator [keep_rules]: "post (convert_nominator T i who e s) (\<lambda>r. untouched s (snd r))"
  by (auto simp: convert_nominator_def post_simps frame_defs Let_def)

lemma keep_note_deactivated: "untouched s (note_deactivated i op s)"
  by (simp add: note_deactivated_def frame_defs)

lemma keep_refund_operator: "post (refund_operator T fee paid e st) (\<lambda>st'. untouched (snd st) (snd st'))"
  by (auto simp: refund_operator_def post_simps frame_defs Let_def split: prod.split)

lemma keep_refund_storage_fee [keep_rules]: "post (refund_storage_fee T fee paid s) (untouched s)"
  unfolding refund_storage_fee_def Let_def
  by (auto simp: post_simps intro!: post_mono [OF un.post_loop_state [of _ _ snd "(fee, s)"]] keep_refund_operator
      un.post_step [OF keep_mint_into_treasury])


section \<open>Registration, nomination, withdrawal\<close>

lemma keep_do_register_operator:
  assumes "perthing_laws T"
  shows "post (do_register_operator T owner d amount config s) (\<lambda>r. staking_ok s (snd r))"
  unfolding do_register_operator_def
  by (auto simp: Let_def post_simps staking_ok_def frame_defs put_operator_def solvent_def stake_to_shares_one [OF assms]
      split: if_splits intro!: keep_rules [THEN post_mono])

lemma keep_do_nominate_operator: "post (do_nominate_operator T i who amount s) (staking_ok s)"
  unfolding do_nominate_operator_def
  by (auto simp: Let_def post_simps staking_ok_def frame_defs put_operator_def solvent_def
      intro!: keep_rules [THEN post_mono])

lemma keep_do_deregister_operator: "post (do_deregister_operator T owner i s) (\<lambda>r. staking_ok s (snd r))"
  by (auto simp: do_deregister_operator_def post_simps Let_def staking_ok_def same_tree_def put_operator_def put_summary_def
      solvent_def)

lemma keep_do_deactivate_operator: "post (do_deactivate_operator T i s) (staking_ok s)"
  by (rule postI) (auto simp: staking_ok_def same_tree_def solvent_def split: if_splits elim!: do_deactivate_operator_InrE)

lemma keep_do_reactivate_operator: "post (do_reactivate_operator T i s) (staking_ok s)"
  by (auto simp: do_reactivate_operator_def post_simps Let_def staking_ok_def same_tree_def put_operator_def put_summary_def
      solvent_def deposit_event_def split: operator_status.split)


lemma keep_pure [keep_rules]:
  "post (shares_to_withdraw T i op ss fee owner known n) (\<lambda>_. True)"
  "post (note_withdrawal_in_shares de at n fee wd) (\<lambda>_. True)"
  "post (pending_total pd) (\<lambda>_. True)"
  "post (SharePrice_new T sh st) (\<lambda>_. True)"
  "post (remove_from_sets i op ss) (\<lambda>_. True)"
  "post (settle_withdrawal T s i e w) (\<lambda>_. True)"
  "post (settle_slashed_withdrawal T s i e w) (\<lambda>_. True)"
  "post (tolerate_missing_price r) (\<lambda>_. True)"
  "post (unlock_ready head ws a b c) (\<lambda>_. True)"
  by (simp_all add: post_def)

lemma keep_do_withdraw_stake: "post (do_withdraw_stake T i who n s) (\<lambda>r. staking_ok s (snd r))"
  unfolding do_withdraw_stake_def
  by (auto simp: Let_def post_simps staking_ok_def frame_defs put_operator_def solvent_def note_deactivated_def
      split: if_splits intro!: keep_rules [THEN post_mono])

lemma keep_pay_unlocked [keep_rules]: "post (pay_unlocked T i who a s) (untouched s)"
  unfolding pay_unlocked_def
  by (auto simp: Let_def post_simps frame_defs intro!: keep_rules [THEN post_mono])

lemma keep_do_unlock_funds: "post (do_unlock_funds T i who s) (\<lambda>r. staking_ok s (snd r))"
  unfolding do_unlock_funds_def cleanup_withdrawal_def
  by (auto simp: Let_def post_simps staking_ok_def frame_defs solvent_def
      split: option.split intro!: keep_rules [THEN post_mono])

lemma keep_release_nominator [keep_rules]: "post (release_nominator T i who a s) (untouched s)"
  unfolding release_nominator_def
  by (auto simp: Let_def post_simps frame_defs intro!: keep_rules [THEN post_mono])

lemma keep_do_cleanup_operator [keep_rules]: "post (do_cleanup_operator T i a s) (untouched s)"
  unfolding do_cleanup_operator_def transfer_all_to_treasury_def
  by (auto simp: Let_def post_simps frame_defs intro!: keep_rules [THEN post_mono])

lemma keep_do_unlock_nominator:
  assumes laws: "perthing_laws T" "from_rational_rounds_down T"
  shows "post (do_unlock_nominator T i who s) (staking_ok s)"
proof -
  have "post (do_unlock_nominator T i who s) (same_tree s)"
    unfolding do_unlock_nominator_def
    by (auto simp: Let_def post_simps frame_defs put_operator_def
        split: operator_status.split intro!: keep_rules [THEN post_mono])
  moreover have "post (do_unlock_nominator T i who s) (\<lambda>s'. solvent s \<longrightarrow> solvent s')"
  proof (rule postI, rule impI)
    fix s'
    assume "do_unlock_nominator T i who s = Inr s'" "solvent s"
    then show "solvent s'"
      by (elim do_unlock_nominator_InrE)
        (auto simp: solvent_def shares_to_stake_rest [OF laws] split: if_splits)
  qed
  ultimately show ?thesis by (simp add: post_def staking_ok_def)
qed

section \<open>Rewards and slashing\<close>

lemma keep_reward_operator: "post (reward_operator T src n r e st) (\<lambda>st'. untouched (snd (snd st)) (snd (snd st')))"
  by (auto simp: reward_operator_def post_simps frame_defs Let_def split: prod.split)

lemma keep_do_reward_operators: "post (do_reward_operators T d src ops r s) (untouched s)"
  unfolding do_reward_operators_def
  by (auto simp: post_simps frame_defs
      intro!: keep_rules [THEN post_mono] post_mono [OF un.post_loop_state [of _ _ "\<lambda>st. snd (snd st)"]] keep_reward_operator)

lemma keep_mark_operator_as_slashed: "post (mark_operator_as_slashed r i s) (staking_ok s)"
  by (rule postI)
    (auto simp: staking_ok_def same_tree_def solvent_def split: if_splits elim!: mark_operator_as_slashed_InrE)

lemma keep_do_mark_operators_as_slashed: "post (do_mark_operators_as_slashed ids r s) (staking_ok s)"
  unfolding do_mark_operators_as_slashed_def by (rule stk.post_loop) (rule keep_mark_operator_as_slashed)

lemma keep_mark_invalid:
  "post (mark_invalid_bundle_author i h st) (\<lambda>st'. staking_ok (snd (snd st)) (snd (snd st')))"
  by (auto simp: mark_invalid_bundle_author_def post_simps staking_ok_def same_tree_def solvent_def put_operator_def
      split: prod.split option.split if_splits intro!: keep_rules [THEN post_mono])

lemma keep_unmark_invalid:
  "post (unmark_invalid_bundle_author i h st) (\<lambda>st'. staking_ok (snd (snd st)) (snd (snd st')))"
  by (auto simp: unmark_invalid_bundle_author_def post_simps staking_ok_def same_tree_def solvent_def put_operator_def
      split: prod.split option.split if_splits intro!: keep_rules [THEN post_mono])

lemma keep_store_invalid: "untouched (snd (snd st)) (store_invalid_bundle_authors d st)"
  by (auto simp: store_invalid_bundle_authors_def frame_defs split: prod.split)

lemma keep_store_invalid_trans: "staking_ok s (snd (snd st)) \<Longrightarrow> staking_ok s (store_invalid_bundle_authors d st)"
  by (erule stk.keeps_trans) (rule untouched_staking_ok [OF keep_store_invalid])

lemma keep_do_mark_invalid_bundle_authors: "post (do_mark_invalid_bundle_authors T d er s) (staking_ok s)"
proof -
  have loop: "post (try_fold (\<lambda>i st. if i \<in> set pending then Inr st else mark_invalid_bundle_author i h st) authors st)
     (\<lambda>st'. staking_ok (snd (snd st)) (snd (snd st')))" for pending authors h and st :: "_ \<times> _ \<times> 'a domains"
    by (rule stk.post_loop_state) (auto simp: post_simps keep_mark_invalid)
  show ?thesis
    unfolding do_mark_invalid_bundle_authors_def
    by (auto simp: post_simps Let_def intro!: loop [THEN post_mono] keep_store_invalid_trans)
qed

lemma keep_do_unmark_invalid_bundle_authors: "post (do_unmark_invalid_bundle_authors T d er s) (staking_ok s)"
proof -
  have loop: "post (try_fold (\<lambda>i st. if P i then Inr st else unmark_invalid_bundle_author i h st) authors st)
     (\<lambda>st'. staking_ok (snd (snd st)) (snd (snd st')))" for P authors h and st :: "_ \<times> _ \<times> 'a domains"
    by (rule stk.post_loop_state) (auto simp: post_simps keep_unmark_invalid)
  show ?thesis
    unfolding do_unmark_invalid_bundle_authors_def
    by (auto simp: post_simps Let_def intro!: loop [THEN post_mono] keep_store_invalid_trans)
qed

section \<open>Epochs\<close>

lemma keep_stake_reward_tax:
  "post (stake_reward_tax T d e i a op s) (\<lambda>r. untouched s (snd r) \<and>
     op_current_total_shares (fst r) = op_current_total_shares op \<and> op_current_total_stake (fst r) = op_current_total_stake op)"
  unfolding stake_reward_tax_def
  by (auto simp: Let_def post_simps frame_defs intro!: keep_rules [THEN post_mono])

lemma staking_ok_put_operator:
  assumes "untouched s t" "operators s i = Some op" "op_current_total_shares op' = op_current_total_shares op"
    "op_current_total_stake op \<le> op_current_total_stake op'"
  shows "staking_ok s (put_operator i op' t)"
proof -
  have "op_current_total_shares op' \<le> op_current_total_stake op'" if "solvent s"
    using solventD [OF that assms(2)] assms(3,4) by simp
  with assms(1) show ?thesis
    by (auto simp: staking_ok_def untouched_def same_tree_def put_operator_def solvent_def)
qed

lemma keep_take_reward: "post (take_reward T d e extra entry st) (\<lambda>st'. staking_ok (rl_state st) (rl_state st'))"
  unfolding take_reward_def
  by (auto simp: Let_def post_simps arith_simps split: option.split
      intro!: keep_stake_reward_tax [THEN post_mono] staking_ok_put_operator)
    (auto simp: frame_defs)

lemma keep_operator_take_reward:
  "post (operator_take_reward_tax_and_stake T d s) (\<lambda>r. staking_ok s (snd r))"
proof -
  have loop: "post (try_fold (take_reward T d e extra) es st) (\<lambda>st'. staking_ok (rl_state st) (rl_state st'))"
    for e extra es and st :: "'a reward_loop"
    by (rule stk.post_loop_state) (rule keep_take_reward)
  show ?thesis
    unfolding operator_take_reward_tax_and_stake_def
    by (auto simp: Let_def post_simps frame_defs staking_ok_def solvent_def
        intro!: loop [THEN post_mono] keep_rules [THEN post_mono])
qed

lemma keep_do_finalize_operator:
  assumes laws: "perthing_laws T" "from_rational_rounds_down T"
  shows "post (do_finalize_operator_epoch_staking T d i e chk s) (\<lambda>r. staking_ok s (snd r))"
proof (rule postI)
  fix r
  assume "do_finalize_operator_epoch_staking T d i e chk s = Inr r"
  moreover obtain st c s' where r: "r = ((st, c), s')" by (metis surj_pair)
  ultimately have "do_finalize_operator_epoch_staking T d i e chk s = Inr ((st, c), s')" by simp
  then show "staking_ok s (snd r)"
  proof (cases rule: do_finalize_operator_InrE)
    case (1 op op' pr)
    with pool_finalized_solvent [OF laws 1(3)] r show ?thesis
      by (auto simp: staking_ok_def same_tree_def solvent_def split: if_splits)
  qed
qed

lemma keep_finalize_next:
  assumes "perthing_laws T" "from_rational_rounds_down T"
  shows "post (finalize_next_operator T d ss slots prob counts i st) (\<lambda>st'. staking_ok (el_state st) (el_state st'))"
proof (rule postI)
  fix st'
  assume "finalize_next_operator T d ss slots prob counts i st = Inr st'"
  then show "staking_ok (el_state st) (el_state st')"
  proof (cases rule: finalize_next_operator_InrE)
    case (finalized op op' pr ev)
    with pool_finalized_solvent [OF assms finalized(4)] show ?thesis
      by (auto simp: staking_ok_def same_tree_def solvent_def split: if_splits)
  qed simp
qed

lemma keep_finalize_other:
  assumes "perthing_laws T" "from_rational_rounds_down T"
  shows "post (finalize_other_operator T d e i st) (\<lambda>st'. staking_ok (snd st) (snd st'))"
  unfolding finalize_other_operator_def
  by (auto simp: post_simps split: prod.split option.split intro!: keep_do_finalize_operator [OF assms, THEN post_mono])

lemma keep_finish_epoch:
  assumes "perthing_laws T" "from_rational_rounds_down T"
  shows "post (finish_epoch T d self ss slot e st) (\<lambda>r. staking_ok (el_state st) (snd r))"
proof -
  have loop: "post (try_fold (finalize_other_operator T d e) is st) (\<lambda>st'. staking_ok (snd st) (snd st'))"
    for e "is" and st :: "_ \<times> 'a domains"
    by (rule stk.post_loop_state) (rule keep_finalize_other [OF assms])
  show ?thesis
    unfolding finish_epoch_def
    by (auto simp: Let_def post_simps staking_ok_def frame_defs solvent_def intro!: loop [THEN post_mono])
qed

lemma keep_finalize_domain_epoch:
  assumes "perthing_laws T" "from_rational_rounds_down T"
  shows "post (do_finalize_domain_epoch_staking T d self s) (\<lambda>r. staking_ok s (snd r))"
proof -
  have loop: "post (try_fold (finalize_next_operator T d ss slots prob counts) is st)
      (\<lambda>st'. staking_ok (el_state st) (el_state st'))" for ss slots prob counts "is" and st :: "'a epoch_loop"
    by (rule stk.post_loop_state) (rule keep_finalize_next [OF assms])
  show ?thesis
    unfolding do_finalize_domain_epoch_staking_def
    by (auto simp: Let_def post_simps staking_ok_def frame_defs solvent_def
        intro!: loop [THEN post_mono] keep_finish_epoch [OF assms, THEN post_mono])
qed

lemma keep_finalize_current_epoch:
  assumes "perthing_laws T" "from_rational_rounds_down T"
  shows "post (do_finalize_domain_current_epoch T d s) (\<lambda>r. staking_ok s (snd r))"
  unfolding do_finalize_domain_current_epoch_def
  by (auto simp: Let_def post_simps staking_ok_def frame_defs solvent_def
      intro!: keep_operator_take_reward [THEN post_mono] keep_finalize_domain_epoch [OF assms, THEN post_mono])

section \<open>Slashing operators\<close>

lemma keep_pay_slashed [keep_rules]:
  "post (pay_slashed T i who locked pd staked ready fee tf s) (\<lambda>r. untouched s (snd r))"
  by (rule postI) (auto simp: frame_defs elim!: pay_slashed_InrE)

lemma keep_slash_nominator: "post (slash_nominator T i e price entry st) (\<lambda>st'. untouched (sl_state st) (sl_state st'))"
  by (cases entry, rule postI) (auto simp: frame_defs elim!: slash_nominator_InrE)

text \<open>The totals that the loop keeps belong to a pool of which some shares have been taken out at its price.\<close>

lemma slash_nominators_totals:
  assumes "slash_nominators T i e price mx es st = Inr st'"
  shows "untouched (sl_state st) (sl_state st') \<and>
    (\<exists>xs. sl_total_shares st' + sum_list xs = sl_total_shares st \<and>
       sl_total_stake st' + sum_list (map (shares_to_stake T price) xs) = sl_total_stake st)"
  using assms
proof (induction es arbitrary: st)
  case Nil
  then show ?case by (auto intro: exI [of _ "[]"])
next
  case (Cons entry es)
  obtain who dep where entry: "entry = (who, dep)" by fastforce
  from Cons.prems obtain t where t: "slash_nominator T i e price entry st = Inr t"
    and rest: "(if mx \<le> sl_slashed_nominator_count t then Inr t else slash_nominators T i e price mx es t) = Inr st'"
    by (auto simp: and_then_Inr_iff)
  from t [unfolded entry] obtain n where n: "n \<le> sl_total_shares st" "shares_to_stake T price n \<le> sl_total_stake st"
    "sl_total_shares t = sl_total_shares st - n" "sl_total_stake t = sl_total_stake st - shares_to_stake T price n"
    by (rule slash_nominator_InrE)
  have "untouched (sl_state st) (sl_state t)" using postD [OF keep_slash_nominator t] .
  moreover have "untouched (sl_state t) (sl_state st') \<and>
    (\<exists>xs. sl_total_shares st' + sum_list xs = sl_total_shares t \<and>
       sl_total_stake st' + sum_list (map (shares_to_stake T price) xs) = sl_total_stake t)"
    using rest Cons.IH [of t] by (auto split: if_splits intro: exI [of _ "[]"])
  ultimately obtain xs where "untouched (sl_state st) (sl_state st')" "sl_total_shares st' + sum_list xs = sl_total_shares t"
    "sl_total_stake st' + sum_list (map (shares_to_stake T price) xs) = sl_total_stake t"
    using un.keeps_trans by blast
  with n show ?case by (intro conjI exI [of _ "n # xs"]) auto
qed

lemma keep_do_slash_operator:
  assumes laws: "perthing_laws T" "from_rational_rounds_down T"
  shows "post (do_slash_operator T d mx s) (\<lambda>r. staking_ok s (snd r))"
proof (cases "pending_slashes s d")
  case None
  then show ?thesis by (simp add: do_slash_operator_def post_simps)
next
  case (Some ids)
  show ?thesis
  proof (cases ids)
    case Nil
    with Some show ?thesis by (simp add: do_slash_operator_def post_simps staking_ok_def same_tree_def solvent_def)
  next
    case (Cons i rest)
    have pool: "post (slash_nominators T i e price mx es
        \<lparr>sl_total_shares = op_current_total_shares op, sl_total_stake = op_current_total_stake op,
         sl_total_storage_fee_deposit = op_total_storage_fee_deposit op, sl_slashed_nominator_count = 0, sl_state = s\<rparr>)
       (\<lambda>st. untouched s (sl_state st) \<and> sl_total_shares st \<le> sl_total_stake st)"
      if p: "SharePrice_new T (op_current_total_shares op) (op_current_total_stake op) = Inr price" for e price es op
    proof (rule postI, drule slash_nominators_totals, clarsimp)
      fix st xs
      assume *: "sl_total_shares st + sum_list xs = op_current_total_shares op"
        "sl_total_stake st + sum_list (map (shares_to_stake T price) xs) = op_current_total_stake op"
      from *(1) have "sum_list xs \<le> op_current_total_shares op" by linarith
      from shares_to_stake_rest_list [OF laws p this] * show "sl_total_shares st \<le> sl_total_stake st" by linarith
    qed
    have price: "post (SharePrice_new T sh st) (\<lambda>p. SharePrice_new T sh st = Inr p)" for sh st by (simp add: post_def)
    from Some Cons show ?thesis
      unfolding do_slash_operator_def
      by (auto simp: post_simps Let_def intro!: price [THEN post_mono] pool [THEN post_mono]
          keep_do_cleanup_operator [THEN post_mono])
        (auto simp: staking_ok_def frame_defs solvent_def put_operator_def split: if_splits)
  qed
qed

section \<open>Receipts\<close>

definition same_operators :: "'x domains \<Rightarrow> 'x domains \<Rightarrow> bool" where
  "same_operators s s' \<longleftrightarrow> operators s' = operators s"

interpretation ops: state_preorder same_operators
  by unfold_locales (auto simp: same_operators_def)

lemma keep_forget_submitted_er: "same_operators s (fold (forget_submitted_er d n) is s)"
  by (induction "is" arbitrary: s) (auto simp: forget_submitted_er_def same_operators_def)

lemma keep_prune_receipt: "post (prune_receipt d n s) (\<lambda>r. same_operators s (snd r))"
  by (auto simp: prune_receipt_def post_simps Let_def same_operators_def
      keep_forget_submitted_er [unfolded same_operators_def])

lemma keep_collect_bundle_authors:
  "collect_bundle_authors inboxed k bds st = Some st' \<Longrightarrow> untouched (bl_state st) (bl_state st')"
proof (induction bds arbitrary: k st)
  case (Cons bd bds)
  let ?s = "bl_state st"
  have step: "untouched ?s (?s\<lparr>inboxed_bundle_author := f\<rparr>)" for f by (simp add: frame_defs)
  from Cons.prems show ?case
    by (auto simp: Let_def split: option.splits if_splits dest!: Cons.IH intro: un.keeps_trans [OF step])
qed simp

lemma keep_on_chain_rewards: "untouched s (fold (\<lambda>(c, r). on_chain_rewards T c r) rs s)"
proof (induction rs arbitrary: s)
  case (Cons r rs)
  obtain c x where r: "r = (c, x)" by fastforce
  have "untouched s (on_chain_rewards T c x s)"
    by (auto simp: on_chain_rewards_def reward_domain_operators_def frame_defs Let_def split: chain_id.split)
  from un.keeps_trans [OF this Cons] show ?case by (simp add: r)
qed simp

lemma keep_update_domain_transfers: "post (update_domain_transfers T d tr fees s) (untouched s)"
proof -
  have loop: "post (try_fold (\<lambda>(c, a). with_ext () (f c a)) es t) (untouched t)" for f es and t :: "'a domains"
    by (rule un.post_loop) (auto simp: post_simps frame_defs split: prod.split)
  show ?thesis
    unfolding update_domain_transfers_def
    by (auto simp: Let_def post_simps intro!: loop [THEN post_mono]) (auto simp: frame_defs)
qed

lemma keep_confirm_receipt: "post (confirm_receipt T d n node s) (\<lambda>r. untouched s (snd r))"
  unfolding confirm_receipt_def update_domain_runtime_upgrade_records_def
  by (auto simp: Let_def post_simps split: option.split dest!: keep_collect_bundle_authors
      intro!: keep_update_domain_transfers [THEN post_mono] un.keeps_trans [OF _ keep_on_chain_rewards])
    (auto simp: frame_defs)

lemma keep_process_execution_receipt:
  "post (process_execution_receipt T d i er rt s) (\<lambda>r. same_operators s (snd r))"
  unfolding process_execution_receipt_def add_new_receipt_to_block_tree_def note_submitted_er_def
  by (auto simp: Let_def post_simps same_operators_def frame_defs split: accepted_receipt_type.split option.split
      intro!: keep_prune_receipt [THEN post_mono] keep_confirm_receipt [THEN post_mono])

section \<open>Calls\<close>

definition keeps_solvent :: "'x domains \<Rightarrow> 'x domains \<Rightarrow> bool" where
  "keeps_solvent s s' \<longleftrightarrow> (solvent s \<longrightarrow> solvent s')"

interpretation slv: state_preorder keeps_solvent
  by unfold_locales (auto simp: keeps_solvent_def)

lemma keeps_solventI:
  "staking_ok s s' \<Longrightarrow> keeps_solvent s s'"
  "untouched s s' \<Longrightarrow> keeps_solvent s s'"
  "same_operators s s' \<Longrightarrow> keeps_solvent s s'"
  by (auto simp: keeps_solvent_def staking_ok_def untouched_def same_operators_def solvent_def)

text \<open>The rules that the calls are composed with.\<close>

lemma call_rules:
  assumes "perthing_laws T" "from_rational_rounds_down T"
  shows "post (prune_receipt d n s) (\<lambda>r. keeps_solvent s (snd r))"
    and "post (process_execution_receipt T d i er rt s) (\<lambda>r. keeps_solvent s (snd r))"
    and "post (do_mark_operators_as_slashed ids reason s) (keeps_solvent s)"
    and "post (do_unmark_invalid_bundle_authors T d er s) (keeps_solvent s)"
    and "post (do_mark_invalid_bundle_authors T d er s) (keeps_solvent s)"
    and "post (refund_storage_fee T fee paid s) (keeps_solvent s)"
    and "post (do_reward_operators T d src ops r s) (keeps_solvent s)"
    and "post (do_slash_operator T d mx s) (\<lambda>r. keeps_solvent s (snd r))"
    and "post (do_finalize_domain_current_epoch T d s) (\<lambda>r. keeps_solvent s (snd r))"
    and "post (do_register_operator T who d a config s) (\<lambda>r. keeps_solvent s (snd r))"
    and "post (do_nominate_operator T i who a s) (keeps_solvent s)"
    and "post (do_deregister_operator T who i s) (\<lambda>r. keeps_solvent s (snd r))"
    and "post (do_withdraw_stake T i who a s) (\<lambda>r. keeps_solvent s (snd r))"
    and "post (do_unlock_funds T i who s) (\<lambda>r. keeps_solvent s (snd r))"
    and "post (do_unlock_nominator T i who s) (keeps_solvent s)"
    and "post (do_deactivate_operator T i s) (keeps_solvent s)"
    and "post (do_reactivate_operator T i s) (keeps_solvent s)"
    and "post (charge_bundle_storage_fee T i n s) (keeps_solvent s)"
  by (rule keep_prune_receipt [THEN post_mono] keep_process_execution_receipt [THEN post_mono]
      keep_do_mark_operators_as_slashed [THEN post_mono] keep_do_unmark_invalid_bundle_authors [THEN post_mono]
      keep_do_mark_invalid_bundle_authors [THEN post_mono] keep_refund_storage_fee [THEN post_mono]
      keep_do_reward_operators [THEN post_mono] keep_do_slash_operator [OF assms, THEN post_mono]
      keep_finalize_current_epoch [OF assms, THEN post_mono] keep_do_register_operator [OF assms(1), THEN post_mono]
      keep_do_nominate_operator [THEN post_mono] keep_do_deregister_operator [THEN post_mono]
      keep_do_withdraw_stake [THEN post_mono] keep_do_unlock_funds [THEN post_mono]
      keep_do_unlock_nominator [OF assms, THEN post_mono] keep_do_deactivate_operator [THEN post_mono]
      keep_do_reactivate_operator [THEN post_mono] keep_charge [THEN post_mono], erule keeps_solventI)+

text \<open>Updates that do not concern the pools.\<close>

lemma solvent_frame [simp]:
  "solvent (deposit_event e s) = solvent s"
  "solvent (append_execution_inbox d n m b s) = solvent s"
  "solvent (on_finalize s) = solvent s"
  "solvent (s\<lparr>head_domain_number := a1\<rparr>) = solvent s"
  "solvent (s\<lparr>head_receipt_number := a2\<rparr>) = solvent s"
  "solvent (s\<lparr>frozen_domains := a3\<rparr>) = solvent s"
  "solvent (s\<lparr>inboxed_bundle_author := a4\<rparr>) = solvent s"
  "solvent (s\<lparr>successful_bundles := a5\<rparr>) = solvent s"
  "solvent (s\<lparr>operator_bundle_slot := a6\<rparr>) = solvent s"
  "solvent (s\<lparr>operator_bundle_count_in_epoch := a7\<rparr>) = solvent s"
  "solvent (s\<lparr>ext := a8\<rparr>) = solvent s"
  by (simp_all add: solvent_def deposit_event_def append_execution_inbox_def on_finalize_def Let_def)

text \<open>The parts of the calls, then the calls.\<close>

lemma call_parts:
  assumes laws: "perthing_laws T" "from_rational_rounds_down T"
  shows "post (handle_bad_receipt T d h node s) (keeps_solvent s)"
    and "post (settle_confirmed_block T d info s) (keeps_solvent s)"
    and "post (slash_pending T d s) (keeps_solvent s)"
  unfolding handle_bad_receipt_def settle_confirmed_block_def slash_pending_def keeps_solvent_def
  by (auto simp: post_simps intro!: call_rules [OF laws, unfolded keeps_solvent_def, THEN post_mono])

lemma call_start_domain_block:
  assumes laws: "perthing_laws T" "from_rational_rounds_down T"
  shows "post (start_domain_block T d s) (keeps_solvent s)"
proof -
  have missed: "post (missed_domain_runtime_upgrade d s) (\<lambda>_. True)" by (simp add: post_def)
  show ?thesis
    unfolding start_domain_block_def keeps_solvent_def
    by (auto simp: post_simps
        intro!: missed [THEN post_mono] call_rules [OF laws, unfolded keeps_solvent_def, THEN post_mono])
qed

lemma call_accept_receipt:
  assumes laws: "perthing_laws T" "from_rational_rounds_down T"
  shows "post (accept_receipt T d i er s) (keeps_solvent s)"
  unfolding accept_receipt_def keeps_solvent_def
  by (auto simp: post_simps split: receipt_type.split option.split
      intro!: call_rules [OF laws, unfolded keeps_solvent_def, THEN post_mono]
        call_parts [OF laws, unfolded keeps_solvent_def, THEN post_mono])

lemma call_prune_bad_receipt:
  assumes laws: "perthing_laws T" "from_rational_rounds_down T"
  shows "post (prune_bad_receipt T d h s) (\<lambda>r. keeps_solvent s (snd r))"
  unfolding prune_bad_receipt_def keeps_solvent_def
  by (auto simp: post_simps Let_def intro!: call_rules [OF laws, unfolded keeps_solvent_def, THEN post_mono]
        call_parts [OF laws, unfolded keeps_solvent_def, THEN post_mono])

lemma call_submit_bundle:
  assumes laws: "perthing_laws T" "from_rational_rounds_down T"
  shows "post (submit_bundle T orig b s) (keeps_solvent s)"
  unfolding submit_bundle_def keeps_solvent_def
  by (cases orig; auto simp: post_simps Let_def intro!: call_parts [OF laws, unfolded keeps_solvent_def, THEN post_mono]
      call_accept_receipt [OF laws, unfolded keeps_solvent_def, THEN post_mono]
      call_start_domain_block [OF laws, unfolded keeps_solvent_def, THEN post_mono])

lemma keep_validate_submit_bundle: "validate_submit_bundle T b pd s = Inr t \<Longrightarrow> untouched s t"
  using postD [OF keep_charge] by (auto simp: validate_submit_bundle_def Let_def result_simps)

lemma keep_validate_singleton_receipt: "validate_singleton_receipt T r pd s = Inr t \<Longrightarrow> untouched s t"
  using postD [OF keep_charge] by (auto simp: validate_singleton_receipt_def Let_def result_simps)

text \<open>
  A step of the pallet: a bundle or a receipt that passes its checks before it is dispatched, a call of any
  other kind, the end of a block, or a change of the state of other pallets.
\<close>

inductive domains_step :: "'x config \<Rightarrow> 'x domains \<Rightarrow> 'x domains \<Rightarrow> bool" for T where
  bundle_step: "validate_submit_bundle T b True s = Inr t \<Longrightarrow> submit_bundle T ValidatedUnsigned b t = Inr s' \<Longrightarrow>
    domains_step T s s'"
| receipt_step: "validate_singleton_receipt T r True s = Inr t \<Longrightarrow> submit_receipt T ValidatedUnsigned r t = Inr s' \<Longrightarrow>
    domains_step T s s'"
| fraud_proof_step: "submit_fraud_proof T orig d h s = Inr s' \<Longrightarrow> domains_step T s s'"
| prune_step: "prune_domain_execution_receipt T orig d h s = Inr s' \<Longrightarrow> domains_step T s s'"
| register_step: "register_operator T orig d amount config s = Inr s' \<Longrightarrow> domains_step T s s'"
| nominate_step: "nominate_operator T orig i amount s = Inr s' \<Longrightarrow> domains_step T s s'"
| deregister_step: "deregister_operator T orig i s = Inr s' \<Longrightarrow> domains_step T s s'"
| withdraw_step: "withdraw_stake T orig i shares s = Inr s' \<Longrightarrow> domains_step T s s'"
| unlock_step: "unlock_funds T orig i s = Inr s' \<Longrightarrow> domains_step T s s'"
| leave_step: "unlock_nominator T orig i s = Inr s' \<Longrightarrow> domains_step T s s'"
| force_epoch_step: "force_staking_epoch_transition T orig d s = Inr s' \<Longrightarrow> domains_step T s s'"
| deactivate_step: "deactivate_operator T orig i s = Inr s' \<Longrightarrow> domains_step T s s'"
| reactivate_step: "reactivate_operator T orig i s = Inr s' \<Longrightarrow> domains_step T s s'"
| treasury_step: "transfer_treasury_funds T orig who amount s = Inr s' \<Longrightarrow> domains_step T s s'"
| freeze_step: "freeze_domain orig d s = Inr s' \<Longrightarrow> domains_step T s s'"
| unfreeze_step: "unfreeze_domain orig d s = Inr s' \<Longrightarrow> domains_step T s s'"
| end_block_step: "domains_step T s (on_finalize s)"
| other_pallets_step: "domains_step T s (s\<lparr>ext := x\<rparr>)"

lemma call_origins:
  "post (ensure_signed orig) (\<lambda>_. True)"
  "post (ensure_root orig) (\<lambda>_. True)"
  "post (ensure_domain_origin orig) (\<lambda>_. True)"
  by (simp_all add: post_def)

lemma call_others:
  assumes laws: "perthing_laws T" "from_rational_rounds_down T"
  shows "post (submit_receipt T orig r s) (keeps_solvent s)"
    and "post (submit_fraud_proof T orig d h s) (keeps_solvent s)"
    and "post (prune_domain_execution_receipt T orig d h s) (keeps_solvent s)"
    and "post (register_operator T orig d amount config s) (keeps_solvent s)"
    and "post (nominate_operator T orig i amount s) (keeps_solvent s)"
    and "post (deregister_operator T orig i s) (keeps_solvent s)"
    and "post (withdraw_stake T orig i amount s) (keeps_solvent s)"
    and "post (unlock_funds T orig i s) (keeps_solvent s)"
    and "post (unlock_nominator T orig i s) (keeps_solvent s)"
    and "post (force_staking_epoch_transition T orig d s) (keeps_solvent s)"
    and "post (deactivate_operator T orig i s) (keeps_solvent s)"
    and "post (reactivate_operator T orig i s) (keeps_solvent s)"
    and "post (transfer_treasury_funds T orig who amount s) (keeps_solvent s)"
    and "post (freeze_domain orig d s) (keeps_solvent s)"
    and "post (unfreeze_domain orig d s) (keeps_solvent s)"
  unfolding submit_receipt_def submit_fraud_proof_def prune_domain_execution_receipt_def register_operator_def
    nominate_operator_def deregister_operator_def withdraw_stake_def unlock_funds_def unlock_nominator_def
    force_staking_epoch_transition_def deactivate_operator_def reactivate_operator_def transfer_treasury_funds_def
    freeze_domain_def unfreeze_domain_def keeps_solvent_def
  by (auto simp: post_simps Let_def intro!: call_origins [THEN post_mono]
      call_rules [OF laws, unfolded keeps_solvent_def, THEN post_mono]
      call_accept_receipt [OF laws, unfolded keeps_solvent_def, THEN post_mono]
      call_prune_bad_receipt [OF laws, unfolded keeps_solvent_def, THEN post_mono]
      call_parts [OF laws, unfolded keeps_solvent_def, THEN post_mono])

lemma domains_step_solvent:
  assumes laws: "perthing_laws T" "from_rational_rounds_down T" and step: "domains_step T s s'"
  shows "keeps_solvent s s'"
  using step
proof cases
  case (bundle_step b t)
  then show ?thesis
    using keep_validate_submit_bundle [THEN keeps_solventI(2)] postD [OF call_submit_bundle [OF laws]]
    by (blast intro: slv.keeps_trans)
next
  case (receipt_step r t)
  then show ?thesis
    using keep_validate_singleton_receipt [THEN keeps_solventI(2)] postD [OF call_others(1) [OF laws]]
    by (blast intro: slv.keeps_trans)
next
  case (other_pallets_step x)
  then show ?thesis by (simp add: keeps_solvent_def)
next
  case end_block_step
  then show ?thesis by (simp add: keeps_solvent_def)
qed (erule call_others(2-) [OF laws, THEN postD])+

text \<open>The invariant, for a runtime whose number types keep their laws.\<close>

definition pools_solvent :: "'x config \<Rightarrow> 'x domains \<Rightarrow> bool" where
  "pools_solvent T s \<longleftrightarrow> (perthing_laws T \<and> from_rational_rounds_down T \<longrightarrow> solvent s)"

interpretation pools: invariant_system "domains_step T" "pools_solvent T" for T
  using domains_step_solvent by unfold_locales (auto simp: pools_solvent_def keeps_solvent_def)

section \<open>Property\<close>

text \<open>
  C1: Every pool is solvent in every state that the pallet can reach: starting without operators, whatever
  bundles, receipts, fraud proofs, registrations, nominations, withdrawals, epoch transitions and slashes
  follow, and in whatever order, no operator's pool ever has more shares than stake, so that a share is
  always worth at least one unit.
\<close>

theorem reachable_pools_solvent:
  assumes laws: "perthing_laws T" "from_rational_rounds_down T"
    and start: "operators s = Map.empty" and run: "(domains_step T)\<^sup>*\<^sup>* s s'" and op: "operators s' i = Some op"
  shows "op_current_total_shares op \<le> op_current_total_stake op"
proof -
  have "pools_solvent T s" using start by (simp add: pools_solvent_def solvent_def)
  from pools.run_inv [OF run this] laws op show ?thesis by (auto simp: pools_solvent_def solvent_def)
qed

theorem reachable_pools_solvent_witness:
  "\<exists>s' op. (domains_step reference_runtime)\<^sup>*\<^sup>* reference_state s' \<and> operators s' 0 = Some op \<and>
     op_current_total_shares op \<le> op_current_total_stake op"
proof -
  have "register_operator reference_runtime (Signed 1) 0 1000 reference_operator_config reference_state
      = Inr (deposit_event (OperatorRegistered 0 0) registered_state)"
    by (simp add: register_operator_def registered_state_reached [simplified])
  then have "(domains_step reference_runtime)\<^sup>*\<^sup>* reference_state (deposit_event (OperatorRegistered 0 0) registered_state)"
    by (intro r_into_rtranclp register_step)
  moreover have "operators (deposit_event (OperatorRegistered 0 0) registered_state) 0 = Some registered_operator"
    by (simp add: deposit_event_def registered_state_def)
  moreover have "operators reference_state = Map.empty" by (simp add: reference_state_def)
  ultimately show ?thesis using reachable_pools_solvent [OF reference_laws(1,2)] by blast
qed

end
