(* ===== verification/Receipt_Chain.thy ===== *)
theory Receipt_Chain
  imports Pool_Invariant
begin

text \<open>
  The block tree as an abstract chain: what the pallet promises about the receipts of a domain is that they
  form a single chain, extended only at its head by a receipt that names the head as its parent, cut off
  at its far end by the pruning of confirmed receipts, and cut back to the parent of a bad receipt. The
  detailed operations on \<open>BlockTree\<close>, \<open>HeadReceiptNumber\<close> and the nodes implement this specification.
\<close>

section \<open>The specification\<close>

record receipt_chain =
  rc_head :: domain_block_number
  rc_receipts :: "domain_block_number \<rightharpoonup> hash"

definition extend_chain :: "domain_block_number \<Rightarrow> hash \<Rightarrow> receipt_chain \<Rightarrow> receipt_chain" where
  "extend_chain depth h c =
     (let n = Suc (rc_head c); m = (rc_receipts c)(n \<mapsto> h)
      in \<lparr>rc_head = n, rc_receipts = (if depth \<le> n then m(n - depth := None) else m)\<rparr>)"

definition revert_chain :: "domain_block_number \<Rightarrow> receipt_chain \<Rightarrow> receipt_chain" where
  "revert_chain n c = \<lparr>rc_head = n - 1, rc_receipts = rc_receipts c |` {..<n}\<rparr>"

inductive chain_step :: "domain_block_number \<Rightarrow> receipt_chain \<Rightarrow> receipt_chain \<Rightarrow> bool" for depth where
  extend: "rc_receipts c (rc_head c) = Some parent \<Longrightarrow> chain_step depth c (extend_chain depth h c)"
| revert: "n \<le> rc_head c \<Longrightarrow> chain_step depth c (revert_chain n c)"
| stay: "chain_step depth c c"

text \<open>Receipts that wait for confirmation fit a window of the pruning depth below the head.\<close>

definition chain_window :: "domain_block_number \<Rightarrow> receipt_chain \<Rightarrow> bool" where
  "chain_window depth c \<longleftrightarrow> dom (rc_receipts c) \<subseteq> {n. n \<le> rc_head c \<and> rc_head c < n + depth}"

lemma chain_step_window: "chain_step depth c c' \<Longrightarrow> chain_window depth c \<Longrightarrow> chain_window depth c'"
proof (induction rule: chain_step.induct)
  case (extend c parent h)
  then show ?case
    by (auto simp: chain_window_def extend_chain_def Let_def dom_def split: if_splits)
next
  case (revert n c)
  then show ?case by (fastforce simp: chain_window_def revert_chain_def restrict_map_def dom_def split: if_splits)
qed

interpretation window: invariant_system "chain_step depth" "chain_window depth" for depth
  by unfold_locales (rule chain_step_window)

section \<open>The implementation\<close>

definition chain_of :: "domain_id \<Rightarrow> 'x domains \<Rightarrow> receipt_chain" where
  "chain_of d s =
     \<lparr>rc_head = head_receipt_number s d,
      rc_receipts = (\<lambda>n. if n \<le> head_receipt_number s d then block_tree s d n else None)\<rparr>"

definition same_chain :: "'x domains \<Rightarrow> 'x domains \<Rightarrow> bool" where
  "same_chain s s' \<longleftrightarrow> block_tree s' = block_tree s \<and> head_receipt_number s' = head_receipt_number s"

lemma same_chainI:
  "same_tree s s' \<Longrightarrow> same_chain s s'"
  "untouched s s' \<Longrightarrow> same_chain s s'"
  "staking_ok s s' \<Longrightarrow> same_chain s s'"
  by (auto simp: same_chain_def same_tree_def untouched_def staking_ok_def)

lemma same_chain_of: "same_chain s s' \<Longrightarrow> chain_of d s' = chain_of d s"
  by (auto simp: same_chain_def chain_of_def)

lemma tree_forget_submitted_er:
  "block_tree (fold (forget_submitted_er d n) is s) = block_tree s"
  "head_receipt_number (fold (forget_submitted_er d n) is s) = head_receipt_number s"
  by (induction "is" arbitrary: s) (auto simp: forget_submitted_er_def)

lemma tree_prune_receipt:
  "post (prune_receipt d n s) (\<lambda>r. block_tree (snd r) = (block_tree s)(d := (block_tree s d)(n := None)) \<and>
     head_receipt_number (snd r) = head_receipt_number s)"
  by (auto simp: prune_receipt_def post_simps Let_def tree_forget_submitted_er fun_upd_idem)

lemma tree_handle_bad_receipt: "post (handle_bad_receipt T d h node s) (same_chain s)"
  unfolding handle_bad_receipt_def
  by (auto simp: post_simps same_chain_def staking_ok_def same_tree_def
      intro!: keep_do_mark_operators_as_slashed [THEN post_mono] keep_do_unmark_invalid_bundle_authors [THEN post_mono])

lemma tree_settle: "post (settle_confirmed_block T d info s) (same_chain s)"
  unfolding settle_confirmed_block_def
  by (auto simp: post_simps same_chain_def staking_ok_def same_tree_def untouched_def
      intro!: keep_do_mark_operators_as_slashed [THEN post_mono] keep_refund_storage_fee [THEN post_mono]
        keep_do_reward_operators [THEN post_mono])

lemma tree_mark_invalid: "post (do_mark_invalid_bundle_authors T d er s) (same_chain s)"
  by (rule keep_do_mark_invalid_bundle_authors [THEN post_mono]) (rule same_chainI)

lemma tree_process_new_head:
  "post (process_execution_receipt T d i er NewHead s) (\<lambda>r.
     block_tree (snd r) = (block_tree s)(d :=
       (let n = er_domain_block_number er; m = (block_tree s d)(n \<mapsto> er_hash T er)
        in if BlockTreePruningDepth T \<le> n then m(n - BlockTreePruningDepth T := None) else m)) \<and>
     head_receipt_number (snd r) = (head_receipt_number s)(d := er_domain_block_number er))"
  unfolding process_execution_receipt_def add_new_receipt_to_block_tree_def note_submitted_er_def
  by (auto simp: Let_def post_simps checked_sub_def frame_defs split: option.split
      intro!: tree_prune_receipt [THEN post_mono] keep_confirm_receipt [THEN post_mono])

lemma tree_process_current_head: "post (process_execution_receipt T d i er CurrentHead s) (\<lambda>r. same_chain s (snd r))"
  unfolding process_execution_receipt_def note_submitted_er_def
  by (auto simp: Let_def post_simps same_chain_def)

text \<open>An accepted receipt extends the chain or confirms its head.\<close>

lemma accept_receipt_chain:
  assumes ok: "accept_receipt T d i er s = Inr s'" and head: "head_receipt_number s d + 1 < 2 ^ 32"
    and depth: "0 < BlockTreePruningDepth T"
  shows "(execution_receipt_type T d er s = Accepted NewHead \<and>
      chain_of d s' = extend_chain (BlockTreePruningDepth T) (er_hash T er) (chain_of d s) \<or>
      execution_receipt_type T d er s = Accepted CurrentHead \<and> chain_of d s' = chain_of d s) \<and>
    (\<forall>d'. d' \<noteq> d \<longrightarrow> chain_of d' s' = chain_of d' s)"
proof (cases "execution_receipt_type T d er s")
  case (Rejected r)
  with ok show ?thesis by (simp add: accept_receipt_def)
next
  case (Accepted rt)
  show ?thesis
  proof (cases rt)
    case NewHead
    with Accepted have n: "er_domain_block_number er = Suc (head_receipt_number s d)"
      using head by (auto simp: execution_receipt_type_def Let_def saturating_add_def max_of_def split: if_splits)
    let ?n = "er_domain_block_number er" and ?depth = "BlockTreePruningDepth T"
    have "post (accept_receipt T d i er s) (\<lambda>s'. block_tree s' = (block_tree s)(d :=
         (let m = (block_tree s d)(?n \<mapsto> er_hash T er) in if ?depth \<le> ?n then m(?n - ?depth := None) else m)) \<and>
       head_receipt_number s' = (head_receipt_number s)(d := ?n))"
      unfolding accept_receipt_def
      by (auto simp: Accepted NewHead post_simps Let_def same_chain_def split: option.split
          intro!: tree_prune_receipt [THEN post_mono] tree_handle_bad_receipt [THEN post_mono]
            tree_mark_invalid [THEN post_mono] tree_process_new_head [THEN post_mono]
            tree_settle [THEN post_mono])
    from postD [OF this ok] depth show ?thesis
      by (auto simp: Accepted NewHead chain_of_def extend_chain_def n Let_def fun_eq_iff)
  next
    case CurrentHead
    have "post (accept_receipt T d i er s) (same_chain s)"
      unfolding accept_receipt_def
      by (auto simp: Accepted CurrentHead post_simps same_chain_def split: option.split
          intro!: tree_process_current_head [THEN post_mono] tree_settle [THEN post_mono])
    from same_chain_of [OF postD [OF this ok]] show ?thesis by (simp add: Accepted CurrentHead)
  qed
qed

text \<open>A receipt that is proven bad cuts the chain back to its parent.\<close>

lemma prune_bad_receipt_chain:
  assumes ok: "prune_bad_receipt T d h s = Inr (n', s')"
  shows "\<exists>n \<le> head_receipt_number s d. chain_of d s' = revert_chain n (chain_of d s) \<and> n' = n - 1 \<and>
    (\<forall>d'. d' \<noteq> d \<longrightarrow> chain_of d' s' = chain_of d' s)"
proof -
  have "post (prune_bad_receipt T d h s) (\<lambda>(n', s'). \<exists>n \<le> head_receipt_number s d.
      block_tree s' = (block_tree s)(d := (block_tree s d)(n := None)) \<and>
      head_receipt_number s' = (head_receipt_number s)(d := n - 1) \<and> n' = n - 1)"
    unfolding prune_bad_receipt_def
    by (auto simp: post_simps Let_def same_chain_def saturating_sub_eq
        intro!: tree_prune_receipt [THEN post_mono] tree_handle_bad_receipt [THEN post_mono])
  from postD [OF this ok] obtain n where "n \<le> head_receipt_number s d" "n' = n - 1"
    "block_tree s' = (block_tree s)(d := (block_tree s d)(n := None))"
    "head_receipt_number s' = (head_receipt_number s)(d := n - 1)" by auto
  then show ?thesis
    by (intro exI [of _ n]) (auto simp: chain_of_def revert_chain_def restrict_map_def fun_eq_iff)
qed

section \<open>The other operations leave the chain alone\<close>

lemma tree_slash_pending:
  assumes laws: "perthing_laws T" "from_rational_rounds_down T"
  shows "post (slash_pending T d s) (same_chain s)"
  unfolding slash_pending_def
  by (auto simp: post_simps intro!: keep_do_slash_operator [OF laws, THEN post_mono] same_chainI(3))

lemma tree_start_domain_block:
  assumes laws: "perthing_laws T" "from_rational_rounds_down T"
  shows "post (start_domain_block T d s) (same_chain s)"
proof -
  have missed: "post (missed_domain_runtime_upgrade d s) (\<lambda>_. True)" by (simp add: post_def)
  show ?thesis
    unfolding start_domain_block_def
    by (auto simp: post_simps same_chain_def staking_ok_def same_tree_def deposit_event_def
        intro!: missed [THEN post_mono] keep_finalize_current_epoch [OF laws, THEN post_mono])
qed

lemma tree_staking_calls:
  assumes laws: "perthing_laws T" "from_rational_rounds_down T"
  shows "post (register_operator T orig d amount config s) (same_chain s)"
    and "post (nominate_operator T orig i amount s) (same_chain s)"
    and "post (deregister_operator T orig i s) (same_chain s)"
    and "post (withdraw_stake T orig i amount s) (same_chain s)"
    and "post (unlock_funds T orig i s) (same_chain s)"
    and "post (unlock_nominator T orig i s) (same_chain s)"
    and "post (force_staking_epoch_transition T orig d s) (same_chain s)"
    and "post (deactivate_operator T orig i s) (same_chain s)"
    and "post (reactivate_operator T orig i s) (same_chain s)"
    and "post (transfer_treasury_funds T orig who amount s) (same_chain s)"
    and "post (freeze_domain orig d s) (same_chain s)"
    and "post (unfreeze_domain orig d s) (same_chain s)"
  unfolding register_operator_def nominate_operator_def deregister_operator_def withdraw_stake_def unlock_funds_def
    unlock_nominator_def force_staking_epoch_transition_def deactivate_operator_def reactivate_operator_def
    transfer_treasury_funds_def freeze_domain_def unfreeze_domain_def
  by (auto simp: post_simps Let_def same_chain_def staking_ok_def same_tree_def deposit_event_def
      intro!: call_origins [THEN post_mono] keep_finalize_current_epoch [OF laws, THEN post_mono]
        keep_do_register_operator [OF laws(1), THEN post_mono] keep_do_nominate_operator [THEN post_mono]
        keep_do_deregister_operator [THEN post_mono] keep_do_withdraw_stake [THEN post_mono]
        keep_do_unlock_funds [THEN post_mono] keep_do_unlock_nominator [OF laws, THEN post_mono]
        keep_do_deactivate_operator [THEN post_mono] keep_do_reactivate_operator [THEN post_mono])

section \<open>The simulation\<close>

text \<open>A receipt that passes the checks and is accepted as a new head names the head of the chain as its parent.\<close>

lemma verified_receipt_parent:
  assumes "verify_execution_receipt T d er s = Inr ()" and "execution_receipt_type T d er s = Accepted NewHead"
    and "head_receipt_number s d + 1 < 2 ^ 32"
  shows "rc_receipts (chain_of d s) (rc_head (chain_of d s)) = Some (er_parent_domain_block_receipt_hash er)"
proof -
  from assms(2,3) have n: "er_domain_block_number er = Suc (head_receipt_number s d)" "new_added_head_receipt s d = None"
    by (auto simp: execution_receipt_type_def Let_def saturating_add_def max_of_def split: if_splits)
  with assms(1,2) have "does_receipt_exists d (head_receipt_number s d) (er_parent_domain_block_receipt_hash er) s"
    by (auto simp: verify_execution_receipt_def Let_def and_then_Inr_iff ensure_Inr_iff checked_sub_def split: if_splits)
  then show ?thesis by (auto simp: does_receipt_exists_def chain_of_def split: option.splits)
qed

lemma validated_receipt:
  "validate_submit_bundle T b pd s = Inr t \<Longrightarrow>
     verify_execution_receipt T (poe_domain_id (bh_proof_of_election (ob_header b))) (bh_receipt (ob_header b)) t = Inr ()"
  "validate_singleton_receipt T r pd s = Inr t \<Longrightarrow>
     verify_execution_receipt T (poe_domain_id (sr_proof_of_election r)) (sr_receipt r) t = Inr ()"
  by (auto simp: validate_submit_bundle_def validate_singleton_receipt_def Let_def result_simps)

lemma execution_receipt_type_frame [simp]:
  "execution_receipt_type T d er (s\<lparr>operator_bundle_count_in_epoch := f\<rparr>) = execution_receipt_type T d er s"
  by (simp add: execution_receipt_type_def latest_confirmed_domain_block_number_def does_receipt_exists_def Let_def)

lemma submit_bundle_accepts:
  assumes laws: "perthing_laws T" "from_rational_rounds_down T" and ok: "submit_bundle T orig b s = Inr s'"
  obtains f t where "accept_receipt T (poe_domain_id (bh_proof_of_election (ob_header b)))
      (poe_operator_id (bh_proof_of_election (ob_header b))) (bh_receipt (ob_header b))
      (s\<lparr>operator_bundle_count_in_epoch := f\<rparr>) = Inr t" "same_chain t s'"
proof -
  let ?d = "poe_domain_id (bh_proof_of_election (ob_header b))" and ?i = "poe_operator_id (bh_proof_of_election (ob_header b))"
  let ?s = "s\<lparr>operator_bundle_count_in_epoch := (operator_bundle_count_in_epoch s)
      (?i \<mapsto> saturating_add 64 (case_option 0 (\<lambda>c. c) (operator_bundle_count_in_epoch s ?i)) 1)\<rparr>"
  from ok obtain t where t: "accept_receipt T ?d ?i (bh_receipt (ob_header b)) ?s = Inr t"
    by (auto simp: submit_bundle_def Let_def result_simps)
  have "post (submit_bundle T orig b s) (same_chain t)"
    unfolding submit_bundle_def
    by (auto simp: post_simps Let_def t [simplified] intro!: call_origins [THEN post_mono])
      (auto simp: post_simps same_chain_def append_execution_inbox_def deposit_event_def Let_def
        intro!: tree_start_domain_block [OF laws, unfolded same_chain_def, THEN post_mono]
          tree_slash_pending [OF laws, unfolded same_chain_def, THEN post_mono])
  from that [OF t postD [OF this ok]] show ?thesis .
qed

lemma accept_verified_receipt:
  assumes ok: "accept_receipt T d' i er s = Inr s'" and "head_receipt_number s d' + 1 < 2 ^ 32"
    and "0 < BlockTreePruningDepth T" and "verify_execution_receipt T d' er t = Inr ()" "untouched t s"
    "execution_receipt_type T d' er s = execution_receipt_type T d' er t"
  shows "chain_step (BlockTreePruningDepth T) (chain_of d s) (chain_of d s')"
proof (cases "d = d' \<and> execution_receipt_type T d' er s = Accepted NewHead")
  case True
  then have d: "d = d'" and new: "execution_receipt_type T d' er t = Accepted NewHead"
    "execution_receipt_type T d' er s = Accepted NewHead" using assms(6) by auto
  have "head_receipt_number t d' + 1 < 2 ^ 32" using assms(2,5) by (simp add: untouched_def same_tree_def)
  from verified_receipt_parent [OF assms(4) new(1) this]
  have "rc_receipts (chain_of d s) (rc_head (chain_of d s)) = Some (er_parent_domain_block_receipt_hash er)"
    unfolding d same_chain_of [OF same_chainI(2) [OF assms(5)], symmetric] .
  from extend [OF this, of "BlockTreePruningDepth T" "er_hash T er"] accept_receipt_chain [OF assms(1-3)] new(2)
  show ?thesis by (simp add: d)
next
  case False
  with accept_receipt_chain [OF assms(1-3)] have "chain_of d s' = chain_of d s" by (cases "d = d'") auto
  then show ?thesis by (simp add: stay)
qed

lemma same_chain_step: "same_chain s s' \<Longrightarrow> chain_step depth (chain_of d s) (chain_of d s')"
  using same_chain_of [of s s' d] by (simp add: stay)

lemma prune_bad_receipt_step:
  assumes "prune_bad_receipt T d' h s = Inr (n, t)" and "same_chain t s'"
  shows "chain_step depth (chain_of d s) (chain_of d s')"
proof (cases "d = d'")
  case True
  from prune_bad_receipt_chain [OF assms(1)] obtain k where "k \<le> head_receipt_number s d'"
    and k: "chain_of d' t = revert_chain k (chain_of d' s)" by auto
  then have "k \<le> rc_head (chain_of d' s)" by (simp add: chain_of_def)
  from revert [OF this] k show ?thesis by (simp add: True same_chain_of [OF assms(2)])
next
  case False
  with prune_bad_receipt_chain [OF assms(1)] have "chain_of d t = chain_of d s" by blast
  then show ?thesis by (simp add: same_chain_of [OF assms(2)] stay)
qed

lemma block_tree_refinement:
  assumes laws: "perthing_laws T" "from_rational_rounds_down T" and depth: "0 < BlockTreePruningDepth T"
    and step: "domains_step T s s'" and heads: "\<And>d. head_receipt_number s d + 1 < 2 ^ 32"
  shows "chain_step (BlockTreePruningDepth T) (chain_of d s) (chain_of d s')"
  using step
proof cases
  case (bundle_step b t)
  let ?d = "poe_domain_id (bh_proof_of_election (ob_header b))"
  have st: "untouched s t" by (rule keep_validate_submit_bundle [OF bundle_step(1)])
  obtain f u where u: "accept_receipt T ?d (poe_operator_id (bh_proof_of_election (ob_header b))) (bh_receipt (ob_header b))
      (t\<lparr>operator_bundle_count_in_epoch := f\<rparr>) = Inr u" "same_chain u s'"
    by (rule submit_bundle_accepts [OF laws bundle_step(2)])
  have "chain_step (BlockTreePruningDepth T) (chain_of d (t\<lparr>operator_bundle_count_in_epoch := f\<rparr>)) (chain_of d u)"
    using heads [of ?d] st by (intro accept_verified_receipt [OF u(1) _ depth validated_receipt(1) [OF bundle_step(1)]])
      (auto simp: untouched_def same_tree_def)
  moreover have "chain_of d (t\<lparr>operator_bundle_count_in_epoch := f\<rparr>) = chain_of d s"
    using same_chain_of [OF same_chainI(2) [OF st], of d]
      same_chain_of [of t "t\<lparr>operator_bundle_count_in_epoch := f\<rparr>" d] by (simp add: same_chain_def)
  ultimately show ?thesis by (simp add: same_chain_of [OF u(2)])
next
  case (receipt_step r t)
  let ?d = "poe_domain_id (sr_proof_of_election r)"
  have st: "untouched s t" by (rule keep_validate_singleton_receipt [OF receipt_step(1)])
  from receipt_step(2) obtain u where u: "accept_receipt T ?d (poe_operator_id (sr_proof_of_election r)) (sr_receipt r) t = Inr u"
    "slash_pending T ?d u = Inr s'"
    by (auto simp: submit_receipt_def Let_def and_then_Inr_iff)
  have "chain_step (BlockTreePruningDepth T) (chain_of d t) (chain_of d u)"
    using heads [of ?d] st by (intro accept_verified_receipt [OF u(1) _ depth validated_receipt(2) [OF receipt_step(1)]])
      (auto simp: untouched_def same_tree_def)
  then show ?thesis
    by (simp add: same_chain_of [OF same_chainI(2) [OF st]] same_chain_of [OF postD [OF tree_slash_pending [OF laws] u(2)]])
next
  case (fraud_proof_step orig d' h)
  then obtain n t where t: "prune_bad_receipt T d' h s = Inr (n, t)" "same_chain t s'"
    by (auto simp: submit_fraud_proof_def result_simps same_chain_def deposit_event_def)
  then show ?thesis by (rule prune_bad_receipt_step)
next
  case (prune_step orig d' h)
  then obtain n t where t: "prune_bad_receipt T d' h s = Inr (n, t)" "same_chain t s'"
    by (auto simp: prune_domain_execution_receipt_def result_simps same_chain_def deposit_event_def)
  then show ?thesis by (rule prune_bad_receipt_step)
next
  case end_block_step
  then show ?thesis by (intro same_chain_step) (simp add: same_chain_def on_finalize_def)
next
  case (other_pallets_step x)
  then show ?thesis by (intro same_chain_step) (simp add: same_chain_def)
qed (rule same_chain_step, erule tree_staking_calls [OF laws, THEN postD])+

section \<open>Properties\<close>


text \<open>A domain whose head receipt an operator has submitted.\<close>

definition chain_receipt :: "domain_block_number \<Rightarrow> hash \<Rightarrow> execution_receipt" where
  "chain_receipt n root =
     \<lparr>er_domain_block_number = n, er_domain_block_hash = 0, er_domain_block_extrinsic_root = 0,
      er_parent_domain_block_receipt_hash = 0, er_consensus_block_number = n, er_consensus_block_hash = 0,
      er_inboxed_bundles = [], er_final_state_root = root, er_execution_trace = [], er_execution_trace_root = 0,
      er_block_fees = \<lparr>bf_consensus_storage_fee = 0, bf_domain_execution_fee = 0, bf_burned_balance = 0,
        bf_chain_rewards = []\<rparr>,
      er_transfers = \<lparr>tr_transfers_in = [], tr_transfers_out = [],
        tr_rejected_transfers_claimed = [], tr_transfers_rejected = []\<rparr>\<rparr>"

definition chain_example :: "ledger domains" where
  "chain_example = registered_state
    \<lparr>block_tree := (\<lambda>d. Map.empty)(0 := [0 \<mapsto> 7, 1 \<mapsto> 100008]),
     block_tree_nodes := [7 \<mapsto> \<lparr>btn_execution_receipt = chain_receipt 0 7, btn_operator_ids = []\<rparr>,
       100008 \<mapsto> \<lparr>btn_execution_receipt = chain_receipt 1 8, btn_operator_ids = [0]\<rparr>],
     head_receipt_number := (\<lambda>d. 0)(0 := 1)\<rparr>"

lemmas [eval_defs] = chain_receipt_def chain_example_def handle_bad_receipt_def prune_receipt_def
  forget_submitted_er_def prune_bad_receipt_def submit_fraud_proof_def


text \<open>
  C9: At most the pruning depth of receipts of a domain wait for confirmation. In every state that the pallet
  reaches from one in which it holds, every receipt of the chain is within the pruning depth below the head.
\<close>

theorem unconfirmed_receipts_bounded:
  assumes laws: "perthing_laws T" "from_rational_rounds_down T" and depth: "0 < BlockTreePruningDepth T"
    and start: "chain_window (BlockTreePruningDepth T) (chain_of d s)"
    and run: "(\<lambda>s s'. domains_step T s s' \<and> (\<forall>d. head_receipt_number s d + 1 < 2 ^ 32))\<^sup>*\<^sup>* s s'"
  shows "card (dom (rc_receipts (chain_of d s'))) \<le> BlockTreePruningDepth T"
proof -
  from run have "(chain_step (BlockTreePruningDepth T))\<^sup>*\<^sup>* (chain_of d s) (chain_of d s')"
  proof (induction rule: rtranclp_induct)
    case (step t u)
    from step.hyps(2) have "chain_step (BlockTreePruningDepth T) (chain_of d t) (chain_of d u)"
      using block_tree_refinement [OF laws depth] by blast
    with step.IH show ?case by (rule rtranclp.rtrancl_into_rtrancl)
  qed simp
  from window.run_inv [OF this start] have "dom (rc_receipts (chain_of d s'))
      \<subseteq> {Suc (rc_head (chain_of d s')) - BlockTreePruningDepth T ..< Suc (rc_head (chain_of d s'))}"
    by (auto simp: chain_window_def)
  from card_mono [OF _ this] show ?thesis by simp
qed

theorem unconfirmed_receipts_bounded_witness:
  "\<exists>s'. domains_step reference_runtime chain_example s' \<and> card (dom (rc_receipts (chain_of 0 s'))) \<le> 2"
proof -
  have step: "domains_step reference_runtime chain_example (on_finalize chain_example)" by (rule end_block_step)
  have depth: "BlockTreePruningDepth reference_runtime = 2" by (simp add: reference_runtime_def)
  have "chain_window 2 (chain_of 0 chain_example)"
    by (auto simp: chain_window_def chain_of_def chain_example_def split: if_splits)
  moreover have "(\<lambda>s s'. domains_step reference_runtime s s' \<and> (\<forall>d. head_receipt_number s d + 1 < 2 ^ 32))\<^sup>*\<^sup>*
      chain_example (on_finalize chain_example)"
    using step by (intro r_into_rtranclp) (simp add: chain_example_def)
  ultimately show ?thesis
    using unconfirmed_receipts_bounded [OF reference_laws(1,2), of 0 chain_example "on_finalize chain_example"] step depth
    by auto
qed

end
