(* ===== verification/Call_Safety.thy ===== *)
theory Call_Safety
  imports Receipt_Chain
begin

text \<open>
  Safety of the calls that carry bundles, receipts and fraud proofs: an operator cannot have two bundles of the
  same slot in a block, a frozen domain accepts nothing, and a fraud proof slashes everyone who submitted the bad
  receipt.
\<close>

section \<open>Equivocation\<close>

definition same_slots :: "'x domains \<Rightarrow> 'x domains \<Rightarrow> bool" where
  "same_slots s s' \<longleftrightarrow> operator_bundle_slot s' = operator_bundle_slot s"

interpretation slots: state_preorder same_slots
  by unfold_locales (auto simp: same_slots_def)






lemma validated_eligible:
  assumes "validate_eligibility T h sig poe cfg pd s = Inr ()"
  shows "poe_slot_number poe \<notin> set (operator_bundle_slot s (poe_operator_id poe))"
    and "poe_domain_id poe \<notin> set (frozen_domains s)"
    and "\<exists>op. operators s (poe_operator_id poe) = Some op \<and> can_operator_submit_bundle op (poe_operator_id poe) s"
  using assms by (auto simp: validate_eligibility_def Let_def result_simps)

lemma charge_frame:
  assumes "charge_bundle_storage_fee T i n s = Inr t"
  shows "operator_bundle_slot t = operator_bundle_slot s" "frozen_domains t = frozen_domains s" "operators t = operators s"
  using assms by (auto simp: charge_bundle_storage_fee_def Let_def result_simps split: if_splits)

lemma validated_bundle:
  assumes "validate_submit_bundle T b pd s = Inr t"
  shows "poe_slot_number (bh_proof_of_election (ob_header b))
      \<notin> set (operator_bundle_slot s (poe_operator_id (bh_proof_of_election (ob_header b))))"
    and "poe_domain_id (bh_proof_of_election (ob_header b)) \<notin> set (frozen_domains s)"
proof -
  from assms obtain cfg h sig n where e: "validate_eligibility T h sig (bh_proof_of_election (ob_header b)) cfg pd t = Inr ()"
    and c: "charge_bundle_storage_fee T (poe_operator_id (bh_proof_of_election (ob_header b))) n s = Inr t"
    by (auto simp: validate_submit_bundle_def Let_def result_simps)
  from validated_eligible(1,2) [OF e] charge_frame [OF c] show "poe_slot_number (bh_proof_of_election (ob_header b))
      \<notin> set (operator_bundle_slot s (poe_operator_id (bh_proof_of_election (ob_header b))))"
    "poe_domain_id (bh_proof_of_election (ob_header b)) \<notin> set (frozen_domains s)" by simp_all
qed

lemma validated_singleton_receipt:
  assumes "validate_singleton_receipt T r pd s = Inr t"
  shows "poe_domain_id (sr_proof_of_election r) \<notin> set (frozen_domains s)"
proof -
  from assms obtain cfg h sig n where e: "validate_eligibility T h sig (sr_proof_of_election r) cfg pd t = Inr ()"
    and c: "charge_bundle_storage_fee T (poe_operator_id (sr_proof_of_election r)) n s = Inr t"
    by (auto simp: validate_singleton_receipt_def Let_def result_simps)
  from validated_eligible(2) [OF e] charge_frame [OF c] show ?thesis by simp
qed

section \<open>Slashing the submitters of a bad receipt\<close>

lemma pending_unmark:
  assumes "do_unmark_invalid_bundle_authors T d er s = Inr s'"
  shows "is_pending_slash s i \<Longrightarrow> is_pending_slash s' i"
proof -
  let ?P = "\<lambda>st. is_pending_slash s i \<longrightarrow> is_pending_slash (snd (snd st)) i"
  have loop: "post (try_fold (\<lambda>j st. if C j then Inr st else unmark_invalid_bundle_author j h st) ids st) ?P"
    if "?P st" for C h ids st
    using that
    by (rule post_try_fold)
      (auto simp: post_simps unmark_invalid_bundle_author_def is_pending_slash_def put_operator_def get_pending_slashes_def
        split: prod.split option.splits)
  have "post (do_unmark_invalid_bundle_authors T d er s) (\<lambda>s'. is_pending_slash s i \<longrightarrow> is_pending_slash s' i)"
    unfolding do_unmark_invalid_bundle_authors_def
    by (auto simp: post_simps Let_def store_invalid_bundle_authors_def put_summary_def is_pending_slash_def
        get_pending_slashes_def split: prod.split option.splits intro!: loop [THEN post_mono])
  from postD [OF this assms] show "is_pending_slash s i \<Longrightarrow> is_pending_slash s' i" by simp
qed

section \<open>A concrete bundle\<close>




section \<open>Properties\<close>



text \<open>
  C38: A frozen domain accepts nothing: no bundle and no receipt of the domain passes its checks, neither before
  nor at its dispatch, until the domain is unfrozen, which leaves the other domains as they were.
\<close>

theorem frozen_domain_rejects:
  assumes "freeze_domain orig d s = Inr s'" and "d \<notin> set (frozen_domains s)"
  shows "(\<forall>b pre_dispatch t. poe_domain_id (bh_proof_of_election (ob_header b)) = d \<longrightarrow>
      validate_submit_bundle T b pre_dispatch s' \<noteq> Inr t) \<and>
    (\<forall>r pre_dispatch t. poe_domain_id (sr_proof_of_election r) = d \<longrightarrow>
      validate_singleton_receipt T r pre_dispatch s' \<noteq> Inr t) \<and>
    (\<exists>s''. unfreeze_domain Root d s' = Inr s'' \<and> frozen_domains s'' = frozen_domains s)"
proof -
  from assms(1) have s': "s' = deposit_event (DomainFrozen d) (s\<lparr>frozen_domains := os_insert d (frozen_domains s)\<rparr>)"
    by (auto simp: freeze_domain_def result_simps)
  then have frozen: "frozen_domains s' = os_insert d (frozen_domains s)" by (simp add: deposit_event_def)
  moreover have "\<exists>s''. unfreeze_domain Root d s' = Inr s'' \<and> frozen_domains s'' = frozen_domains s"
    using os_remove_insert [OF assms(2)] by (simp add: unfreeze_domain_def deposit_event_def frozen)
  ultimately show ?thesis
    using validated_bundle(2) [of T _ _ s'] validated_singleton_receipt [of T _ _ s'] by (metis set_os_insert insertI1)
qed

theorem frozen_domain_rejects_witness:
  "\<exists>s'. freeze_domain Root 0 reference_state = Inr s' \<and>
     (\<forall>b t. poe_domain_id (bh_proof_of_election (ob_header b)) = 0 \<longrightarrow>
        validate_submit_bundle reference_runtime b True s' \<noteq> Inr t)"
proof -
  obtain s' where s': "freeze_domain Root 0 reference_state = Inr s'" by (simp add: freeze_domain_def)
  have "0 \<notin> set (frozen_domains reference_state)" by (simp add: reference_state_def)
  from frozen_domain_rejects [OF s' this, of reference_runtime] s' show ?thesis by blast
qed

text \<open>
  C13: A fraud proof slashes everyone who submitted the bad receipt: after it, every operator that still
  exists and had put the receipt into one of its bundles is pending to be slashed.
\<close>

theorem fraud_proof_slashes_submitters:
  assumes ok: "submit_fraud_proof T orig d h s = Inr s'"
    and node: "block_tree_nodes s h = Some node"
    and at: "block_tree s d (er_domain_block_number (btn_execution_receipt node)) = Some h"
    and i: "i \<in> set (btn_operator_ids node)" "operators s' i = Some op"
  shows "i \<in> set (get_pending_slashes s' (op_current_domain_id op))"
proof -
  from ok node at obtain t u where t: "handle_bad_receipt T d h node t = Inr u"
    "operators s' = operators u" "pending_slashes s' = pending_slashes u"
    by (auto simp: submit_fraud_proof_def prune_bad_receipt_def prune_receipt_def Let_def deposit_event_def result_simps)
  then obtain v where v: "do_mark_operators_as_slashed (btn_operator_ids node) (BadExecutionReceipt h) t = Inr v"
    "do_unmark_invalid_bundle_authors T d (btn_execution_receipt node) v = Inr u"
    by (auto simp: handle_bad_receipt_def result_simps)
  from pending_unmark [OF v(2)] do_mark_operators_as_slashed_pending [OF v(1)] i(1) have "is_pending_slash u i" by blast
  with i(2) t(2,3) show ?thesis by (simp add: is_pending_slash_def get_pending_slashes_def)
qed

theorem fraud_proof_slashes_submitters_witness:
  "\<exists>s' op. submit_fraud_proof reference_runtime ValidatedUnsigned 0 100008 chain_example = Inr s' \<and>
     operators s' 0 = Some op \<and> 0 \<in> set (get_pending_slashes s' (op_current_domain_id op))"
proof -
  let ?call = "submit_fraud_proof reference_runtime ValidatedUnsigned 0 100008 chain_example"
  have "\<not> isl ?call" and "\<And>s'. ?call = Inr s' \<Longrightarrow> operators s' 0 \<noteq> None" by (auto simp: eval_defs)
  then obtain s' op where s': "?call = Inr s'" "operators s' 0 = Some op" using is_ok_ex by fastforce
  from fraud_proof_slashes_submitters [OF s'(1) _ _ _ s'(2)] s' show ?thesis
    by (auto simp: chain_example_def chain_receipt_def)
qed

end
