(* ===== verification/Cross_Domain_State.thy ===== *)
theory Cross_Domain_State
  imports Domain_Types "HOL-Library.Product_Lexorder"
begin

text \<open>
  The data of cross-domain messages and transfers: endpoints (domains/primitives/messenger/src/endpoint.rs), channels
  and messages (domains/primitives/messenger/src/messages.rs), transfers (domains/pallets/transporter/src/lib.rs), and
  the storage of the two pallets \<open>messenger\<close> and \<open>transporter\<close> of one chain as one record. Every chain, the
  consensus chain and each domain, runs both pallets; \<open>'x\<close> is the state of the chain's other pallets.
  A \<open>U256\<close> is a \<open>nat\<close>, its width is written out where an operation may overflow.
\<close>

section \<open>Endpoints\<close>

type_synonym channel_id = nat
type_synonym nonce = nat
type_synonym message_id = "channel_id \<times> nonce"
type_synonym message_key = "chain_id \<times> channel_id \<times> nonce"
type_synonym endpoint_id = u64
type_synonym endpoint_payload = bytes

datatype endpoint = EndpointIdOf endpoint_id

fun is_consensus_chain :: "chain_id \<Rightarrow> bool" where
  "is_consensus_chain Consensus = True"
| "is_consensus_chain (Domain d) = False"

fun maybe_domain_chain :: "chain_id \<Rightarrow> domain_id option" where
  "maybe_domain_chain Consensus = None"
| "maybe_domain_chain (Domain d) = Some d"

text \<open>The errors of the two pallets; an error of another pallet is known by its number.\<close>

datatype transporter_error =
    LowBalance | InvalidPayload | MissingTransferRequest | InvalidTransferRequest | UnexpectedMessage
  | InvalidAccountId | LowBalanceOnDomain | NonConsensusChain | TransporterBalanceOverflow | TransporterBalanceUnderflow
  | DomainBalanceAlreadyInitialized | MinimumTransferAmount

datatype messenger_error =
    InvalidChain | MissingChannel | InvalidChannelState | NoOpenChannel | NoMessageHandler | OutboxFull
  | InvalidMessagePayload | InvalidMessageDestination | MissingMessage | WeightTagNotMatch | MessengerBalanceOverflow
  | MessengerBalanceUnderflow | InvalidAllowedChain | OperationNotAllowed | NotDomainOwner | ChainNotAllowed
  | MessengerInsufficientBalance | BalanceHold | ChannelOwner | BalanceUnlock | InvalidChannelReserveFee
  | InvalidMaxOutgoingMessages | MessageCountOverflow | MessageCountUnderflow | FailedToNoteTransferIn
  | FailedToNoteTransferOut

datatype dispatch_error =
    MessengerError messenger_error
  | TransporterError transporter_error
  | ArithmeticOverflow
  | OriginError
  | OtherError nat

type_synonym endpoint_response = "dispatch_error + endpoint_payload"

record collected_fee =
  cf_src_chain_fee :: balance
  cf_dst_chain_fee :: balance

record endpoint_request =
  eq_src_endpoint :: endpoint
  eq_dst_endpoint :: endpoint
  eq_payload :: endpoint_payload

record endpoint_request_with_collected_fee =
  ef_req :: endpoint_request
  ef_collected_fee :: collected_fee

section \<open>Channels and messages\<close>

datatype channel_state = Initiated | Open | Closed

record channel =
  ch_channel_id :: channel_id
  ch_state :: channel_state
  ch_next_inbox_nonce :: nonce
  ch_next_outbox_nonce :: nonce
  ch_latest_response_received_message_nonce :: "nonce option"
  ch_max_outgoing_messages :: u32
  ch_maybe_owner :: "account_id option"
  ch_channel_reserve_fee :: balance

record channel_open_params =
  cp_max_outgoing_messages :: u32

datatype protocol_message_request = ChannelOpen channel_open_params | ChannelClose

type_synonym protocol_message_response = "dispatch_error + unit"

datatype ('q, 'r) request_response = Request 'q | Response 'r

datatype payload_v1 =
    Protocol "(protocol_message_request, protocol_message_response) request_response"
  | EndpointPayload "(endpoint_request_with_collected_fee, endpoint_response) request_response"

datatype versioned_payload = V1 payload_v1

datatype message_weight_tag =
    ProtocolChannelOpen | ProtocolChannelClose | EndpointRequestTag endpoint | EndpointResponseTag endpoint
  | NoWeightTag

record message =
  msg_src_chain_id :: chain_id
  msg_dst_chain_id :: chain_id
  msg_channel_id :: channel_id
  msg_nonce :: nonce
  msg_payload :: versioned_payload
  msg_last_delivered_message_response_nonce :: "nonce option"

text \<open>Storage proofs and proofs of the Merkle mountain range are values that only their verifiers look into.\<close>

type_synonym storage_proof = bytes
type_synonym storage_key = bytes
type_synonym mmr_leaf_proof = bytes

datatype proof_of_message =
    ConsensusProof mmr_leaf_proof storage_proof
  | DomainProof mmr_leaf_proof storage_proof storage_proof

fun message_proof :: "proof_of_message \<Rightarrow> storage_proof" where
  "message_proof (ConsensusProof mmr m) = m"
| "message_proof (DomainProof mmr d m) = m"

fun consensus_mmr_proof :: "proof_of_message \<Rightarrow> mmr_leaf_proof" where
  "consensus_mmr_proof (ConsensusProof mmr m) = mmr"
| "consensus_mmr_proof (DomainProof mmr d m) = mmr"

fun domain_proof :: "proof_of_message \<Rightarrow> storage_proof option" where
  "domain_proof (ConsensusProof mmr m) = None"
| "domain_proof (DomainProof mmr d m) = Some d"

record cross_domain_message =
  xm_src_chain_id :: chain_id
  xm_dst_chain_id :: chain_id
  xm_channel_id :: channel_id
  xm_nonce :: nonce
  xm_proof :: proof_of_message
  xm_weight_tag :: message_weight_tag

fun weight_tag_outbox :: "versioned_payload \<Rightarrow> message_weight_tag" where
  "weight_tag_outbox (V1 (Protocol (Request (ChannelOpen params)))) = ProtocolChannelOpen"
| "weight_tag_outbox (V1 (Protocol (Request ChannelClose))) = ProtocolChannelClose"
| "weight_tag_outbox (V1 (EndpointPayload (Request req))) = EndpointRequestTag (eq_dst_endpoint (ef_req req))"
| "weight_tag_outbox _ = NoWeightTag"

fun weight_tag_inbox_response :: "message_weight_tag \<Rightarrow> versioned_payload \<Rightarrow> message_weight_tag" where
  "weight_tag_inbox_response ProtocolChannelOpen (V1 (Protocol (Response (Inr u)))) = ProtocolChannelOpen"
| "weight_tag_inbox_response (EndpointRequestTag e) (V1 (EndpointPayload (Response resp))) = EndpointResponseTag e"
| "weight_tag_inbox_response _ _ = NoWeightTag"

record domain_allowlist_updates =
  au_allow_chains :: "chain_id list"
  au_remove_chains :: "chain_id list"

datatype chain_allowlist_update = AddChain chain_id | RemoveChain chain_id

fun allowlist_update_chain_id :: "chain_allowlist_update \<Rightarrow> chain_id" where
  "allowlist_update_chain_id (AddChain c) = c"
| "allowlist_update_chain_id (RemoveChain c) = c"

section \<open>Transfers\<close>

datatype multi_account_id = AccountId32 bytes | AccountId20 bytes | RawAccountId bytes

record location =
  loc_chain_id :: chain_id
  loc_account_id :: multi_account_id

record transfer_data =
  tf_amount :: balance
  tf_sender :: location
  tf_receiver :: location

section \<open>The state of a chain\<close>

datatype xdm_event =
    ChannelInitiated chain_id channel_id
  | ChannelClosed chain_id channel_id
  | ChannelOpened chain_id channel_id
  | OutboxMessage chain_id channel_id nonce
  | OutboxMessageResponse chain_id channel_id nonce
  | OutboxMessageResult chain_id channel_id nonce "dispatch_error + unit"
  | InboxMessage chain_id channel_id nonce
  | InboxMessageResponse chain_id channel_id nonce
  | OutgoingTransferInitiated chain_id message_id balance
  | OutgoingTransferFailed chain_id message_id dispatch_error
  | OutgoingTransferSuccessful chain_id message_id
  | IncomingTransferSuccessful chain_id message_id balance

record 'x xdm_state =
  \<comment> \<open>\<open>pallet-messenger\<close>\<close>
  next_channel_id :: "chain_id \<Rightarrow> channel_id"
  channels :: "chain_id \<Rightarrow> channel_id \<Rightarrow> channel option"
  inbox :: "message option"
  inbox_fee :: "chain_id \<times> message_id \<Rightarrow> balance option"
  outbox_fee :: "chain_id \<times> message_id \<Rightarrow> balance option"
  inbox_responses :: "message_key \<Rightarrow> message option"
  outbox :: "message_key \<Rightarrow> message option"
  outbox_message_count :: "chain_id \<times> channel_id \<Rightarrow> u32"
  outbox_responses :: "message option"
  outbox_message_weight_tags :: "chain_id \<times> message_id \<Rightarrow> message_weight_tag option"
  inbox_response_message_weight_tags :: "chain_id \<times> message_id \<Rightarrow> message_weight_tag option"
  chain_allowlist :: "chain_id list"
  domain_chain_allowlist_update :: "domain_id \<Rightarrow> domain_allowlist_updates option"
  updated_channels :: "(chain_id \<times> channel_id) list"
  inbox_fees_on_hold :: balance
  outbox_fees_on_hold :: balance
  \<comment> \<open>\<open>pallet-transporter\<close>; the keys of its maps have the \<open>Identity\<close> hasher\<close>
  outgoing_transfers :: "chain_id \<Rightarrow> message_id \<Rightarrow> transfer_data option"
  domain_balances :: "(domain_id \<times> balance) list"
  chain_transfers :: transfers
  unconfirmed_transfers :: "((chain_id \<times> chain_id) \<times> balance) list"
  cancelled_transfers :: "((chain_id \<times> chain_id) \<times> balance) list"
  \<comment> \<open>\<open>frame_system\<close> and the other pallets\<close>
  xdm_events :: "xdm_event list"
  sys :: 'x

definition deposit_xdm_event :: "xdm_event \<Rightarrow> 'x xdm_state \<Rightarrow> 'x xdm_state" where
  "deposit_xdm_event e s = s\<lparr>xdm_events := xdm_events s @ [e]\<rparr>"

text \<open>Running an operation of another pallet, with the error the caller maps its failure to.\<close>

definition with_sys :: "'e \<Rightarrow> ('x \<Rightarrow> 'x option) \<Rightarrow> 'x xdm_state \<Rightarrow> 'e + 'x xdm_state" where
  "with_sys e f s = (case f (sys s) of None \<Rightarrow> Inl e | Some x \<Rightarrow> Inr (s\<lparr>sys := x\<rparr>))"

lemma with_sys_Inr_iff [result_simps]:
  "with_sys e f s = Inr s' \<longleftrightarrow> (\<exists>x. f (sys s) = Some x \<and> s' = s\<lparr>sys := x\<rparr>)"
  by (auto simp: with_sys_def split: option.splits)

text \<open>\<open>ValueQuery\<close> on a map of balances: a missing entry is zero.\<close>

definition balance_of :: "('k \<times> balance) list \<Rightarrow> 'k \<Rightarrow> balance" where
  "balance_of m k = (case om_get m k of Some b \<Rightarrow> b | None \<Rightarrow> 0)"

text \<open>\<open>UpdatedChannels\<close> and \<open>ChainTransfers\<close> are cleared when a block starts; the transfers become an empty value.\<close>

definition no_transfers :: transfers where
  "no_transfers = \<lparr>tr_transfers_in = [], tr_transfers_out = [], tr_rejected_transfers_claimed = [],
     tr_transfers_rejected = []\<rparr>"

definition messenger_on_initialize :: "'x xdm_state \<Rightarrow> 'x xdm_state" where
  "messenger_on_initialize s = s\<lparr>updated_channels := []\<rparr>"

definition transporter_on_initialize :: "'x xdm_state \<Rightarrow> 'x xdm_state" where
  "transporter_on_initialize s = s\<lparr>chain_transfers := no_transfers\<rparr>"

end
