(* ===== verification/Transporter.thy ===== *)
theory Transporter
  imports Cross_Domain_State
begin

text \<open>
  \<open>pallet-transporter\<close> (domains/pallets/transporter/src/lib.rs): a transfer burns funds on one chain and mints them on
  another. On the consensus chain the pallet also tracks the balance of every domain and the transfers that are on
  their way; this tracker is what \<open>pallet-domains\<close> calls through \<open>T::DomainsTransfersTracker\<close> when a block of a domain
  is confirmed. A domain only notes its transfers of a block, which its receipt reports to the consensus chain.
\<close>

section \<open>Configuration\<close>

record 'x transporter_config =
  SelfChainId :: chain_id
  SelfEndpointId :: endpoint_id
  MinimumTransfer :: balance
  \<comment> \<open>\<open>T::AccountIdConverter\<close>\<close>
  account_convert :: "account_id \<Rightarrow> multi_account_id"
  account_try_convert_back :: "multi_account_id \<Rightarrow> account_id option"
  \<comment> \<open>\<open>T::Currency\<close>: \<open>withdraw\<close> that keeps the account alive, with the imbalance dropped, and \<open>deposit_creating\<close>\<close>
  currency_withdraw :: "account_id \<Rightarrow> balance \<Rightarrow> 'x \<Rightarrow> 'x option"
  currency_deposit_creating :: "account_id \<Rightarrow> balance \<Rightarrow> 'x \<Rightarrow> 'x"
  \<comment> \<open>the codec of a transfer\<close>
  transfer_encode :: "transfer_data \<Rightarrow> bytes"
  transfer_decode :: "bytes \<Rightarrow> transfer_data option"

definition ZERO_EVM_ADDRESS :: multi_account_id where
  "ZERO_EVM_ADDRESS = AccountId20 (replicate 20 0)"

section \<open>The tracker of the consensus chain\<close>

definition ensure_consensus_chain :: "'x transporter_config \<Rightarrow> transporter_error + unit" where
  "ensure_consensus_chain C = ensure (is_consensus_chain (SelfChainId C)) NonConsensusChain"

definition initialize_domain_balance ::
    "'x transporter_config \<Rightarrow> domain_id \<Rightarrow> balance \<Rightarrow> 'x xdm_state \<Rightarrow> transporter_error + 'x xdm_state" where
  "initialize_domain_balance C d amount s =
     and_then (ensure_consensus_chain C) (\<lambda>_.
     and_then (ensure (om_get (domain_balances s) d = None) DomainBalanceAlreadyInitialized) (\<lambda>_.
     Inr (s\<lparr>domain_balances := om_insert d amount (domain_balances s)\<rparr>)))"

text \<open>The two ways in which the balance of a domain changes; the consensus chain has none.\<close>

definition debit_domain :: "chain_id \<Rightarrow> balance \<Rightarrow> 'x xdm_state \<Rightarrow> transporter_error + 'x xdm_state" where
  "debit_domain c amount s =
     (case maybe_domain_chain c of
        None \<Rightarrow> Inr s
      | Some d \<Rightarrow>
          and_then (ok_or LowBalanceOnDomain (checked_sub (balance_of (domain_balances s) d) amount)) (\<lambda>b.
          Inr (s\<lparr>domain_balances := om_insert d b (domain_balances s)\<rparr>)))"

definition credit_domain :: "chain_id \<Rightarrow> balance \<Rightarrow> 'x xdm_state \<Rightarrow> transporter_error + 'x xdm_state" where
  "credit_domain c amount s =
     (case maybe_domain_chain c of
        None \<Rightarrow> Inr s
      | Some d \<Rightarrow>
          and_then (ok_or TransporterBalanceOverflow (checked_add 128 (balance_of (domain_balances s) d) amount)) (\<lambda>b.
          Inr (s\<lparr>domain_balances := om_insert d b (domain_balances s)\<rparr>)))"

definition transporter_note_transfer ::
    "'x transporter_config \<Rightarrow> chain_id \<Rightarrow> chain_id \<Rightarrow> balance \<Rightarrow> 'x xdm_state \<Rightarrow> transporter_error + 'x xdm_state" where
  "transporter_note_transfer C from to amount s =
     and_then (ensure_consensus_chain C) (\<lambda>_.
     and_then (debit_domain from amount s) (\<lambda>s.
     and_then (ok_or TransporterBalanceOverflow
                 (checked_add 128 (balance_of (unconfirmed_transfers s) (from, to)) amount)) (\<lambda>total_amount.
     Inr (s\<lparr>unconfirmed_transfers := om_insert (from, to) total_amount (unconfirmed_transfers s)\<rparr>))))"

definition transporter_confirm_transfer ::
    "'x transporter_config \<Rightarrow> chain_id \<Rightarrow> chain_id \<Rightarrow> balance \<Rightarrow> 'x xdm_state \<Rightarrow> transporter_error + 'x xdm_state" where
  "transporter_confirm_transfer C from to amount s =
     and_then (ensure_consensus_chain C) (\<lambda>_.
     and_then (ok_or TransporterBalanceUnderflow
                 (checked_sub (balance_of (unconfirmed_transfers s) (from, to)) amount)) (\<lambda>total_amount.
     and_then (credit_domain to amount s) (\<lambda>s.
     Inr (s\<lparr>unconfirmed_transfers := om_insert (from, to) total_amount (unconfirmed_transfers s)\<rparr>))))"

definition transporter_claim_rejected_transfer ::
    "'x transporter_config \<Rightarrow> chain_id \<Rightarrow> chain_id \<Rightarrow> balance \<Rightarrow> 'x xdm_state \<Rightarrow> transporter_error + 'x xdm_state" where
  "transporter_claim_rejected_transfer C from to amount s =
     and_then (ensure_consensus_chain C) (\<lambda>_.
     and_then (ok_or TransporterBalanceUnderflow
                 (checked_sub (balance_of (cancelled_transfers s) (from, to)) amount)) (\<lambda>total_amount.
     and_then (credit_domain from amount s) (\<lambda>s.
     Inr (s\<lparr>cancelled_transfers := om_insert (from, to) total_amount (cancelled_transfers s)\<rparr>))))"

definition transporter_reject_transfer ::
    "'x transporter_config \<Rightarrow> chain_id \<Rightarrow> chain_id \<Rightarrow> balance \<Rightarrow> 'x xdm_state \<Rightarrow> transporter_error + 'x xdm_state" where
  "transporter_reject_transfer C from to amount s =
     and_then (ensure_consensus_chain C) (\<lambda>_.
     and_then (ok_or TransporterBalanceUnderflow
                 (checked_sub (balance_of (unconfirmed_transfers s) (from, to)) amount)) (\<lambda>total_amount.
     and_then (ok_or TransporterBalanceOverflow
                 (checked_add 128 (balance_of (cancelled_transfers s) (from, to)) amount)) (\<lambda>cancelled_amount.
     Inr (s\<lparr>cancelled_transfers := om_insert (from, to) cancelled_amount (cancelled_transfers s),
            unconfirmed_transfers := om_insert (from, to) total_amount (unconfirmed_transfers s)\<rparr>))))"

definition transporter_reduce_domain_balance ::
    "domain_id \<Rightarrow> balance \<Rightarrow> 'x xdm_state \<Rightarrow> transporter_error + 'x xdm_state" where
  "transporter_reduce_domain_balance d amount s =
     and_then (ok_or LowBalanceOnDomain (checked_sub (balance_of (domain_balances s) d) amount)) (\<lambda>b.
     Inr (s\<lparr>domain_balances := om_insert d b (domain_balances s)\<rparr>))"

section \<open>The transfers of a block of a domain\<close>

definition add_to_transfers ::
    "chain_id \<Rightarrow> balance \<Rightarrow> (chain_id \<times> balance) list \<Rightarrow> dispatch_error + (chain_id \<times> balance) list" where
  "add_to_transfers c amount m =
     and_then
       (case om_get m c of
          Some current_transfer_amount \<Rightarrow>
            ok_or (TransporterError TransporterBalanceOverflow) (checked_add 128 current_transfer_amount amount)
        | None \<Rightarrow> Inr amount) (\<lambda>total_transfer.
     Inr (om_insert c total_transfer m))"

definition update_transfer_out :: "chain_id \<Rightarrow> balance \<Rightarrow> transfers \<Rightarrow> dispatch_error + transfers" where
  "update_transfer_out to amount tr =
     and_then (add_to_transfers to amount (tr_transfers_out tr)) (\<lambda>m. Inr (tr\<lparr>tr_transfers_out := m\<rparr>))"

definition update_transfer_in :: "chain_id \<Rightarrow> balance \<Rightarrow> transfers \<Rightarrow> dispatch_error + transfers" where
  "update_transfer_in from amount tr =
     and_then (add_to_transfers from amount (tr_transfers_in tr)) (\<lambda>m. Inr (tr\<lparr>tr_transfers_in := m\<rparr>))"

definition update_transfer_revert :: "chain_id \<Rightarrow> balance \<Rightarrow> transfers \<Rightarrow> dispatch_error + transfers" where
  "update_transfer_revert to amount tr =
     and_then (add_to_transfers to amount (tr_rejected_transfers_claimed tr)) (\<lambda>m.
     Inr (tr\<lparr>tr_rejected_transfers_claimed := m\<rparr>))"

definition update_transfer_rejected :: "chain_id \<Rightarrow> balance \<Rightarrow> transfers \<Rightarrow> dispatch_error + transfers" where
  "update_transfer_rejected from amount tr =
     and_then (add_to_transfers from amount (tr_transfers_rejected tr)) (\<lambda>m.
     Inr (tr\<lparr>tr_transfers_rejected := m\<rparr>))"

definition mutate_chain_transfers ::
    "(transfers \<Rightarrow> dispatch_error + transfers) \<Rightarrow> 'x xdm_state \<Rightarrow> dispatch_error + 'x xdm_state" where
  "mutate_chain_transfers f s =
     and_then (f (chain_transfers s)) (\<lambda>tr. Inr (s\<lparr>chain_transfers := tr\<rparr>))"

text \<open>
  The four places where the pallet either tracks a transfer, on the consensus chain, or notes it for the receipt of the
  block, on a domain.
\<close>

definition account_transfer_out ::
    "'x transporter_config \<Rightarrow> chain_id \<Rightarrow> balance \<Rightarrow> 'x xdm_state \<Rightarrow> dispatch_error + 'x xdm_state" where
  "account_transfer_out C to amount s =
     (if is_consensus_chain (SelfChainId C)
      then map_err TransporterError (transporter_note_transfer C (SelfChainId C) to amount s)
      else mutate_chain_transfers (update_transfer_out to amount) s)"

definition account_transfer_in ::
    "'x transporter_config \<Rightarrow> chain_id \<Rightarrow> balance \<Rightarrow> 'x xdm_state \<Rightarrow> dispatch_error + 'x xdm_state" where
  "account_transfer_in C from amount s =
     (if is_consensus_chain (SelfChainId C)
      then map_err TransporterError (transporter_confirm_transfer C from (SelfChainId C) amount s)
      else mutate_chain_transfers (update_transfer_in from amount) s)"

definition account_transfer_rejected ::
    "'x transporter_config \<Rightarrow> chain_id \<Rightarrow> balance \<Rightarrow> 'x xdm_state \<Rightarrow> dispatch_error + 'x xdm_state" where
  "account_transfer_rejected C from amount s =
     (if is_consensus_chain (SelfChainId C)
      then map_err TransporterError (transporter_reject_transfer C from (SelfChainId C) amount s)
      else mutate_chain_transfers (update_transfer_rejected from amount) s)"

definition account_transfer_revert ::
    "'x transporter_config \<Rightarrow> chain_id \<Rightarrow> balance \<Rightarrow> 'x xdm_state \<Rightarrow> dispatch_error + 'x xdm_state" where
  "account_transfer_revert C to amount s =
     (if is_consensus_chain (SelfChainId C)
      then map_err TransporterError (transporter_claim_rejected_transfer C (SelfChainId C) to amount s)
      else mutate_chain_transfers (update_transfer_revert to amount) s)"

text \<open>\<open>NoteChainTransfer\<close>: the answer is whether the transfer could be noted; if not, the storage is as it was.\<close>

definition note_transfer_in ::
    "'x transporter_config \<Rightarrow> balance \<Rightarrow> chain_id \<Rightarrow> 'x xdm_state \<Rightarrow> bool \<times> 'x xdm_state" where
  "note_transfer_in C amount from s =
     (case account_transfer_in C from amount s of Inr s' \<Rightarrow> (True, s') | Inl e \<Rightarrow> (False, s))"

definition note_transfer_out ::
    "'x transporter_config \<Rightarrow> balance \<Rightarrow> chain_id \<Rightarrow> 'x xdm_state \<Rightarrow> bool \<times> 'x xdm_state" where
  "note_transfer_out C amount to s =
     (case account_transfer_out C to amount s of Inr s' \<Rightarrow> (True, s') | Inl e \<Rightarrow> (False, s))"

section \<open>Sending and receiving a transfer\<close>

text \<open>\<open>send_message\<close> is \<open>T::Sender\<close>, which on every chain is the messenger.\<close>

definition transporter_transfer ::
    "'x transporter_config \<Rightarrow>
       (account_id \<Rightarrow> chain_id \<Rightarrow> endpoint_request \<Rightarrow> 'x xdm_state \<Rightarrow> dispatch_error + message_id \<times> 'x xdm_state) \<Rightarrow>
       account_id option \<Rightarrow> location \<Rightarrow> balance \<Rightarrow> 'x xdm_state \<Rightarrow> dispatch_error + 'x xdm_state" where
  "transporter_transfer C send_message orig dst_location amount s =
     and_then (ok_or OriginError orig) (\<lambda>sender.
     and_then (ensure (amount \<ge> MinimumTransfer C) (TransporterError MinimumTransferAmount)) (\<lambda>_.
     and_then (ensure (loc_account_id dst_location \<noteq> ZERO_EVM_ADDRESS) (TransporterError InvalidAccountId)) (\<lambda>_.
     and_then (with_sys (TransporterError LowBalance) (currency_withdraw C sender amount) s) (\<lambda>s.
     let dst_chain_id = loc_chain_id dst_location;
         tf = \<lparr>tf_amount = amount,
               tf_sender = \<lparr>loc_chain_id = SelfChainId C, loc_account_id = account_convert C sender\<rparr>,
               tf_receiver = dst_location\<rparr> in
     and_then (send_message sender dst_chain_id
                 \<lparr>eq_src_endpoint = EndpointIdOf (SelfEndpointId C),
                  eq_dst_endpoint = EndpointIdOf (SelfEndpointId C),
                  eq_payload = transfer_encode C tf\<rparr> s) (\<lambda>(message_id, s).
     let s = s\<lparr>outgoing_transfers := (outgoing_transfers s)
                 (dst_chain_id := (outgoing_transfers s dst_chain_id)(message_id \<mapsto> tf))\<rparr>;
         s = deposit_xdm_event (OutgoingTransferInitiated dst_chain_id message_id amount) s in
     account_transfer_out C dst_chain_id amount s)))))"

definition finalize_transfer ::
    "'x transporter_config \<Rightarrow> chain_id \<Rightarrow> message_id \<Rightarrow> transfer_data \<Rightarrow> 'x xdm_state \<Rightarrow>
       dispatch_error + endpoint_payload \<times> 'x xdm_state" where
  "finalize_transfer C src_chain_id message_id req s =
     and_then (ok_or (TransporterError InvalidAccountId)
                 (account_try_convert_back C (loc_account_id (tf_receiver req)))) (\<lambda>account_id.
     and_then (account_transfer_in C src_chain_id (tf_amount req) s) (\<lambda>s.
     let s = s\<lparr>sys := currency_deposit_creating C account_id (tf_amount req) (sys s)\<rparr> in
     Inr ([], deposit_xdm_event (IncomingTransferSuccessful src_chain_id message_id (tf_amount req)) s)))"

text \<open>
  The handler of a request. It returns a response in every case: a transfer that cannot be carried out is rejected, and
  the state with the rejection is kept.
\<close>

definition transporter_message ::
    "'x transporter_config \<Rightarrow> chain_id \<Rightarrow> message_id \<Rightarrow> endpoint_request \<Rightarrow> (dispatch_error + unit) \<Rightarrow> 'x xdm_state \<Rightarrow>
       endpoint_response \<times> 'x xdm_state" where
  "transporter_message C src_chain_id message_id req pre_check_result s =
     (case transfer_decode C (eq_payload req) of
        None \<Rightarrow> (Inl (TransporterError InvalidPayload), s)
      | Some tf \<Rightarrow>
          let pre_check =
                and_then (ensure (SelfChainId C \<noteq> src_chain_id) (TransporterError InvalidTransferRequest)) (\<lambda>_.
                and_then (ensure (eq_dst_endpoint req = EndpointIdOf (SelfEndpointId C))
                            (TransporterError UnexpectedMessage)) (\<lambda>_.
                pre_check_result)) in
          case and_then pre_check (\<lambda>_. finalize_transfer C src_chain_id message_id tf s) of
            Inr (resp, s) \<Rightarrow> (Inr resp, s)
          | Inl err \<Rightarrow>
              (case account_transfer_rejected C src_chain_id (tf_amount tf) s of
                 Inl e \<Rightarrow> (Inl e, s)
               | Inr s \<Rightarrow> (Inl err, s)))"

text \<open>
  The handler of a response. The messenger only reports its result as an event, so that what it stored before a failure
  stays: the transfer is no longer outgoing.
\<close>

definition transporter_message_response ::
    "'x transporter_config \<Rightarrow> chain_id \<Rightarrow> message_id \<Rightarrow> endpoint_request \<Rightarrow> endpoint_response \<Rightarrow> 'x xdm_state \<Rightarrow>
       (dispatch_error + unit) \<times> 'x xdm_state" where
  "transporter_message_response C dst_chain_id message_id req resp s =
     (case outgoing_transfers s dst_chain_id message_id of
        None \<Rightarrow> (Inl (TransporterError MissingTransferRequest), s)
      | Some tf \<Rightarrow>
          let s = s\<lparr>outgoing_transfers := (outgoing_transfers s)
                      (dst_chain_id := (outgoing_transfers s dst_chain_id)(message_id := None))\<rparr> in
          if eq_payload req \<noteq> transfer_encode C tf then (Inl (TransporterError InvalidTransferRequest), s)
          else case resp of
            Inr _ \<Rightarrow> (Inr (), deposit_xdm_event (OutgoingTransferSuccessful dst_chain_id message_id) s)
          | Inl err \<Rightarrow>
              (case account_try_convert_back C (loc_account_id (tf_sender tf)) of
                 None \<Rightarrow> (Inl (TransporterError InvalidAccountId), s)
               | Some account_id \<Rightarrow>
                   (case account_transfer_revert C dst_chain_id (tf_amount tf) s of
                      Inl e \<Rightarrow> (Inl e, s)
                    | Inr s \<Rightarrow>
                        let s = s\<lparr>sys := currency_deposit_creating C account_id (tf_amount tf) (sys s)\<rparr> in
                        (Inr (), deposit_xdm_event (OutgoingTransferFailed dst_chain_id message_id err) s))))"

end
