(* ===== verification/Messenger.thy ===== *)
theory Messenger
  imports Cross_Domain_State
begin

text \<open>
  \<open>pallet-messenger\<close> (domains/pallets/messenger/src/lib.rs, messages.rs, fees.rs, extensions.rs): channels between
  chains, the messages in their outboxes and inboxes, the responses, and the fees. The other chains are known only
  through proofs that a message is in the storage of the chain that sent it. \<open>M\<close> is the configuration of the pallet;
  its endpoint handlers and \<open>NoteChainTransfer\<close> are operations of other pallets of the same chain.
\<close>

section \<open>Configuration\<close>

record 'x endpoint_handler =
  eh_message :: "chain_id \<Rightarrow> message_id \<Rightarrow> endpoint_request \<Rightarrow> (dispatch_error + unit) \<Rightarrow> 'x xdm_state \<Rightarrow>
    endpoint_response \<times> 'x xdm_state"
  eh_message_weight :: weight
  eh_message_response :: "chain_id \<Rightarrow> message_id \<Rightarrow> endpoint_request \<Rightarrow> endpoint_response \<Rightarrow> 'x xdm_state \<Rightarrow>
    (dispatch_error + unit) \<times> 'x xdm_state"
  eh_message_response_weight :: weight

record 'x messenger_config =
  self_chain_id :: chain_id
  get_endpoint_handler :: "endpoint \<Rightarrow> 'x endpoint_handler option"
  \<comment> \<open>\<open>T::Currency\<close>; \<open>burn_fees\<close> is \<open>burn_from\<close> that preserves the account\<close>
  channel_reducible_balance :: "'x \<Rightarrow> account_id \<Rightarrow> balance"
  channel_hold :: "account_id \<Rightarrow> balance \<Rightarrow> 'x \<Rightarrow> 'x option"
  channel_burn_held :: "account_id \<Rightarrow> balance \<Rightarrow> 'x \<Rightarrow> dispatch_error + 'x"
  channel_release :: "account_id \<Rightarrow> balance \<Rightarrow> 'x \<Rightarrow> 'x option"
  burn_fees :: "account_id \<Rightarrow> balance \<Rightarrow> 'x \<Rightarrow> dispatch_error + 'x"
  issue :: "balance \<Rightarrow> 'x \<Rightarrow> 'x"
  rescind :: "balance \<Rightarrow> 'x \<Rightarrow> 'x"
  AdjustedWeightToFee :: "'x \<Rightarrow> weight \<Rightarrow> balance"
  FeeMultiplier :: u32
  \<comment> \<open>\<open>T::OnXDMRewards\<close>\<close>
  on_xdm_rewards :: "balance \<Rightarrow> 'x \<Rightarrow> 'x"
  on_chain_protocol_fees :: "chain_id \<Rightarrow> balance \<Rightarrow> 'x \<Rightarrow> 'x"
  \<comment> \<open>\<open>T::NoteChainTransfer\<close>\<close>
  note_chain_transfer_in :: "balance \<Rightarrow> chain_id \<Rightarrow> 'x xdm_state \<Rightarrow> bool \<times> 'x xdm_state"
  note_chain_transfer_out :: "balance \<Rightarrow> chain_id \<Rightarrow> 'x xdm_state \<Rightarrow> bool \<times> 'x xdm_state"
  \<comment> \<open>\<open>T::MmrProofVerifier\<close>: the state root of the consensus block that the leaf belongs to\<close>
  verify_proof_and_extract_leaf :: "mmr_leaf_proof \<Rightarrow> 'x \<Rightarrow> hash option"
  extract_leaf_without_verifying :: "mmr_leaf_proof \<Rightarrow> 'x \<Rightarrow> hash option"
  \<comment> \<open>\<open>T::StorageKeys\<close>\<close>
  confirmed_domain_block_storage_key :: "domain_id \<Rightarrow> storage_key option"
  outbox_storage_key :: "chain_id \<Rightarrow> message_key \<Rightarrow> storage_key option"
  inbox_responses_storage_key :: "chain_id \<Rightarrow> message_key \<Rightarrow> storage_key option"
  \<comment> \<open>\<open>StorageProofVerifier::get_decoded_value\<close> at the types of a receipt, with its final state root, and a message\<close>
  get_receipt_state_root :: "hash \<Rightarrow> storage_proof \<Rightarrow> storage_key \<Rightarrow> hash option"
  get_message :: "hash \<Rightarrow> storage_proof \<Rightarrow> storage_key \<Rightarrow> message option"
  is_domain_owner :: "'x \<Rightarrow> domain_id \<Rightarrow> account_id \<Rightarrow> bool"
  is_domain_registered :: "'x \<Rightarrow> domain_id \<Rightarrow> bool"
  ChannelReserveFee :: balance
  \<comment> \<open>\<open>T::ChannelInitReservePortion::get() * amount\<close>\<close>
  channel_init_reserve_portion :: "balance \<Rightarrow> balance"
  MaxOutgoingMessages :: u32

datatype messenger_origin = XdmRoot | XdmSigned account_id | XdmValidatedUnsigned | XdmNone

fun signed_account :: "messenger_origin \<Rightarrow> account_id option" where
  "signed_account (XdmSigned who) = Some who"
| "signed_account _ = None"

section \<open>Channels\<close>

definition put_channel :: "chain_id \<Rightarrow> channel_id \<Rightarrow> channel \<Rightarrow> 'x xdm_state \<Rightarrow> 'x xdm_state" where
  "put_channel c i ch s = s\<lparr>channels := (channels s)(c := (channels s c)(i \<mapsto> ch))\<rparr>"

text \<open>The loop over the channels in descending order.\<close>

fun last_open_channel :: "chain_id \<Rightarrow> channel_id \<Rightarrow> 'x xdm_state \<Rightarrow> channel_id option" where
  "last_open_channel c 0 s = None"
| "last_open_channel c (Suc i) s =
     (case channels s c i of
        Some ch \<Rightarrow>
          if ch_state ch = Open \<and> outbox_message_count s (c, i) < ch_max_outgoing_messages ch then Some i
          else last_open_channel c i s
      | None \<Rightarrow> last_open_channel c i s)"

definition get_open_channel_for_chain :: "chain_id \<Rightarrow> 'x xdm_state \<Rightarrow> channel_id option" where
  "get_open_channel_for_chain c s = last_open_channel c (next_channel_id s c) s"

definition do_open_channel :: "chain_id \<Rightarrow> channel_id \<Rightarrow> 'x xdm_state \<Rightarrow> dispatch_error + 'x xdm_state" where
  "do_open_channel c i s =
     and_then (ok_or (MessengerError MissingChannel) (channels s c i)) (\<lambda>ch.
     and_then (ensure (ch_state ch = Initiated) (MessengerError InvalidChannelState)) (\<lambda>_.
     Inr (deposit_xdm_event (ChannelOpened c i) (put_channel c i (ch\<lparr>ch_state := Open\<rparr>) s))))"

datatype close_channel_by = ByOwner account_id | BySudo

text \<open>What the owner of a channel gets back: a channel that never opened costs a portion of the reserve.\<close>

definition release_channel_reserve ::
    "'x messenger_config \<Rightarrow> chain_id \<Rightarrow> channel \<Rightarrow> 'x xdm_state \<Rightarrow> dispatch_error + 'x xdm_state" where
  "release_channel_reserve M c ch s =
     (case ch_maybe_owner ch of
        None \<Rightarrow> Inr s
      | Some owner \<Rightarrow>
          let locked_amount = ch_channel_reserve_fee ch;
              protocol_fee = channel_init_reserve_portion M locked_amount;
              (amount_to_release, maybe_amount_to_burn) =
                (if ch_state ch = Open then (locked_amount, None)
                 else (saturating_sub locked_amount protocol_fee, Some protocol_fee)) in
          and_then
            (case maybe_amount_to_burn of
               Some protocol_fee \<Rightarrow>
                 and_then (channel_burn_held M owner protocol_fee (sys s)) (\<lambda>x.
                 Inr (s\<lparr>sys := on_chain_protocol_fees M c protocol_fee x\<rparr>))
             | None \<Rightarrow> Inr s) (\<lambda>s.
          with_sys (MessengerError BalanceUnlock) (channel_release M owner amount_to_release) s))"

definition do_close_channel ::
    "'x messenger_config \<Rightarrow> chain_id \<Rightarrow> channel_id \<Rightarrow> close_channel_by \<Rightarrow> 'x xdm_state \<Rightarrow>
       dispatch_error + 'x xdm_state" where
  "do_close_channel M c i by_whom s =
     and_then (ok_or (MessengerError MissingChannel) (channels s c i)) (\<lambda>ch.
     and_then (ensure (ch_state ch \<noteq> Closed) (MessengerError InvalidChannelState)) (\<lambda>_.
     and_then
       (case by_whom of
          ByOwner owner \<Rightarrow> ensure (ch_maybe_owner ch = Some owner) (MessengerError ChannelOwner)
        | BySudo \<Rightarrow> Inr ()) (\<lambda>_.
     and_then (release_channel_reserve M c ch s) (\<lambda>s.
     Inr (deposit_xdm_event (ChannelClosed c i) (put_channel c i (ch\<lparr>ch_state := Closed\<rparr>) s))))))"

definition do_init_channel ::
    "'x messenger_config \<Rightarrow> chain_id \<Rightarrow> channel_open_params \<Rightarrow> account_id option \<Rightarrow> bool \<Rightarrow> balance \<Rightarrow> 'x xdm_state \<Rightarrow>
       dispatch_error + channel_id \<times> 'x xdm_state" where
  "do_init_channel M dst_chain_id init_params maybe_owner check_allowlist channel_reserve_fee s =
     and_then (ensure (self_chain_id M \<noteq> dst_chain_id) (MessengerError InvalidChain)) (\<lambda>_.
     and_then (ensure (cp_max_outgoing_messages init_params \<ge> 1) (MessengerError InvalidMaxOutgoingMessages)) (\<lambda>_.
     and_then (ensure (maybe_owner = None \<or> channel_reserve_fee \<noteq> 0) (MessengerError InvalidChannelReserveFee)) (\<lambda>_.
     and_then (ensure (check_allowlist \<longrightarrow> dst_chain_id \<in> set (chain_allowlist s)) (MessengerError ChainNotAllowed)) (\<lambda>_.
     let i = next_channel_id s dst_chain_id in
     and_then (ok_or ArithmeticOverflow (checked_add 256 i 1)) (\<lambda>next_id.
     let s = put_channel dst_chain_id i
               \<lparr>ch_channel_id = i, ch_state = Initiated, ch_next_inbox_nonce = 0, ch_next_outbox_nonce = 0,
                ch_latest_response_received_message_nonce = None,
                ch_max_outgoing_messages = cp_max_outgoing_messages init_params,
                ch_maybe_owner = maybe_owner, ch_channel_reserve_fee = channel_reserve_fee\<rparr> s;
         s = s\<lparr>next_channel_id := (next_channel_id s)(dst_chain_id := next_id)\<rparr> in
     Inr (i, deposit_xdm_event (ChannelInitiated dst_chain_id i) s))))))"

section \<open>Fees\<close>

definition collect_fees_for_message_v1 ::
    "'x messenger_config \<Rightarrow> account_id \<Rightarrow> endpoint \<Rightarrow> 'x xdm_state \<Rightarrow> dispatch_error + collected_fee \<times> 'x xdm_state" where
  "collect_fees_for_message_v1 M sender e s =
     and_then (ok_or (MessengerError NoMessageHandler) (get_endpoint_handler M e)) (\<lambda>handler.
     let fee_multiplier = FeeMultiplier M;
         dst_chain_inbox_execution_fee = AdjustedWeightToFee M (sys s) (eh_message_weight handler) in
     and_then (ok_or (MessengerError MessengerBalanceOverflow)
                 (checked_mul 128 dst_chain_inbox_execution_fee fee_multiplier)) (\<lambda>dst_chain_fee.
     let src_chain_outbox_response_execution_fee =
           AdjustedWeightToFee M (sys s) (eh_message_response_weight handler) in
     and_then (ok_or (MessengerError MessengerBalanceOverflow)
                 (checked_mul 128 src_chain_outbox_response_execution_fee fee_multiplier)) (\<lambda>src_chain_fee.
     and_then (ok_or (MessengerError MessengerBalanceOverflow) (checked_add 128 dst_chain_fee src_chain_fee)) (\<lambda>total_fees.
     and_then (burn_fees M sender total_fees (sys s)) (\<lambda>x.
     Inr (\<lparr>cf_src_chain_fee = src_chain_fee, cf_dst_chain_fee = dst_chain_fee\<rparr>, s\<lparr>sys := x\<rparr>))))))"

definition store_inbox_fee ::
    "'x messenger_config \<Rightarrow> chain_id \<Rightarrow> message_id \<Rightarrow> balance \<Rightarrow> 'x xdm_state \<Rightarrow> dispatch_error + 'x xdm_state" where
  "store_inbox_fee M src_chain_id m inbox_fees s =
     and_then (ok_or (MessengerError MessengerBalanceOverflow) (checked_add 128 (inbox_fees_on_hold s) inbox_fees)) (\<lambda>on_hold.
     let s = s\<lparr>inbox_fees_on_hold := on_hold, sys := issue M inbox_fees (sys s),
               inbox_fee := (inbox_fee s)((src_chain_id, m) \<mapsto> inbox_fees)\<rparr>;
         (noted, s) = note_chain_transfer_in M inbox_fees src_chain_id s in
     if noted then Inr s else Inl (MessengerError FailedToNoteTransferIn))"

definition store_outbox_fee ::
    "'x messenger_config \<Rightarrow> chain_id \<Rightarrow> message_id \<Rightarrow> balance \<Rightarrow> balance \<Rightarrow> 'x xdm_state \<Rightarrow>
       dispatch_error + 'x xdm_state" where
  "store_outbox_fee M dst_chain_id m outbox_fees inbox_fees s =
     and_then (ok_or (MessengerError MessengerBalanceOverflow) (checked_add 128 (outbox_fees_on_hold s) outbox_fees)) (\<lambda>on_hold.
     let s = s\<lparr>outbox_fees_on_hold := on_hold, sys := issue M outbox_fees (sys s),
               outbox_fee := (outbox_fee s)((dst_chain_id, m) \<mapsto> outbox_fees)\<rparr>;
         (noted, s) = note_chain_transfer_out M inbox_fees dst_chain_id s in
     if noted then Inr s else Inl (MessengerError FailedToNoteTransferOut))"

text \<open>
  The loop over the responses that the other chain has received, from the latest one down to the first that is
  already gone; it returns the fees of their messages.
\<close>

fun take_inbox_responses ::
    "chain_id \<Rightarrow> channel_id \<Rightarrow> nonce \<Rightarrow> balance \<Rightarrow> 'x xdm_state \<Rightarrow> balance \<times> 'x xdm_state" where
  "take_inbox_responses c i n fees s =
     (case inbox_responses s (c, i, n) of
        None \<Rightarrow> (fees, s)
      | Some _ \<Rightarrow>
          let s = s\<lparr>inbox_responses := (inbox_responses s)((c, i, n) := None),
                    inbox_response_message_weight_tags := (inbox_response_message_weight_tags s)((c, (i, n)) := None)\<rparr>;
              (fees, s) =
                (case inbox_fee s (c, (i, n)) of
                   Some fee \<Rightarrow> (saturating_add 128 fees fee, s\<lparr>inbox_fee := (inbox_fee s)((c, (i, n)) := None)\<rparr>)
                 | None \<Rightarrow> (fees, s)) in
          case n of 0 \<Rightarrow> (fees, s) | Suc n' \<Rightarrow> take_inbox_responses c i n' fees s)"

definition reward_operators_for_inbox_execution ::
    "'x messenger_config \<Rightarrow> chain_id \<Rightarrow> channel_id \<Rightarrow> nonce option \<Rightarrow> 'x xdm_state \<Rightarrow> dispatch_error + 'x xdm_state" where
  "reward_operators_for_inbox_execution M c i latest_confirmed_nonce s =
     (case latest_confirmed_nonce of
        None \<Rightarrow> Inr s
      | Some n \<Rightarrow>
          let (inbox_fees, s) = take_inbox_responses c i n 0 s in
          if inbox_fees \<noteq> 0 then
            and_then (ok_or (MessengerError MessengerBalanceUnderflow) (checked_sub (inbox_fees_on_hold s) inbox_fees)) (\<lambda>on_hold.
            Inr (s\<lparr>inbox_fees_on_hold := on_hold, sys := on_xdm_rewards M inbox_fees (rescind M inbox_fees (sys s))\<rparr>))
          else Inr s)"

definition reward_operators_for_outbox_execution ::
    "'x messenger_config \<Rightarrow> chain_id \<Rightarrow> message_id \<Rightarrow> 'x xdm_state \<Rightarrow> dispatch_error + 'x xdm_state" where
  "reward_operators_for_outbox_execution M c m s =
     (case outbox_fee s (c, m) of
        None \<Rightarrow> Inr s
      | Some fee \<Rightarrow>
          let s = s\<lparr>outbox_fee := (outbox_fee s)((c, m) := None)\<rparr> in
          and_then (ok_or (MessengerError MessengerBalanceUnderflow) (checked_sub (outbox_fees_on_hold s) fee)) (\<lambda>on_hold.
          Inr (s\<lparr>outbox_fees_on_hold := on_hold, sys := on_xdm_rewards M fee (rescind M fee (sys s))\<rparr>)))"

section \<open>Sending a message\<close>

definition new_outbox_message ::
    "chain_id \<Rightarrow> chain_id \<Rightarrow> channel_id \<Rightarrow> versioned_payload \<Rightarrow> 'x xdm_state \<Rightarrow> dispatch_error + nonce \<times> 'x xdm_state" where
  "new_outbox_message src_chain_id c i payload s =
     and_then (ensure (src_chain_id \<noteq> c) (MessengerError InvalidMessageDestination)) (\<lambda>_.
     and_then (ok_or (MessengerError MissingChannel) (channels s c i)) (\<lambda>ch.
     let count = outbox_message_count s (c, i) in
     and_then (ensure (count < ch_max_outgoing_messages ch) (MessengerError OutboxFull)) (\<lambda>_.
     let n = ch_next_outbox_nonce ch;
         msg = \<lparr>msg_src_chain_id = src_chain_id, msg_dst_chain_id = c, msg_channel_id = i, msg_nonce = n,
                msg_payload = payload,
                msg_last_delivered_message_response_nonce = ch_latest_response_received_message_nonce ch\<rparr>;
         s = s\<lparr>outbox := (outbox s)((c, i, n) \<mapsto> msg)\<rparr> in
     and_then (ok_or (MessengerError MessageCountOverflow) (checked_add 32 count 1)) (\<lambda>count.
     let s = s\<lparr>outbox_message_count := (outbox_message_count s)((c, i) := count)\<rparr> in
     and_then (ok_or ArithmeticOverflow (checked_add 256 n 1)) (\<lambda>next_nonce.
     let s = s\<lparr>outbox_message_weight_tags := (outbox_message_weight_tags s)((c, (i, n)) \<mapsto> weight_tag_outbox payload)\<rparr>;
         s = deposit_xdm_event (OutboxMessage c i n) s in
     Inr (n, put_channel c i (ch\<lparr>ch_next_outbox_nonce := next_nonce\<rparr>) s))))))"

definition send_message ::
    "'x messenger_config \<Rightarrow> account_id \<Rightarrow> chain_id \<Rightarrow> endpoint_request \<Rightarrow> 'x xdm_state \<Rightarrow>
       dispatch_error + message_id \<times> 'x xdm_state" where
  "send_message M sender dst_chain_id req s =
     and_then (ensure (dst_chain_id \<in> set (chain_allowlist s)) (MessengerError ChainNotAllowed)) (\<lambda>_.
     and_then (ok_or (MessengerError NoOpenChannel) (get_open_channel_for_chain dst_chain_id s)) (\<lambda>i.
     and_then (collect_fees_for_message_v1 M sender (eq_src_endpoint req) s) (\<lambda>(collected, s).
     and_then (new_outbox_message (self_chain_id M) dst_chain_id i
                 (V1 (EndpointPayload (Request \<lparr>ef_req = req, ef_collected_fee = collected\<rparr>))) s) (\<lambda>(n, s).
     and_then (store_outbox_fee M dst_chain_id (i, n) (cf_src_chain_fee collected) (cf_dst_chain_fee collected) s) (\<lambda>s.
     Inr ((i, n), s))))))"

section \<open>Processing a request\<close>

definition process_incoming_endpoint_message_req ::
    "chain_id \<Rightarrow> endpoint_request \<Rightarrow> channel_id \<Rightarrow> nonce \<Rightarrow> message_weight_tag \<Rightarrow> 'x endpoint_handler \<Rightarrow> 'x xdm_state \<Rightarrow>
       endpoint_response \<times> 'x xdm_state" where
  "process_incoming_endpoint_message_req c req i n tag handler s =
     (let pre_check =
        and_then (ensure (tag = EndpointRequestTag (eq_dst_endpoint req)) (MessengerError WeightTagNotMatch)) (\<lambda>_.
        and_then (ok_or (MessengerError MissingChannel) (channels s c i)) (\<lambda>ch.
        and_then (ensure (ch_state ch = Open) (MessengerError InvalidChannelState)) (\<lambda>_.
        ensure (c \<in> set (chain_allowlist s)) (MessengerError ChainNotAllowed))))
      in eh_message handler c (i, n) req pre_check s)"

definition process_incoming_protocol_message_req ::
    "'x messenger_config \<Rightarrow> chain_id \<Rightarrow> channel_id \<Rightarrow> protocol_message_request \<Rightarrow> message_weight_tag \<Rightarrow> 'x xdm_state \<Rightarrow>
       dispatch_error + 'x xdm_state" where
  "process_incoming_protocol_message_req M c i req tag s =
     (case req of
        ChannelOpen params \<Rightarrow>
          and_then (ensure (c \<in> set (chain_allowlist s)) (MessengerError ChainNotAllowed)) (\<lambda>_.
          and_then (ensure (tag = ProtocolChannelOpen) (MessengerError WeightTagNotMatch)) (\<lambda>_.
          do_open_channel c i s))
      | ChannelClose \<Rightarrow>
          and_then (ensure (tag = ProtocolChannelClose) (MessengerError WeightTagNotMatch)) (\<lambda>_.
          do_close_channel M c i BySudo s))"

text \<open>The response to a request: an operation that fails leaves the state as it was and its error is the response.\<close>

definition as_response :: "('e + 's) \<Rightarrow> 's \<Rightarrow> ('e + unit) \<times> 's" where
  "as_response r s = (case r of Inl e \<Rightarrow> (Inl e, s) | Inr s' \<Rightarrow> (Inr (), s'))"

definition response_to ::
    "'x messenger_config \<Rightarrow> message \<Rightarrow> message_weight_tag \<Rightarrow> 'x xdm_state \<Rightarrow>
       dispatch_error + versioned_payload \<times> 'x xdm_state" where
  "response_to M msg tag s =
     (let c = msg_src_chain_id msg; i = msg_channel_id msg; n = msg_nonce msg in
      case msg_payload msg of
        V1 (Protocol (Request req)) \<Rightarrow>
          let (resp, s) = as_response (process_incoming_protocol_message_req M c i req tag s) s in
          Inr (V1 (Protocol (Response resp)), s)
      | V1 (EndpointPayload (Request req)) \<Rightarrow>
          and_then (store_inbox_fee M c (i, n) (cf_dst_chain_fee (ef_collected_fee req)) s) (\<lambda>s.
          let (resp, s) =
                (case get_endpoint_handler M (eq_dst_endpoint (ef_req req)) of
                   Some handler \<Rightarrow> process_incoming_endpoint_message_req c (ef_req req) i n tag handler s
                 | None \<Rightarrow> (Inl (MessengerError NoMessageHandler), s)) in
          Inr (V1 (EndpointPayload (Response resp)), s))
      | V1 (Protocol (Response _)) \<Rightarrow> Inr (V1 (Protocol (Response (Inl (MessengerError InvalidMessagePayload)))), s)
      | V1 (EndpointPayload (Response _)) \<Rightarrow>
          Inr (V1 (EndpointPayload (Response (Inl (MessengerError InvalidMessagePayload)))), s))"

definition process_inbox_messages ::
    "'x messenger_config \<Rightarrow> message \<Rightarrow> message_weight_tag \<Rightarrow> 'x xdm_state \<Rightarrow> dispatch_error + 'x xdm_state" where
  "process_inbox_messages M msg tag s =
     (let c = msg_src_chain_id msg; i = msg_channel_id msg; n = msg_nonce msg in
      and_then (response_to M msg tag s) (\<lambda>(resp_payload, s).
      let s = s\<lparr>inbox_responses := (inbox_responses s)((c, i, n) \<mapsto>
                  \<lparr>msg_src_chain_id = self_chain_id M, msg_dst_chain_id = c, msg_channel_id = i, msg_nonce = n,
                   msg_payload = resp_payload, msg_last_delivered_message_response_nonce = None\<rparr>),
                inbox_response_message_weight_tags := (inbox_response_message_weight_tags s)
                  ((c, (i, n)) \<mapsto> weight_tag_inbox_response tag resp_payload),
                updated_channels := os_insert (c, i) (updated_channels s)\<rparr> in
      and_then (reward_operators_for_inbox_execution M c i (msg_last_delivered_message_response_nonce msg) s) (\<lambda>s.
      Inr (deposit_xdm_event (InboxMessageResponse c i n) s))))"

section \<open>Processing a response\<close>

definition process_incoming_protocol_message_response ::
    "chain_id \<Rightarrow> channel_id \<Rightarrow> protocol_message_request \<Rightarrow> protocol_message_response \<Rightarrow> message_weight_tag \<Rightarrow>
       'x xdm_state \<Rightarrow> dispatch_error + 'x xdm_state" where
  "process_incoming_protocol_message_response c i req resp tag s =
     (case (req, resp) of
        (ChannelOpen params, Inr _) \<Rightarrow>
          and_then (ensure (tag = ProtocolChannelOpen) (MessengerError WeightTagNotMatch)) (\<lambda>_.
          do_open_channel c i s)
      | _ \<Rightarrow> Inr s)"

definition process_incoming_endpoint_message_response ::
    "chain_id \<Rightarrow> channel_id \<Rightarrow> nonce \<Rightarrow> message_weight_tag \<Rightarrow> endpoint_request \<Rightarrow> endpoint_response \<Rightarrow>
       'x endpoint_handler \<Rightarrow> 'x xdm_state \<Rightarrow> (dispatch_error + unit) \<times> 'x xdm_state" where
  "process_incoming_endpoint_message_response c i n tag req resp handler s =
     (if tag \<noteq> EndpointResponseTag (eq_dst_endpoint req) then (Inl (MessengerError WeightTagNotMatch), s)
      else eh_message_response handler c (i, n) req resp s)"

text \<open>What a response does, apart from the bookkeeping of the outbox.\<close>

definition handle_response ::
    "'x messenger_config \<Rightarrow> message \<Rightarrow> message \<Rightarrow> message_weight_tag \<Rightarrow> 'x xdm_state \<Rightarrow>
       dispatch_error + (dispatch_error + unit) \<times> 'x xdm_state" where
  "handle_response M req_msg resp_msg tag s =
     (let c = msg_src_chain_id resp_msg; i = msg_channel_id resp_msg; n = msg_nonce resp_msg in
      case (msg_payload req_msg, msg_payload resp_msg) of
        (V1 (Protocol (Request req)), V1 (Protocol (Response resp))) \<Rightarrow>
          Inr (as_response (process_incoming_protocol_message_response c i req resp tag s) s)
      | (V1 (EndpointPayload (Request req)), V1 (EndpointPayload (Response resp))) \<Rightarrow>
          and_then (reward_operators_for_outbox_execution M c (i, n) s) (\<lambda>s.
          Inr (case get_endpoint_handler M (eq_dst_endpoint (ef_req req)) of
                 Some handler \<Rightarrow> process_incoming_endpoint_message_response c i n tag (ef_req req) resp handler s
               | None \<Rightarrow> (Inl (MessengerError NoMessageHandler), s)))
      | _ \<Rightarrow> Inr (Inl (MessengerError InvalidMessagePayload), s))"

definition process_outbox_message_responses ::
    "'x messenger_config \<Rightarrow> message \<Rightarrow> message_weight_tag \<Rightarrow> 'x xdm_state \<Rightarrow> dispatch_error + 'x xdm_state" where
  "process_outbox_message_responses M resp_msg tag s =
     (let c = msg_src_chain_id resp_msg; i = msg_channel_id resp_msg; n = msg_nonce resp_msg in
      and_then (ok_or (MessengerError MissingMessage) (outbox s (c, i, n))) (\<lambda>req_msg.
      let s = s\<lparr>outbox := (outbox s)((c, i, n) := None)\<rparr> in
      and_then (ok_or (MessengerError MessageCountUnderflow) (checked_sub (outbox_message_count s (c, i)) 1)) (\<lambda>count.
      let s = s\<lparr>outbox_message_count := (outbox_message_count s)((c, i) := count),
                outbox_message_weight_tags := (outbox_message_weight_tags s)((c, (i, n)) := None)\<rparr> in
      and_then (handle_response M req_msg resp_msg tag s) (\<lambda>(resp, s).
      let s = s\<lparr>updated_channels := os_insert (c, i) (updated_channels s)\<rparr> in
      Inr (deposit_xdm_event (OutboxMessageResult c i n resp) s)))))"

end
