(* ===== verification/Messenger_Calls.thy ===== *)
theory Messenger_Calls
  imports Messenger
begin

text \<open>
  The entry points of \<open>pallet-messenger\<close>: how a message or a response that a relayer brings is validated and prepared
  (\<open>validate_relay_message\<close> and its companions in lib.rs, the transaction extension in extensions.rs), the dispatchable
  calls, the allowlists of chains, and what a relayer asks the runtime.
\<close>

section \<open>Validation of a cross-domain message\<close>

datatype validity_error = InvalidCall | InvalidStale | InvalidFuture | InvalidBadProof | InvalidCustom nat | CannotLookup

definition INVALID_NONCE :: nat where "INVALID_NONCE = 201"
definition XDM_NONCE_OVERFLOW :: nat where "XDM_NONCE_OVERFLOW = 202"
definition INVALID_CHANNEL :: nat where "INVALID_CHANNEL = 203"
definition IN_FUTURE_NONCE :: nat where "IN_FUTURE_NONCE = 204"
definition NEXT_NONCE_UPDATE :: nat where "NEXT_NONCE_UPDATE = 205"
definition MAX_FUTURE_ALLOWED_NONCES :: u32 where "MAX_FUTURE_ALLOWED_NONCES = 256"

record validated_relay_message =
  vr_message :: message
  vr_should_init_channel :: bool
  vr_next_nonce :: nonce

text \<open>The state root of the chain that sent the message: for a domain it is in its confirmed receipt.\<close>

definition source_state_root ::
    "'x messenger_config \<Rightarrow> hash \<Rightarrow> cross_domain_message \<Rightarrow> validity_error + hash" where
  "source_state_root M consensus_state_root xdm =
     (case (domain_proof (xm_proof xdm), maybe_domain_chain (xm_src_chain_id xdm)) of
        (Some p, Some d) \<Rightarrow>
          and_then (ok_or CannotLookup (confirmed_domain_block_storage_key M d)) (\<lambda>key.
          ok_or InvalidBadProof (get_receipt_state_root M consensus_state_root p key))
      | _ \<Rightarrow> Inr consensus_state_root)"

definition do_verify_xdm ::
    "'x messenger_config \<Rightarrow> nonce \<Rightarrow> storage_key \<Rightarrow> hash \<Rightarrow> cross_domain_message \<Rightarrow> 'x xdm_state \<Rightarrow>
       validity_error + message" where
  "do_verify_xdm M next_nonce key consensus_state_root xdm s =
     and_then (ensure (xm_channel_id xdm \<le> next_channel_id s (xm_src_chain_id xdm))
                 (InvalidCustom INVALID_CHANNEL)) (\<lambda>_.
     and_then (ensure (xm_nonce xdm \<ge> next_nonce) (InvalidCustom INVALID_NONCE)) (\<lambda>_.
     and_then (source_state_root M consensus_state_root xdm) (\<lambda>state_root.
     ok_or InvalidBadProof (get_message M state_root (message_proof (xm_proof xdm)) key))))"

text \<open>Which requests are accepted, given the channel they arrive on.\<close>

definition is_valid_call :: "channel option \<Rightarrow> versioned_payload \<Rightarrow> bool" where
  "is_valid_call maybe_channel payload =
     (case payload of
        V1 (Protocol (Request (ChannelOpen _))) \<Rightarrow> maybe_channel = None
      | V1 (Protocol (Request ChannelClose)) \<Rightarrow>
          (case maybe_channel of Some ch \<Rightarrow> ch_state ch \<noteq> Closed | None \<Rightarrow> False)
      | V1 (EndpointPayload (Request _)) \<Rightarrow>
          (case maybe_channel of Some ch \<Rightarrow> ch_state ch \<noteq> Initiated | None \<Rightarrow> False)
      | _ \<Rightarrow> False)"

definition validate_relay_message ::
    "'x messenger_config \<Rightarrow> cross_domain_message \<Rightarrow> hash \<Rightarrow> 'x xdm_state \<Rightarrow> validity_error + validated_relay_message" where
  "validate_relay_message M xdm consensus_state_root s =
     (let maybe_channel = channels s (xm_src_chain_id xdm) (xm_channel_id xdm);
          next_nonce = (case maybe_channel of None \<Rightarrow> 0 | Some ch \<Rightarrow> ch_next_inbox_nonce ch) in
      and_then (ok_or CannotLookup
                  (outbox_storage_key M (xm_src_chain_id xdm) (self_chain_id M, xm_channel_id xdm, xm_nonce xdm))) (\<lambda>key.
      and_then (do_verify_xdm M next_nonce key consensus_state_root xdm s) (\<lambda>msg.
      and_then (ensure (is_valid_call maybe_channel (msg_payload msg)) InvalidCall) (\<lambda>_.
      and_then (ensure (\<not> msg_nonce msg < next_nonce) InvalidStale) (\<lambda>_.
      Inr \<lparr>vr_message = msg, vr_should_init_channel = (maybe_channel = None), vr_next_nonce = next_nonce\<rparr>)))))"

definition validate_relay_message_response ::
    "'x messenger_config \<Rightarrow> cross_domain_message \<Rightarrow> hash \<Rightarrow> 'x xdm_state \<Rightarrow> validity_error + validated_relay_message" where
  "validate_relay_message_response M xdm consensus_state_root s =
     and_then (ok_or InvalidCall (channels s (xm_src_chain_id xdm) (xm_channel_id xdm))) (\<lambda>ch.
     and_then
       (case ch_latest_response_received_message_nonce ch of
          None \<Rightarrow> Inr 0
        | Some last_nonce \<Rightarrow> ok_or (InvalidCustom XDM_NONCE_OVERFLOW) (checked_add 256 last_nonce 1)) (\<lambda>next_nonce.
     and_then (ok_or CannotLookup
                 (inbox_responses_storage_key M (xm_src_chain_id xdm)
                    (self_chain_id M, xm_channel_id xdm, xm_nonce xdm))) (\<lambda>key.
     and_then (do_verify_xdm M next_nonce key consensus_state_root xdm s) (\<lambda>msg.
     and_then (ensure (\<not> msg_nonce msg < next_nonce) InvalidStale) (\<lambda>_.
     Inr \<lparr>vr_message = msg, vr_should_init_channel = False, vr_next_nonce = next_nonce\<rparr>)))))"

section \<open>Preparation\<close>

definition pre_dispatch_relay_message ::
    "'x messenger_config \<Rightarrow> message \<Rightarrow> bool \<Rightarrow> 'x xdm_state \<Rightarrow> validity_error + 'x xdm_state" where
  "pre_dispatch_relay_message M msg should_init_channel s =
     and_then
       (if should_init_channel then
          (case msg_payload msg of
             V1 (Protocol (Request (ChannelOpen params))) \<Rightarrow>
               and_then (map_err (\<lambda>_. InvalidCall)
                           (do_init_channel M (msg_src_chain_id msg) params None False 0 s)) (\<lambda>(_, s). Inr s)
           | _ \<Rightarrow> Inl InvalidCall)
        else Inr s) (\<lambda>s.
     let c = msg_src_chain_id msg; i = msg_channel_id msg; n = msg_nonce msg in
     and_then (ok_or (InvalidCustom NEXT_NONCE_UPDATE) (channels s c i)) (\<lambda>ch.
     and_then (ok_or (InvalidCustom NEXT_NONCE_UPDATE) (checked_add 256 n 1)) (\<lambda>next_nonce.
     let s = put_channel c i (ch\<lparr>ch_next_inbox_nonce := next_nonce\<rparr>) s;
         s = deposit_xdm_event (InboxMessage c i n) s in
     Inr (s\<lparr>inbox := Some msg\<rparr>))))"

definition pre_dispatch_relay_message_response :: "message \<Rightarrow> 'x xdm_state \<Rightarrow> validity_error + 'x xdm_state" where
  "pre_dispatch_relay_message_response msg s =
     (let c = msg_src_chain_id msg; i = msg_channel_id msg; n = msg_nonce msg in
      and_then (ok_or (InvalidCustom NEXT_NONCE_UPDATE) (channels s c i)) (\<lambda>ch.
      let s = put_channel c i (ch\<lparr>ch_latest_response_received_message_nonce := Some n\<rparr>) s;
          s = deposit_xdm_event (OutboxMessageResponse c i n) s in
      Inr (s\<lparr>outbox_responses := Some msg\<rparr>)))"

section \<open>The transaction extension\<close>

datatype relay_call = RelayMessage cross_domain_message | RelayMessageResponse cross_domain_message

fun relay_xdm :: "relay_call \<Rightarrow> cross_domain_message" where
  "relay_xdm (RelayMessage xdm) = xdm"
| "relay_xdm (RelayMessageResponse xdm) = xdm"

text \<open>The tag that a message with a future nonce requires, for the transaction pool.\<close>

definition check_future_nonce_and_add_requires ::
    "validated_relay_message \<Rightarrow> validity_error + (chain_id \<times> channel_id \<times> nonce) list" where
  "check_future_nonce_and_add_requires v =
     (let msg = vr_message v in
      if msg_nonce msg > vr_next_nonce v then
        let max_future_nonce = saturating_add 256 (vr_next_nonce v) MAX_FUTURE_ALLOWED_NONCES in
        if msg_nonce msg > max_future_nonce then Inl (InvalidCustom IN_FUTURE_NONCE)
        else Inr [(msg_dst_chain_id msg, msg_channel_id msg, msg_nonce msg - 1)]
      else Inr [])"

text \<open>
  \<open>trusted\<close> is the extension that the domains use, which takes the leaf of the Merkle mountain range as it is and does
  not build tags for the pool.
\<close>

definition extension_validate ::
    "'x messenger_config \<Rightarrow> bool \<Rightarrow> relay_call \<Rightarrow> 'x xdm_state \<Rightarrow> validity_error + validated_relay_message" where
  "extension_validate M trusted call s =
     and_then (ok_or InvalidBadProof
                 ((if trusted then extract_leaf_without_verifying M else verify_proof_and_extract_leaf M)
                    (consensus_mmr_proof (xm_proof (relay_xdm call))) (sys s))) (\<lambda>consensus_state_root.
     and_then
       (case call of
          RelayMessage xdm \<Rightarrow> validate_relay_message M xdm consensus_state_root s
        | RelayMessageResponse xdm \<Rightarrow> validate_relay_message_response M xdm consensus_state_root s) (\<lambda>v.
     if trusted then Inr v
     else and_then (check_future_nonce_and_add_requires v) (\<lambda>_. Inr v)))"

definition extension_prepare ::
    "'x messenger_config \<Rightarrow> relay_call \<Rightarrow> validated_relay_message \<Rightarrow> 'x xdm_state \<Rightarrow> validity_error + 'x xdm_state" where
  "extension_prepare M call v s =
     and_then (ensure (\<not> msg_nonce (vr_message v) > vr_next_nonce v) InvalidFuture) (\<lambda>_.
     case call of
       RelayMessage xdm \<Rightarrow> pre_dispatch_relay_message M (vr_message v) (vr_should_init_channel v) s
     | RelayMessageResponse xdm \<Rightarrow> pre_dispatch_relay_message_response (vr_message v) s)"

section \<open>Calls\<close>

definition relay_message ::
    "'x messenger_config \<Rightarrow> messenger_origin \<Rightarrow> cross_domain_message \<Rightarrow> 'x xdm_state \<Rightarrow> dispatch_error + 'x xdm_state" where
  "relay_message M orig xdm s =
     and_then (ensure (orig = XdmValidatedUnsigned) OriginError) (\<lambda>_.
     and_then (ok_or (MessengerError MissingMessage) (inbox s)) (\<lambda>inbox_msg.
     process_inbox_messages M inbox_msg (xm_weight_tag xdm) (s\<lparr>inbox := None\<rparr>)))"

definition relay_message_response ::
    "'x messenger_config \<Rightarrow> messenger_origin \<Rightarrow> cross_domain_message \<Rightarrow> 'x xdm_state \<Rightarrow> dispatch_error + 'x xdm_state" where
  "relay_message_response M orig xdm s =
     and_then (ensure (orig = XdmValidatedUnsigned) OriginError) (\<lambda>_.
     and_then (ok_or (MessengerError MissingMessage) (outbox_responses s)) (\<lambda>resp_msg.
     process_outbox_message_responses M resp_msg (xm_weight_tag xdm) (s\<lparr>outbox_responses := None\<rparr>)))"

text \<open>
  A relayed message as an extrinsic of a block: validated, prepared and dispatched. A dispatch that fails leaves nothing
  behind but what the preparation stored.
\<close>

definition apply_relay_call ::
    "'x messenger_config \<Rightarrow> bool \<Rightarrow> relay_call \<Rightarrow> 'x xdm_state \<Rightarrow> validity_error + 'x xdm_state" where
  "apply_relay_call M trusted call s =
     and_then (extension_validate M trusted call s) (\<lambda>v.
     and_then (extension_prepare M call v s) (\<lambda>s.
     Inr (case (case call of
                  RelayMessage xdm \<Rightarrow> relay_message M XdmValidatedUnsigned xdm s
                | RelayMessageResponse xdm \<Rightarrow> relay_message_response M XdmValidatedUnsigned xdm s) of
            Inr s' \<Rightarrow> s'
          | Inl e \<Rightarrow> s)))"

definition initiate_channel ::
    "'x messenger_config \<Rightarrow> messenger_origin \<Rightarrow> chain_id \<Rightarrow> 'x xdm_state \<Rightarrow> dispatch_error + 'x xdm_state" where
  "initiate_channel M orig dst_chain_id s =
     and_then (ok_or OriginError (signed_account orig)) (\<lambda>owner.
     let amount = ChannelReserveFee M in
     and_then (ensure (channel_reducible_balance M (sys s) owner \<ge> amount)
                 (MessengerError MessengerInsufficientBalance)) (\<lambda>_.
     and_then (with_sys (MessengerError BalanceHold) (channel_hold M owner amount) s) (\<lambda>s.
     let params = \<lparr>cp_max_outgoing_messages = MaxOutgoingMessages M\<rparr> in
     and_then (do_init_channel M dst_chain_id params (Some owner) True amount s) (\<lambda>(i, s).
     and_then (new_outbox_message (self_chain_id M) dst_chain_id i
                 (V1 (Protocol (Request (ChannelOpen params)))) s) (\<lambda>(_, s).
     Inr s)))))"

definition close_channel ::
    "'x messenger_config \<Rightarrow> messenger_origin \<Rightarrow> chain_id \<Rightarrow> channel_id \<Rightarrow> 'x xdm_state \<Rightarrow> dispatch_error + 'x xdm_state" where
  "close_channel M orig c i s =
     and_then
       (case orig of XdmSigned owner \<Rightarrow> Inr (ByOwner owner) | XdmRoot \<Rightarrow> Inr BySudo | _ \<Rightarrow> Inl OriginError) (\<lambda>by_whom.
     and_then (do_close_channel M c i by_whom s) (\<lambda>s.
     and_then (new_outbox_message (self_chain_id M) c i (V1 (Protocol (Request ChannelClose))) s) (\<lambda>(_, s).
     Inr s)))"

section \<open>Allowlists\<close>

text \<open>Only a registered domain may be added.\<close>

definition ensure_registered_chain ::
    "'x messenger_config \<Rightarrow> chain_allowlist_update \<Rightarrow> 'x xdm_state \<Rightarrow> dispatch_error + unit" where
  "ensure_registered_chain M u s =
     (case u of
        AddChain (Domain d) \<Rightarrow> ensure (is_domain_registered M (sys s) d) (MessengerError InvalidChain)
      | _ \<Rightarrow> Inr ())"

definition update_consensus_chain_allowlist ::
    "'x messenger_config \<Rightarrow> messenger_origin \<Rightarrow> chain_allowlist_update \<Rightarrow> 'x xdm_state \<Rightarrow> dispatch_error + 'x xdm_state" where
  "update_consensus_chain_allowlist M orig u s =
     and_then (ensure (orig = XdmRoot) OriginError) (\<lambda>_.
     and_then (ensure (is_consensus_chain (self_chain_id M)) (MessengerError OperationNotAllowed)) (\<lambda>_.
     and_then (ensure (allowlist_update_chain_id u \<noteq> self_chain_id M) (MessengerError InvalidAllowedChain)) (\<lambda>_.
     and_then (ensure_registered_chain M u s) (\<lambda>_.
     Inr (s\<lparr>chain_allowlist :=
              (case u of
                 AddChain c \<Rightarrow> os_insert c (chain_allowlist s)
               | RemoveChain c \<Rightarrow> os_remove c (chain_allowlist s))\<rparr>)))))"

definition default_allowlist_updates :: domain_allowlist_updates where
  "default_allowlist_updates = \<lparr>au_allow_chains = [], au_remove_chains = []\<rparr>"

fun apply_allowlist_update :: "chain_allowlist_update \<Rightarrow> domain_allowlist_updates \<Rightarrow> domain_allowlist_updates" where
  "apply_allowlist_update (AddChain c) us =
     us\<lparr>au_remove_chains := os_remove c (au_remove_chains us), au_allow_chains := os_insert c (au_allow_chains us)\<rparr>"
| "apply_allowlist_update (RemoveChain c) us =
     us\<lparr>au_allow_chains := os_remove c (au_allow_chains us), au_remove_chains := os_insert c (au_remove_chains us)\<rparr>"

definition initiate_domain_update_chain_allowlist ::
    "'x messenger_config \<Rightarrow> messenger_origin \<Rightarrow> domain_id \<Rightarrow> chain_allowlist_update \<Rightarrow> 'x xdm_state \<Rightarrow>
       dispatch_error + 'x xdm_state" where
  "initiate_domain_update_chain_allowlist M orig d u s =
     and_then (ok_or OriginError (signed_account orig)) (\<lambda>domain_owner.
     and_then (ensure (is_domain_owner M (sys s) d domain_owner) (MessengerError NotDomainOwner)) (\<lambda>_.
     and_then (ensure (is_consensus_chain (self_chain_id M)) (MessengerError OperationNotAllowed)) (\<lambda>_.
     and_then
       (case maybe_domain_chain (allowlist_update_chain_id u) of
          Some d' \<Rightarrow> ensure (d' \<noteq> d) (MessengerError InvalidAllowedChain)
        | None \<Rightarrow> Inr ()) (\<lambda>_.
     and_then (ensure_registered_chain M u s) (\<lambda>_.
     let us = (case domain_chain_allowlist_update s d of Some us \<Rightarrow> us | None \<Rightarrow> default_allowlist_updates) in
     Inr (s\<lparr>domain_chain_allowlist_update :=
              (domain_chain_allowlist_update s)(d \<mapsto> apply_allowlist_update u us)\<rparr>))))))"

definition update_domain_allowlist ::
    "'x messenger_config \<Rightarrow> messenger_origin \<Rightarrow> domain_allowlist_updates \<Rightarrow> 'x xdm_state \<Rightarrow> dispatch_error + 'x xdm_state" where
  "update_domain_allowlist M orig us s =
     and_then (ensure (orig = XdmNone) OriginError) (\<lambda>_.
     and_then (ensure (\<not> is_consensus_chain (self_chain_id M)) (MessengerError OperationNotAllowed)) (\<lambda>_.
     Inr (s\<lparr>chain_allowlist :=
              fold os_insert (au_allow_chains us) (fold os_remove (au_remove_chains us) (chain_allowlist s))\<rparr>)))"

definition allowlist_updates_is_empty :: "domain_allowlist_updates \<Rightarrow> bool" where
  "allowlist_updates_is_empty us = (au_allow_chains us = [] \<and> au_remove_chains us = [])"

definition allowlist_updates_clear :: "domain_allowlist_updates \<Rightarrow> domain_allowlist_updates" where
  "allowlist_updates_clear us = us\<lparr>au_allow_chains := [], au_remove_chains := []\<rparr>"

definition domain_chains_allowlist_update :: "domain_id \<Rightarrow> 'x xdm_state \<Rightarrow> domain_allowlist_updates option" where
  "domain_chains_allowlist_update d s =
     (case domain_chain_allowlist_update s d of
        Some us \<Rightarrow> if \<not> allowlist_updates_is_empty us then Some us else None
      | None \<Rightarrow> None)"

definition domain_bundle_submitted :: "domain_id \<Rightarrow> 'x xdm_state \<Rightarrow> 'x xdm_state" where
  "domain_bundle_submitted d s =
     (case domain_chain_allowlist_update s d of
        Some us \<Rightarrow> s\<lparr>domain_chain_allowlist_update :=
                       (domain_chain_allowlist_update s)(d \<mapsto> allowlist_updates_clear us)\<rparr>
      | None \<Rightarrow> s)"

definition on_domain_instantiated :: "domain_id \<Rightarrow> 'x xdm_state \<Rightarrow> 'x xdm_state" where
  "on_domain_instantiated d s =
     s\<lparr>domain_chain_allowlist_update := (domain_chain_allowlist_update s)(d \<mapsto> default_allowlist_updates)\<rparr>"

text \<open>
  The inherent that brings the updates of the allowlist to a domain: \<open>updates\<close> is \<open>maybe_updates\<close> of the inherent data,
  a call is \<open>None\<close> where it is not \<open>update_domain_allowlist\<close>.
\<close>

datatype inherent_error = MissingAllowlistUpdates | IncorrectAllowlistUpdates

definition is_inherent_required :: "domain_allowlist_updates option \<Rightarrow> inherent_error option" where
  "is_inherent_required updates = (if updates = None then None else Some MissingAllowlistUpdates)"

definition check_inherent ::
    "domain_allowlist_updates option \<Rightarrow> domain_allowlist_updates option \<Rightarrow> inherent_error + unit" where
  "check_inherent call updates =
     (case updates of
        Some provided \<Rightarrow>
          (case call of
             Some us \<Rightarrow> if us \<noteq> provided then Inl IncorrectAllowlistUpdates else Inr ()
           | None \<Rightarrow> Inr ())
      | None \<Rightarrow> Inl MissingAllowlistUpdates)"

section \<open>What a relayer asks\<close>

record channel_nonce =
  cn_relay_msg_nonce :: "nonce option"
  cn_relay_response_msg_nonce :: "nonce option"

definition channel_nonce_of :: "chain_id \<Rightarrow> channel_id \<Rightarrow> 'x xdm_state \<Rightarrow> channel_nonce option" where
  "channel_nonce_of c i s =
     map_option (\<lambda>ch. \<lparr>cn_relay_msg_nonce = checked_sub (ch_next_inbox_nonce ch) 1,
                       cn_relay_response_msg_nonce = ch_latest_response_received_message_nonce ch\<rparr>)
       (channels s c i)"

text \<open>
  The loop that looks for the first message to relay. \<open>None\<close> is a loop that never ends: at the largest nonce the
  saturating increment stays within the bound.
\<close>

partial_function (option) search_relay_message :: "(nonce \<Rightarrow> bool) \<Rightarrow> nonce \<Rightarrow> nonce \<Rightarrow> nonce option option" where
  "search_relay_message check nonce to_nonce =
     (if nonce \<le> to_nonce then
        if check nonce then Some (Some nonce)
        else search_relay_message check (saturating_add 256 nonce 1) to_nonce
      else Some None)"

definition first_relay_message ::
    "chain_id \<Rightarrow> channel_id \<Rightarrow> nonce \<Rightarrow> (message_key \<Rightarrow> bool) \<Rightarrow> nonce option option" where
  "first_relay_message c i from_nonce check =
     search_relay_message (\<lambda>n. check (c, i, n)) from_nonce
       (saturating_add 256 from_nonce MAX_FUTURE_ALLOWED_NONCES)"

definition first_outbox_message_nonce_to_relay ::
    "chain_id \<Rightarrow> channel_id \<Rightarrow> nonce \<Rightarrow> 'x xdm_state \<Rightarrow> nonce option option" where
  "first_outbox_message_nonce_to_relay c i from_nonce s =
     first_relay_message c i from_nonce (\<lambda>k. outbox s k \<noteq> None)"

definition first_inbox_message_response_nonce_to_relay ::
    "chain_id \<Rightarrow> channel_id \<Rightarrow> nonce \<Rightarrow> 'x xdm_state \<Rightarrow> nonce option option" where
  "first_inbox_message_response_nonce_to_relay c i from_nonce s =
     first_relay_message c i from_nonce (\<lambda>k. inbox_responses s k \<noteq> None)"

text \<open>
  The loop of \<open>get_weight_tags\<close>. Every round inserts a new nonce, so that the bound on the size of the map is a bound on
  the rounds that are left.
\<close>

fun collect_weight_tags ::
    "nat \<Rightarrow> (nonce \<Rightarrow> message_weight_tag option) \<Rightarrow> nonce \<Rightarrow> (nonce \<times> message_weight_tag) list \<Rightarrow>
       (nonce \<times> message_weight_tag) list" where
  "collect_weight_tags 0 getter n tags = tags"
| "collect_weight_tags (Suc k) getter n tags =
     (case getter n of
        None \<Rightarrow> tags
      | Some tag \<Rightarrow>
          let tags = om_insert n tag tags in
          (case checked_add 256 n 1 of
             None \<Rightarrow> tags
           | Some n' \<Rightarrow> collect_weight_tags k getter n' tags))"

definition get_weight_tags ::
    "message_key \<Rightarrow> (chain_id \<times> message_id \<Rightarrow> message_weight_tag option) \<Rightarrow> (nonce \<times> message_weight_tag) list" where
  "get_weight_tags key getter =
     (case key of (c, i, n) \<Rightarrow>
        collect_weight_tags (Suc MAX_FUTURE_ALLOWED_NONCES) (\<lambda>n. getter (c, (i, n))) n [])"

record block_messages_query =
  bq_chain_id :: chain_id
  bq_channel_id :: channel_id
  bq_outbox_from :: nonce
  bq_inbox_responses_from :: nonce

record message_nonce_with_storage_key =
  mk_nonce :: nonce
  mk_storage_key :: storage_key
  mk_weight_tag :: message_weight_tag

record messages_with_storage_key =
  ms_outbox :: "message_nonce_with_storage_key list"
  ms_inbox_responses :: "message_nonce_with_storage_key list"

text \<open>\<open>hashed_key_for\<close> of the two maps are the parameters \<open>outbox_key\<close> and \<open>responses_key\<close>.\<close>

definition get_block_messages ::
    "(message_key \<Rightarrow> storage_key) \<Rightarrow> (message_key \<Rightarrow> storage_key) \<Rightarrow> block_messages_query \<Rightarrow> 'x xdm_state \<Rightarrow>
       messages_with_storage_key" where
  "get_block_messages outbox_key responses_key q s =
     (let c = bq_chain_id q; i = bq_channel_id q;
          with_key = (\<lambda>key (n, tag). \<lparr>mk_nonce = n, mk_storage_key = key (c, i, n), mk_weight_tag = tag\<rparr>);
          responses = get_weight_tags (c, i, bq_inbox_responses_from q) (inbox_response_message_weight_tags s);
          messages = get_weight_tags (c, i, bq_outbox_from q) (outbox_message_weight_tags s) in
      if messages = [] \<and> responses = [] then \<lparr>ms_outbox = [], ms_inbox_responses = []\<rparr>
      else \<lparr>ms_outbox = map (with_key outbox_key) messages,
             ms_inbox_responses = map (with_key responses_key) responses\<rparr>)"

end
