(* ===== verification/Cross_Domain_Runtime.thy ===== *)
theory Cross_Domain_Runtime
  imports Transporter Messenger_Calls Post_Conditions
begin

text \<open>
  A chain that runs both pallets: the messenger hands the requests and responses for the transporter's endpoint to the
  transporter, the transporter sends its transfers through the messenger (the configuration of the two pallets in
  crates/subspace-runtime/src/lib.rs and in the runtimes of the domains). The calls of the chain are the steps of the
  relation \<open>xdm_call\<close>; the lemmas say what each of them does to the nonces and the outboxes of the channels.
\<close>

section \<open>The configuration of a runtime\<close>

definition transporter_handler :: "'x transporter_config \<Rightarrow> weight \<Rightarrow> weight \<Rightarrow> 'x endpoint_handler" where
  "transporter_handler C w w' =
     \<lparr>eh_message = transporter_message C, eh_message_weight = w,
      eh_message_response = transporter_message_response C, eh_message_response_weight = w'\<rparr>"

definition runtime_endpoint_handler ::
    "'x transporter_config \<Rightarrow> weight \<Rightarrow> weight \<Rightarrow> endpoint \<Rightarrow> 'x endpoint_handler option" where
  "runtime_endpoint_handler C w w' e =
     (if e = EndpointIdOf (SelfEndpointId C) then Some (transporter_handler C w w') else None)"

text \<open>The messenger \<open>M\<close> of a runtime whose transporter is \<open>C\<close>; \<open>w\<close> and \<open>w'\<close> are the weights of its two handlers.\<close>

definition runtime_messenger ::
    "'x transporter_config \<Rightarrow> weight \<Rightarrow> weight \<Rightarrow> 'x messenger_config \<Rightarrow> 'x messenger_config" where
  "runtime_messenger C w w' M =
     M\<lparr>self_chain_id := SelfChainId C, get_endpoint_handler := runtime_endpoint_handler C w w',
       note_chain_transfer_in := note_transfer_in C, note_chain_transfer_out := note_transfer_out C\<rparr>"

text \<open>The calls of a chain, with the message that a relayer has brought.\<close>

inductive xdm_call ::
    "'x transporter_config \<Rightarrow> 'x messenger_config \<Rightarrow> message option \<Rightarrow> 'x xdm_state \<Rightarrow> 'x xdm_state \<Rightarrow> bool"
  for C :: "'x transporter_config" and M :: "'x messenger_config" where
  transfer_call:
    "transporter_transfer C (send_message M) orig loc amount s = Inr s' \<Longrightarrow> xdm_call C M None s s'"
| initiate_channel_call: "initiate_channel M orig_m c s = Inr s' \<Longrightarrow> xdm_call C M None s s'"
| close_channel_call: "close_channel M orig_m c i s = Inr s' \<Longrightarrow> xdm_call C M None s s'"
| relay_message_call:
    "extension_validate M trusted (RelayMessage xdm) s = Inr v \<Longrightarrow>
     apply_relay_call M trusted (RelayMessage xdm) s = Inr s' \<Longrightarrow> xdm_call C M (Some (vr_message v)) s s'"
| relay_response_call:
    "apply_relay_call M trusted (RelayMessageResponse xdm) s = Inr s' \<Longrightarrow> xdm_call C M None s s'"
| consensus_allowlist_call: "update_consensus_chain_allowlist M orig_m u s = Inr s' \<Longrightarrow> xdm_call C M None s s'"
| initiate_allowlist_call:
    "initiate_domain_update_chain_allowlist M orig_m d u s = Inr s' \<Longrightarrow> xdm_call C M None s s'"
| domain_allowlist_call: "update_domain_allowlist M orig_m us s = Inr s' \<Longrightarrow> xdm_call C M None s s'"
| bundle_submitted_call: "xdm_call C M None s (domain_bundle_submitted d s)"
| domain_instantiated_call: "xdm_call C M None s (on_domain_instantiated d s)"

text \<open>What happens between the calls: other pallets run, and a block begins.\<close>

definition between_calls :: "'x xdm_state \<Rightarrow> 'x xdm_state \<Rightarrow> bool" where
  "between_calls s s' \<longleftrightarrow>
     (\<exists>x. s' = s\<lparr>sys := x\<rparr>) \<or> s' = transporter_on_initialize (messenger_on_initialize s)"

section \<open>Nonces and outboxes\<close>

definition out_nonce :: "chain_id \<Rightarrow> channel_id \<Rightarrow> 'x xdm_state \<Rightarrow> nonce" where
  "out_nonce c i s = (case channels s c i of Some ch \<Rightarrow> ch_next_outbox_nonce ch | None \<Rightarrow> 0)"

definition in_nonce :: "chain_id \<Rightarrow> channel_id \<Rightarrow> 'x xdm_state \<Rightarrow> nonce" where
  "in_nonce c i s = (case channels s c i of Some ch \<Rightarrow> ch_next_inbox_nonce ch | None \<Rightarrow> 0)"

text \<open>The identifiers from the next one on are unused.\<close>

definition ids_fresh :: "'x xdm_state \<Rightarrow> bool" where
  "ids_fresh s \<longleftrightarrow> (\<forall>c i. next_channel_id s c \<le> i \<longrightarrow> channels s c i = None)"

text \<open>
  What a call does to the channels: \<open>sent\<close> is the message it has put into an outbox and \<open>received\<close> the message it has
  taken in. Nothing else is added to an outbox, and no other nonce moves.
\<close>

definition moved ::
    "chain_id \<Rightarrow> message option \<Rightarrow> message option \<Rightarrow> 'x xdm_state \<Rightarrow> 'x xdm_state \<Rightarrow> bool" where
  "moved self sent received s s' \<longleftrightarrow>
     (ids_fresh s \<longrightarrow>
        ids_fresh s' \<and>
        (\<forall>c i. out_nonce c i s' = out_nonce c i s +
           (case sent of Some m \<Rightarrow> if msg_dst_chain_id m = c \<and> msg_channel_id m = i then 1 else 0 | None \<Rightarrow> 0)) \<and>
        (\<forall>c i. in_nonce c i s' =
           (case received of
              Some m \<Rightarrow> if msg_src_chain_id m = c \<and> msg_channel_id m = i then Suc (msg_nonce m) else in_nonce c i s
            | None \<Rightarrow> in_nonce c i s)) \<and>
        (\<forall>c i n m. outbox s' (c, i, n) = Some m \<longrightarrow>
           outbox s (c, i, n) = Some m \<or>
           sent = Some m \<and> msg_dst_chain_id m = c \<and> msg_channel_id m = i \<and> msg_nonce m = n) \<and>
        (\<forall>m. sent = Some m \<longrightarrow>
           msg_src_chain_id m = self \<and>
           msg_nonce m = out_nonce (msg_dst_chain_id m) (msg_channel_id m) s \<and>
           outbox s' (msg_dst_chain_id m, msg_channel_id m, msg_nonce m) = Some m))"

abbreviation quiet :: "'x xdm_state \<Rightarrow> 'x xdm_state \<Rightarrow> bool" where
  "quiet s s' \<equiv> moved Consensus None None s s'"

lemma quiet_iff:
  "quiet s s' \<longleftrightarrow>
     (ids_fresh s \<longrightarrow>
        ids_fresh s' \<and> (\<forall>c i. out_nonce c i s' = out_nonce c i s) \<and> (\<forall>c i. in_nonce c i s' = in_nonce c i s) \<and>
        (\<forall>c i n m. outbox s' (c, i, n) = Some m \<longrightarrow> outbox s (c, i, n) = Some m))"
  by (simp add: moved_def)

interpretation quiet: state_preorder quiet
  by unfold_locales (auto simp: quiet_iff)

lemma quietD:
  assumes "quiet s t" and "ids_fresh s"
  shows "ids_fresh t" "out_nonce c i t = out_nonce c i s" "in_nonce c i t = in_nonce c i s"
    "outbox t (c, i, n) = Some m \<Longrightarrow> outbox s (c, i, n) = Some m"
  using assms by (auto simp: quiet_iff)

lemma quiet_moved:
  assumes "quiet s t" "moved self sent received t u"
  shows "moved self sent received s u"
  unfolding moved_def
proof (intro impI)
  assume "ids_fresh s"
  note q = quietD [OF assms(1) this]
  from assms(2) q(4) show "ids_fresh u \<and>
      (\<forall>c i. out_nonce c i u = out_nonce c i s +
         (case sent of Some m \<Rightarrow> if msg_dst_chain_id m = c \<and> msg_channel_id m = i then 1 else 0 | None \<Rightarrow> 0)) \<and>
      (\<forall>c i. in_nonce c i u =
         (case received of
            Some m \<Rightarrow> if msg_src_chain_id m = c \<and> msg_channel_id m = i then Suc (msg_nonce m) else in_nonce c i s
          | None \<Rightarrow> in_nonce c i s)) \<and>
      (\<forall>c i n m. outbox u (c, i, n) = Some m \<longrightarrow>
         outbox s (c, i, n) = Some m \<or>
         sent = Some m \<and> msg_dst_chain_id m = c \<and> msg_channel_id m = i \<and> msg_nonce m = n) \<and>
      (\<forall>m. sent = Some m \<longrightarrow>
         msg_src_chain_id m = self \<and>
         msg_nonce m = out_nonce (msg_dst_chain_id m) (msg_channel_id m) s \<and>
         outbox u (msg_dst_chain_id m, msg_channel_id m, msg_nonce m) = Some m)"
    unfolding moved_def q(2,3) using q(1) by blast
qed

lemma moved_quiet:
  assumes "moved self sent received s t" "quiet t u" "outbox u = outbox t"
  shows "moved self sent received s u"
proof (cases "ids_fresh s")
  case True
  with assms(1) have "ids_fresh t" by (simp add: moved_def)
  note q = quietD [OF assms(2) this]
  from assms(1) show ?thesis
    unfolding moved_def q(2,3) assms(3) using q(1) by blast
qed (simp add: moved_def)

lemma received_quiet:
  assumes "moved self None received s t" "quiet t u"
  shows "moved self None received s u"
proof (cases "ids_fresh s")
  case True
  with assms(1) have "ids_fresh t" by (simp add: moved_def)
  note q = quietD [OF assms(2) this]
  from assms(1) True show ?thesis
    unfolding moved_def q(2,3) using q(1,4) by simp
qed (simp add: moved_def)

lemma moved_none_self: "moved self None received s s' \<longleftrightarrow> moved self' None received s s'"
  by (simp add: moved_def)

text \<open>An operation that leaves the channels and the outbox alone.\<close>

definition same_channels :: "'x xdm_state \<Rightarrow> 'x xdm_state \<Rightarrow> bool" where
  "same_channels s s' \<longleftrightarrow>
     channels s' = channels s \<and> next_channel_id s' = next_channel_id s \<and> outbox s' = outbox s"

interpretation channels: state_preorder same_channels
  by unfold_locales (auto simp: same_channels_def)

lemma same_channels_quiet: "same_channels s s' \<Longrightarrow> quiet s s'"
  by (auto simp: same_channels_def quiet_iff ids_fresh_def out_nonce_def in_nonce_def)

section \<open>What the operations do to the channels\<close>

lemma quiet_put_channel:
  assumes "channels s c i = Some ch" "ch_next_outbox_nonce ch' = ch_next_outbox_nonce ch"
    "ch_next_inbox_nonce ch' = ch_next_inbox_nonce ch"
  shows "quiet s (put_channel c i ch' s)"
  using assms unfolding quiet_iff
  by (auto simp: put_channel_def ids_fresh_def out_nonce_def in_nonce_def)

lemma channels_event: "same_channels s (deposit_xdm_event e t) = same_channels s t"
  by (simp add: same_channels_def deposit_xdm_event_def)

lemma quiet_event: "moved self sent received s (deposit_xdm_event e t) = moved self sent received s t"
  by (simp add: moved_def deposit_xdm_event_def ids_fresh_def out_nonce_def in_nonce_def)

lemma post_add_to_transfers [post_simps]: "post (add_to_transfers c a m) Q \<longleftrightarrow> (\<forall>m'. add_to_transfers c a m = Inr m' \<longrightarrow> Q m')"
  by (simp add: post_def)

lemma channels_account_transfer:
  "post (account_transfer_out C c a s) (same_channels s)"
  "post (account_transfer_in C c a s) (same_channels s)"
  "post (account_transfer_rejected C c a s) (same_channels s)"
  "post (account_transfer_revert C c a s) (same_channels s)"
  by (auto simp: account_transfer_out_def account_transfer_in_def account_transfer_rejected_def
      account_transfer_revert_def transporter_note_transfer_def transporter_confirm_transfer_def
      transporter_reject_transfer_def transporter_claim_rejected_transfer_def debit_domain_def credit_domain_def
      mutate_chain_transfers_def update_transfer_out_def update_transfer_in_def update_transfer_rejected_def
      update_transfer_revert_def same_channels_def ensure_consensus_chain_def post_simps post_add_to_transfers)

lemma channels_finalize_transfer: "post (finalize_transfer C c m tf s) (\<lambda>(_, s'). same_channels s s')"
  unfolding finalize_transfer_def
  by (auto simp: post_simps Let_def deposit_xdm_event_def same_channels_def
      intro!: channels_account_transfer(2) [unfolded same_channels_def, THEN post_mono])

lemma channels_transporter_message: "same_channels s (snd (transporter_message C c m req pre s))"
proof (cases "transfer_decode C (eq_payload req)")
  case None
  then show ?thesis by (simp add: transporter_message_def)
next
  case (Some tf)
  let ?pre = "and_then (ensure (SelfChainId C \<noteq> c) (TransporterError InvalidTransferRequest)) (\<lambda>_.
    and_then (ensure (eq_dst_endpoint req = EndpointIdOf (SelfEndpointId C)) (TransporterError UnexpectedMessage)) (\<lambda>_. pre))"
  let ?r = "and_then ?pre (\<lambda>_. finalize_transfer C c m tf s)"
  have "post ?r (\<lambda>(_, s'). same_channels s s')"
    using channels_finalize_transfer [of C c m tf s] by (auto simp: post_def result_simps)
  with Some channels_account_transfer(3) [of C c "tf_amount tf" s] show ?thesis
    by (cases ?r; cases "account_transfer_rejected C c (tf_amount tf) s") (auto simp: transporter_message_def Let_def post_def)
qed

lemma channels_transporter_message_response: "same_channels s (snd (transporter_message_response C c m req resp s))"
proof (cases "outgoing_transfers s c m")
  case None
  then show ?thesis by (simp add: transporter_message_response_def)
next
  case (Some tf)
  let ?s = "s\<lparr>outgoing_transfers := (outgoing_transfers s)(c := (outgoing_transfers s c)(m := None))\<rparr>"
  have "post (account_transfer_revert C c (tf_amount tf) ?s) (same_channels s)"
    by (rule channels_account_transfer(4) [THEN post_mono]) (simp add: same_channels_def)
  with Some show ?thesis
    by (cases resp; cases "account_try_convert_back C (loc_account_id (tf_sender tf))";
        cases "account_transfer_revert C c (tf_amount tf) ?s")
      (simp_all add: transporter_message_response_def Let_def post_def channels_event, simp_all add: same_channels_def)
qed

lemma channels_take_inbox_responses: "same_channels s (snd (take_inbox_responses c i n fees s))"
proof (induction n arbitrary: fees s)
  case 0
  then show ?case by (simp add: same_channels_def Let_def split: option.split)
next
  case (Suc n)
  have step: "same_channels s t \<Longrightarrow> same_channels s (snd (take_inbox_responses c i n fees t))" for fees t
    by (rule channels.keeps_trans [OF _ Suc.IH])
  show ?case
    by (subst take_inbox_responses.simps)
      (auto simp: Let_def simp del: take_inbox_responses.simps split: option.split intro!: step, simp_all add: same_channels_def)
qed

lemma channels_rewards:
  "post (reward_operators_for_inbox_execution M c i n s) (same_channels s)"
  "post (reward_operators_for_outbox_execution M c m s) (same_channels s)"
proof -
  show "post (reward_operators_for_inbox_execution M c i n s) (same_channels s)"
    unfolding reward_operators_for_inbox_execution_def
    using channels_take_inbox_responses [of s c i _ 0]
    by (auto simp: post_simps Let_def same_channels_def simp del: take_inbox_responses.simps)
  show "post (reward_operators_for_outbox_execution M c m s) (same_channels s)"
    unfolding reward_operators_for_outbox_execution_def
    by (auto simp: post_simps Let_def same_channels_def)
qed

lemma post_any: "post m (\<lambda>_. True)"
  by (simp add: post_def)

lemma post_with_sys [post_simps]: "post (with_sys e f s) Q \<longleftrightarrow> (\<forall>x. f (sys s) = Some x \<longrightarrow> Q (s\<lparr>sys := x\<rparr>))"
  by (auto simp: post_def with_sys_Inr_iff)

lemma channels_release_reserve: "post (release_channel_reserve M c ch s) (same_channels s)"
  unfolding release_channel_reserve_def
  by (auto simp: post_simps Let_def same_channels_def intro!: post_any [THEN post_mono] split: option.split)

lemma quiet_do_open_channel: "post (do_open_channel c i s) (quiet s)"
  unfolding do_open_channel_def
  by (auto simp: post_simps quiet_event intro!: quiet_put_channel)

lemma quiet_do_close_channel: "post (do_close_channel M c i by_whom s) (quiet s)"
proof -
  have put: "quiet s (put_channel c i (ch\<lparr>ch_state := Closed\<rparr>) t)" if "channels s c i = Some ch" "same_channels s t" for ch t
    using that(1) same_channels_quiet [OF that(2)] that(2)
    by (intro quiet.keeps_trans [OF _ quiet_put_channel]) (auto simp: same_channels_def)
  show ?thesis
    unfolding do_close_channel_def
    by (cases by_whom) (auto simp: post_simps quiet_event intro!: put channels_release_reserve [THEN post_mono])
qed

lemma quiet_do_init_channel: "post (do_init_channel M c p own chk fee s) (\<lambda>(i, s'). quiet s s')"
  unfolding do_init_channel_def quiet_iff
  by (auto simp: post_simps Let_def deposit_xdm_event_def put_channel_def checked_add_Some_iff ids_fresh_def
      out_nonce_def in_nonce_def)

lemma new_outbox_message_moved:
  assumes "new_outbox_message self c i p s = Inr (n, s')"
  shows "\<exists>m. moved self (Some m) None s s'"
proof -
  from assms obtain ch where ch: "channels s c i = Some ch" and n: "n = ch_next_outbox_nonce ch"
    and s': "s' = put_channel c i (ch\<lparr>ch_next_outbox_nonce := Suc n\<rparr>) (deposit_xdm_event (OutboxMessage c i n)
       (s\<lparr>outbox := (outbox s)((c, i, n) \<mapsto> \<lparr>msg_src_chain_id = self, msg_dst_chain_id = c, msg_channel_id = i,
             msg_nonce = n, msg_payload = p,
             msg_last_delivered_message_response_nonce = ch_latest_response_received_message_nonce ch\<rparr>),
          outbox_message_count := (outbox_message_count s)((c, i) := Suc (outbox_message_count s (c, i))),
          outbox_message_weight_tags := (outbox_message_weight_tags s)((c, (i, n)) \<mapsto> weight_tag_outbox p)\<rparr>))"
    by (auto simp: new_outbox_message_def result_simps Let_def arith_simps)
  show ?thesis
    unfolding s' moved_def
    by (rule exI [of _ "\<lparr>msg_src_chain_id = self, msg_dst_chain_id = c, msg_channel_id = i, msg_nonce = n, msg_payload = p,
          msg_last_delivered_message_response_nonce = ch_latest_response_received_message_nonce ch\<rparr>"])
      (use ch n in \<open>auto simp: deposit_xdm_event_def put_channel_def ids_fresh_def out_nonce_def in_nonce_def\<close>)
qed

lemma channels_collect_fees: "post (collect_fees_for_message_v1 M who e s) (\<lambda>(_, s'). same_channels s s')"
  unfolding collect_fees_for_message_v1_def
  by (auto simp: post_simps Let_def same_channels_def intro!: post_any [THEN post_mono])

section \<open>Endpoints\<close>

text \<open>
  What the messenger relies on: an endpoint handler and the accounting of transfers leave channels and outboxes alone.
  Then processing a message moves no nonce, and a relayed message moves exactly the nonce of its channel.
\<close>

locale channel_endpoints =
  fixes M :: "'x messenger_config"
  assumes handler_message: "get_endpoint_handler M e = Some h \<Longrightarrow> same_channels s (snd (eh_message h c m req pre s))"
    and handler_response: "get_endpoint_handler M e = Some h \<Longrightarrow> same_channels s (snd (eh_message_response h c m req resp s))"
    and noted_in: "same_channels s (snd (note_chain_transfer_in M a c s))"
    and noted_out: "same_channels s (snd (note_chain_transfer_out M a c s))"
begin

lemma channels_store_fee:
  "post (store_inbox_fee M c m a s) (same_channels s)"
  "post (store_outbox_fee M c m a b s) (same_channels s)"
  unfolding store_inbox_fee_def store_outbox_fee_def
  by (auto simp: post_simps Let_def intro!: channels.keeps_trans [OF _ noted_in] channels.keeps_trans [OF _ noted_out])
    (simp_all add: same_channels_def)

lemma quiet_response_to: "post (response_to M msg tag s) (\<lambda>(_, s'). quiet s s')"
proof -
  have protocol: "quiet s (snd (as_response (process_incoming_protocol_message_req M c i req tag s) s))" for c i req
    using quiet_do_open_channel [of c i s] quiet_do_close_channel [of M c i BySudo s]
    by (auto simp: as_response_def process_incoming_protocol_message_req_def post_def and_then_Inr_iff
        split: sum.splits protocol_message_request.splits)
  have handler: "quiet s (snd (case get_endpoint_handler M (eq_dst_endpoint req) of
      Some h \<Rightarrow> process_incoming_endpoint_message_req c req i n tag h t | None \<Rightarrow> (Inl e, t)))"
    if "same_channels s t" for req c i n t e
  proof (cases "get_endpoint_handler M (eq_dst_endpoint req)")
    case None
    then show ?thesis using that by (simp add: same_channels_quiet)
  next
    case (Some h)
    then show ?thesis
      using channels.keeps_trans [OF that handler_message [OF Some]]
      by (simp add: process_incoming_endpoint_message_req_def Let_def same_channels_quiet)
  qed
  obtain p where p: "msg_payload msg = V1 p" by (cases "msg_payload msg")
  show ?thesis
  proof (cases p)
    case (Protocol x)
    with p protocol show ?thesis by (cases x) (auto simp: response_to_def post_simps Let_def split: prod.split)
  next
    case (EndpointPayload x)
    with p show ?thesis
      by (cases x) (auto simp: response_to_def post_simps Let_def intro!: handler channels_store_fee [THEN post_mono])
  qed
qed

lemma quiet_process_inbox_messages: "post (process_inbox_messages M msg tag s) (quiet s)"
proof -
  have upd: "quiet s t \<Longrightarrow> quiet s (t\<lparr>inbox_responses := x, inbox_response_message_weight_tags := y, updated_channels := z\<rparr>)"
    for t x y z by (simp add: quiet_iff ids_fresh_def out_nonce_def in_nonce_def)
  have reward: "post (reward_operators_for_inbox_execution M c i n t) (quiet s)" if "quiet s t" for c i n t
    by (rule channels_rewards(1) [THEN post_mono]) (rule quiet.keeps_trans [OF that same_channels_quiet])
  show ?thesis
    unfolding process_inbox_messages_def
    by (auto simp: post_simps Let_def quiet_event intro!: quiet_response_to [THEN post_mono] reward [THEN post_mono] upd)
qed

lemma quiet_handle_response: "post (handle_response M req_msg resp_msg tag s) (\<lambda>(_, s'). quiet s s')"
proof -
  have protocol: "quiet s (snd (as_response (process_incoming_protocol_message_response c i req resp tag s) s))" for c i req resp
    using quiet_do_open_channel [of c i s]
    by (auto simp: as_response_def process_incoming_protocol_message_response_def post_def and_then_Inr_iff
        split: sum.splits protocol_message_request.splits)
  have handler: "quiet s (snd (case get_endpoint_handler M (eq_dst_endpoint req) of
      Some h \<Rightarrow> process_incoming_endpoint_message_response c i n tag req resp h t | None \<Rightarrow> (Inl e, t)))"
    if "same_channels s t" for req resp c i n t e
  proof (cases "get_endpoint_handler M (eq_dst_endpoint req)")
    case None
    then show ?thesis using that by (simp add: same_channels_quiet)
  next
    case (Some h)
    then show ?thesis
      using that channels.keeps_trans [OF that handler_response [OF Some]]
      by (simp add: process_incoming_endpoint_message_response_def same_channels_quiet)
  qed
  obtain p q where pq: "msg_payload req_msg = V1 p" "msg_payload resp_msg = V1 q"
    by (cases "msg_payload req_msg"; cases "msg_payload resp_msg")
  show ?thesis
  proof (cases p)
    case (Protocol x)
    with pq protocol show ?thesis
      by (cases q; cases x) (auto simp: handle_response_def post_simps Let_def case_prod_beta split: request_response.split)
  next
    case (EndpointPayload x)
    with pq show ?thesis
      by (cases q; cases x) (auto simp: handle_response_def post_simps Let_def case_prod_beta split: request_response.split
          intro!: handler channels_rewards(2) [THEN post_mono])
  qed
qed

lemma quiet_process_outbox_message_responses: "post (process_outbox_message_responses M msg tag s) (quiet s)"
proof -
  have upd: "quiet s t \<Longrightarrow> quiet s (t\<lparr>updated_channels := z\<rparr>)" for t z
    by (simp add: quiet_iff ids_fresh_def out_nonce_def in_nonce_def)
  have taken: "quiet s (s\<lparr>outbox := (outbox s)(k := None), outbox_message_count := x, outbox_message_weight_tags := y\<rparr>)" for k x y
    by (simp add: quiet_iff ids_fresh_def out_nonce_def in_nonce_def)
  have handled: "post (handle_response M req msg tag t) (\<lambda>(_, s'). quiet s s')" if "quiet s t" for req t
    by (rule quiet_handle_response [THEN post_mono]) (auto intro: quiet.keeps_trans [OF that])
  show ?thesis
    unfolding process_outbox_message_responses_def
    by (auto simp: post_simps Let_def quiet_event intro!: handled [THEN post_mono] upd taken)
qed

lemma relay_call_quiet:
  "post (relay_message M orig xdm s) (quiet s)" "post (relay_message_response M orig xdm s) (quiet s)"
proof -
  have taken: "quiet s (s\<lparr>inbox := None\<rparr>)" "quiet s (s\<lparr>outbox_responses := None\<rparr>)"
    by (simp_all add: quiet_iff ids_fresh_def out_nonce_def in_nonce_def)
  show "post (relay_message M orig xdm s) (quiet s)" "post (relay_message_response M orig xdm s) (quiet s)"
    unfolding relay_message_def relay_message_response_def
    by (auto simp: post_simps intro!: quiet_process_inbox_messages [THEN post_mono]
        quiet_process_outbox_message_responses [THEN post_mono] intro: quiet.keeps_trans [OF taken(1)] quiet.keeps_trans [OF taken(2)])
qed

lemma send_message_moved:
  assumes "send_message M who c req s = Inr (x, s')"
  shows "\<exists>m. moved (self_chain_id M) (Some m) None s s'"
proof -
  from assms obtain i collected t n u where
    c: "collect_fees_for_message_v1 M who (eq_src_endpoint req) s = Inr (collected, t)" and
    n: "new_outbox_message (self_chain_id M) c i
      (V1 (EndpointPayload (Request \<lparr>ef_req = req, ef_collected_fee = collected\<rparr>))) t = Inr (n, u)" and
    f: "store_outbox_fee M c (i, n) (cf_src_chain_fee collected) (cf_dst_chain_fee collected) u = Inr s'"
    by (auto simp: send_message_def result_simps)
  from new_outbox_message_moved [OF n] obtain m where m: "moved (self_chain_id M) (Some m) None t u" by blast
  have "quiet s t" using postD [OF channels_collect_fees c] by (simp add: same_channels_quiet)
  from quiet_moved [OF this m] have "moved (self_chain_id M) (Some m) None s u" .
  moreover from postD [OF channels_store_fee(2) f] have "quiet u s'" "outbox s' = outbox u"
    by (auto simp: same_channels_quiet) (simp add: same_channels_def)
  ultimately show ?thesis using moved_quiet by blast
qed

end

lemma runtime_messenger_simps [simp]:
  "self_chain_id (runtime_messenger C w w' M) = SelfChainId C"
  "get_endpoint_handler (runtime_messenger C w w' M) = runtime_endpoint_handler C w w'"
  "note_chain_transfer_in (runtime_messenger C w w' M) = note_transfer_in C"
  "note_chain_transfer_out (runtime_messenger C w w' M) = note_transfer_out C"
  by (simp_all add: runtime_messenger_def)

interpretation runtime: channel_endpoints "runtime_messenger C w w' M" for C w w' M
proof
  show "same_channels s (snd (note_chain_transfer_in (runtime_messenger C w w' M) a c s))"
    "same_channels s (snd (note_chain_transfer_out (runtime_messenger C w w' M) a c s))" for a c s
    using channels_account_transfer(1,2) [of C c a s]
    by (auto simp: note_transfer_in_def note_transfer_out_def post_def split: sum.split)
qed (auto simp: runtime_endpoint_handler_def transporter_handler_def channels_transporter_message
    channels_transporter_message_response split: if_splits)

section \<open>What a call does to the channels\<close>

lemma pre_dispatch_relay_message_moved: "post (pre_dispatch_relay_message M m init s) (moved self None (Some m) s)"
proof -
  let ?c = "msg_src_chain_id m" and ?i = "msg_channel_id m"
  have opened: "post (if init then
      (case msg_payload m of
         V1 (Protocol (Request (ChannelOpen params))) \<Rightarrow>
           and_then (map_err (\<lambda>_. InvalidCall) (do_init_channel M ?c params None False 0 s)) (\<lambda>(_, s). Inr s)
       | _ \<Rightarrow> Inl InvalidCall) else Inr s) (quiet s)"
    by (auto simp: post_simps quiet.keeps_refl intro!: quiet_do_init_channel [THEN post_mono]
        split: versioned_payload.split payload_v1.split request_response.split protocol_message_request.split)
  have received: "moved self None (Some m) s
      ((deposit_xdm_event e (put_channel ?c ?i (ch\<lparr>ch_next_inbox_nonce := Suc (msg_nonce m)\<rparr>) t))\<lparr>inbox := Some m\<rparr>)"
    if "quiet s t" "channels t ?c ?i = Some ch" for e ch t
    by (rule quiet_moved [OF that(1)])
      (use that(2) in \<open>auto simp: moved_def deposit_xdm_event_def put_channel_def ids_fresh_def out_nonce_def in_nonce_def\<close>)
  show ?thesis
    unfolding pre_dispatch_relay_message_def post_and_then
    by (rule opened [THEN post_mono]) (auto simp: post_simps Let_def arith_simps intro!: received)
qed

lemma pre_dispatch_relay_message_response_quiet: "post (pre_dispatch_relay_message_response m s) (quiet s)"
  unfolding pre_dispatch_relay_message_response_def
  by (auto simp: post_simps Let_def deposit_xdm_event_def put_channel_def moved_def ids_fresh_def out_nonce_def in_nonce_def)

text \<open>A validated message is prepared only where its nonce is the next one.\<close>

lemma relay_message_moved:
  assumes "extension_validate M trusted (RelayMessage xdm) s = Inr v"
    and "apply_relay_call M trusted (RelayMessage xdm) s = Inr s'" and ep: "channel_endpoints M"
  shows "moved self None (Some (vr_message v)) s s'" and "msg_nonce (vr_message v) = vr_next_nonce v"
proof -
  from assms(1,2) obtain t where prep: "extension_prepare M (RelayMessage xdm) v s = Inr t"
    and s': "s' = (case relay_message M XdmValidatedUnsigned xdm t of Inr u \<Rightarrow> u | Inl e \<Rightarrow> t)"
    by (auto simp: apply_relay_call_def result_simps)
  from prep have "moved self None (Some (vr_message v)) s t"
    by (auto simp: extension_prepare_def result_simps intro!: postD [OF pre_dispatch_relay_message_moved])
  moreover from ep have "quiet t s'"
    using postD [OF channel_endpoints.relay_call_quiet(1)]
    unfolding s' by (cases "relay_message M XdmValidatedUnsigned xdm t") auto
  ultimately show "moved self None (Some (vr_message v)) s s'" by (rule received_quiet)
  from assms(1) have "vr_next_nonce v \<le> msg_nonce (vr_message v)"
    by (auto simp: extension_validate_def validate_relay_message_def result_simps Let_def split: if_splits)
  with prep show "msg_nonce (vr_message v) = vr_next_nonce v"
    by (auto simp: extension_prepare_def result_simps)
qed

lemma relay_message_response_moved:
  assumes "apply_relay_call M trusted (RelayMessageResponse xdm) s = Inr s'" and ep: "channel_endpoints M"
  shows "quiet s s'"
proof -
  from assms(1) obtain v t where prep: "extension_prepare M (RelayMessageResponse xdm) v s = Inr t"
    and s': "s' = (case relay_message_response M XdmValidatedUnsigned xdm t of Inr u \<Rightarrow> u | Inl e \<Rightarrow> t)"
    by (auto simp: apply_relay_call_def result_simps)
  from prep have "quiet s t"
    by (auto simp: extension_prepare_def result_simps intro!: postD [OF pre_dispatch_relay_message_response_quiet])
  moreover from ep have "quiet t s'"
    using postD [OF channel_endpoints.relay_call_quiet(2)]
    unfolding s' by (cases "relay_message_response M XdmValidatedUnsigned xdm t") auto
  ultimately show ?thesis by (rule quiet.keeps_trans)
qed

lemma initiate_channel_moved:
  assumes "initiate_channel M orig c s = Inr s'"
  shows "\<exists>m. moved (self_chain_id M) (Some m) None s s'"
proof -
  from assms obtain x params owner amount i t n where
    i: "do_init_channel M c params (Some owner) True amount (s\<lparr>sys := x\<rparr>) = Inr (i, t)" and
    n: "new_outbox_message (self_chain_id M) c i (V1 (Protocol (Request (ChannelOpen params)))) t = Inr (n, s')"
    by (auto simp: initiate_channel_def result_simps Let_def)
  have "quiet s (s\<lparr>sys := x\<rparr>)" by (simp add: same_channels_quiet same_channels_def)
  moreover from postD [OF quiet_do_init_channel i] have "quiet (s\<lparr>sys := x\<rparr>) t" by simp
  ultimately have "quiet s t" by (rule quiet.keeps_trans)
  with new_outbox_message_moved [OF n] show ?thesis using quiet_moved by blast
qed

lemma close_channel_moved:
  assumes "close_channel M orig c i s = Inr s'"
  shows "\<exists>m. moved (self_chain_id M) (Some m) None s s'"
proof -
  from assms obtain by_whom t n where t: "do_close_channel M c i by_whom s = Inr t" and
    n: "new_outbox_message (self_chain_id M) c i (V1 (Protocol (Request ChannelClose))) t = Inr (n, s')"
    by (auto simp: close_channel_def result_simps)
  from quiet_moved [OF postD [OF quiet_do_close_channel t]] new_outbox_message_moved [OF n] show ?thesis by blast
qed

lemma transporter_transfer_moved:
  assumes "transporter_transfer C (send_message M) orig loc a s = Inr s'" and ep: "channel_endpoints M"
  shows "\<exists>m. moved (self_chain_id M) (Some m) None s s'"
proof -
  from assms(1) obtain x sender req mid t tfs where
    send: "send_message M sender (loc_chain_id loc) req (s\<lparr>sys := x\<rparr>) = Inr (mid, t)" and
    s': "account_transfer_out C (loc_chain_id loc) a
      (deposit_xdm_event (OutgoingTransferInitiated (loc_chain_id loc) mid a) (t\<lparr>outgoing_transfers := tfs\<rparr>)) = Inr s'"
    by (simp only: transporter_transfer_def Let_def and_then_Inr_iff ok_or_Inr_iff with_sys_Inr_iff split_paired_Ex prod.case)
      blast
  have u: "same_channels t (deposit_xdm_event e (t\<lparr>outgoing_transfers := tfs\<rparr>))" for e
    by (simp add: deposit_xdm_event_def same_channels_def)
  from channel_endpoints.send_message_moved [OF ep send] obtain m
    where "moved (self_chain_id M) (Some m) None (s\<lparr>sys := x\<rparr>) t" by blast
  then have "moved (self_chain_id M) (Some m) None s t"
    by (rule quiet_moved [rotated]) (simp add: same_channels_quiet same_channels_def)
  moreover have "same_channels t s'"
    using channels.keeps_trans [OF u postD [OF channels_account_transfer(1) s']] .
  then have "quiet t s'" "outbox s' = outbox t" by (auto simp: same_channels_quiet) (simp add: same_channels_def)
  ultimately show ?thesis using moved_quiet by blast
qed

text \<open>Every call of a runtime puts at most one message into an outbox and takes in at most the relayed one.\<close>

lemma xdm_call_moved:
  assumes "xdm_call C (runtime_messenger C w w' M) received s s'"
  shows "\<exists>sent. moved (SelfChainId C) sent received s s'"
  using assms
proof cases
  case relay_message_call
  then show ?thesis using relay_message_moved(1) [OF _ _ runtime.channel_endpoints_axioms] by blast
next
  case relay_response_call
  then show ?thesis
    using relay_message_response_moved [OF _ runtime.channel_endpoints_axioms] moved_none_self by blast
next
  case transfer_call
  then show ?thesis using transporter_transfer_moved [OF _ runtime.channel_endpoints_axioms] by fastforce
next
  case initiate_channel_call
  then show ?thesis using initiate_channel_moved by fastforce
next
  case close_channel_call
  then show ?thesis using close_channel_moved by fastforce
qed (auto simp: update_consensus_chain_allowlist_def initiate_domain_update_chain_allowlist_def
    update_domain_allowlist_def domain_bundle_submitted_def on_domain_instantiated_def result_simps Let_def moved_def ids_fresh_def out_nonce_def in_nonce_def
    split: option.split intro!: exI [of _ None])

end
