(* ===== verification/Cross_Domain_Example.thy ===== *)
theory Cross_Domain_Example
  imports Cross_Domain_Runtime
begin

text \<open>
  Two small runtimes, one of the consensus chain and one of a domain. The state of the other pallets is the sum of the
  balances of a chain. The examples are run on them.
\<close>

text \<open>The only proof there is shows the request to open a channel.\<close>

definition xdm_transporter :: "chain_id \<Rightarrow> nat transporter_config" where
  "xdm_transporter c =
     \<lparr>SelfChainId = c, SelfEndpointId = 1, MinimumTransfer = 1,
      account_convert = (\<lambda>a. AccountId32 [a]),
      account_try_convert_back = (\<lambda>m. case m of AccountId32 [a] \<Rightarrow> Some a | _ \<Rightarrow> None),
      currency_withdraw = (\<lambda>_ a x. checked_sub x a), currency_deposit_creating = (\<lambda>_ a x. x + a),
      transfer_encode = (\<lambda>_. []), transfer_decode = (\<lambda>_. None)\<rparr>"

definition open_request :: message where
  "open_request =
     \<lparr>msg_src_chain_id = Consensus, msg_dst_chain_id = Domain 0, msg_channel_id = 0, msg_nonce = 0,
      msg_payload = V1 (Protocol (Request (ChannelOpen \<lparr>cp_max_outgoing_messages = 100\<rparr>))),
      msg_last_delivered_message_response_nonce = None\<rparr>"

definition xdm_messenger :: "nat messenger_config" where
  "xdm_messenger =
     \<lparr>self_chain_id = Consensus, get_endpoint_handler = (\<lambda>_. None),
      channel_reducible_balance = (\<lambda>_ _. 1000), channel_hold = (\<lambda>_ _ x. Some x),
      channel_burn_held = (\<lambda>_ a x. ok_or (OtherError 0) (checked_sub x a)), channel_release = (\<lambda>_ _ x. Some x),
      burn_fees = (\<lambda>_ a x. ok_or (OtherError 0) (checked_sub x a)),
      issue = (\<lambda>_ x. x), rescind = (\<lambda>_ x. x), AdjustedWeightToFee = (\<lambda>_ _. 1), FeeMultiplier = 5,
      on_xdm_rewards = (\<lambda>a x. x + a), on_chain_protocol_fees = (\<lambda>_ a x. x + a),
      note_chain_transfer_in = (\<lambda>_ _ s. (True, s)), note_chain_transfer_out = (\<lambda>_ _ s. (True, s)),
      verify_proof_and_extract_leaf = (\<lambda>_ _. Some 0), extract_leaf_without_verifying = (\<lambda>_ _. Some 0),
      confirmed_domain_block_storage_key = (\<lambda>_. None),
      outbox_storage_key = (\<lambda>c k. if c = Consensus \<and> k = (Domain 0, 0, 0) then Some [] else None),
      inbox_responses_storage_key = (\<lambda>_ _. None), get_receipt_state_root = (\<lambda>_ _ _. None),
      get_message = (\<lambda>_ _ _. Some open_request), is_domain_owner = (\<lambda>_ _ _. True),
      is_domain_registered = (\<lambda>_ _. True), ChannelReserveFee = 100,
      channel_init_reserve_portion = (\<lambda>a. a div 5), MaxOutgoingMessages = 100\<rparr>"

definition xdm_initial :: "chain_id \<Rightarrow> nat xdm_state" where
  "xdm_initial peer =
     \<lparr>next_channel_id = (\<lambda>_. 0), channels = (\<lambda>_ _. None), inbox = None, inbox_fee = Map.empty, outbox_fee = Map.empty,
      inbox_responses = Map.empty, outbox = Map.empty, outbox_message_count = (\<lambda>_. 0), outbox_responses = None,
      outbox_message_weight_tags = Map.empty, inbox_response_message_weight_tags = Map.empty,
      chain_allowlist = [peer], domain_chain_allowlist_update = Map.empty, updated_channels = [],
      inbox_fees_on_hold = 0, outbox_fees_on_hold = 0, outgoing_transfers = (\<lambda>_. Map.empty), domain_balances = [],
      chain_transfers = no_transfers, unconfirmed_transfers = [], cancelled_transfers = [], xdm_events = [], sys = 1000\<rparr>"

definition open_xdm :: cross_domain_message where
  "open_xdm = \<lparr>xm_src_chain_id = Consensus, xm_dst_chain_id = Domain 0, xm_channel_id = 0, xm_nonce = 0,
     xm_proof = ConsensusProof [] [], xm_weight_tag = ProtocolChannelOpen\<rparr>"

abbreviation consensus_messenger :: "nat messenger_config" where
  "consensus_messenger \<equiv> runtime_messenger (xdm_transporter Consensus) (0, 0) (0, 0) xdm_messenger"

abbreviation domain_messenger :: "nat messenger_config" where
  "domain_messenger \<equiv> runtime_messenger (xdm_transporter (Domain 0)) (0, 0) (0, 0) xdm_messenger"

text \<open>A chain with an open channel, and a transfer to the other end of it.\<close>

definition xdm_open :: "chain_id \<Rightarrow> nat xdm_state" where
  "xdm_open peer = (xdm_initial peer)\<lparr>next_channel_id := (\<lambda>_. 0)(peer := 1),
     channels := (\<lambda>_ _. None)(peer := [0 \<mapsto>
       \<lparr>ch_channel_id = 0, ch_state = Open, ch_next_inbox_nonce = 0, ch_next_outbox_nonce = 0,
        ch_latest_response_received_message_nonce = None, ch_max_outgoing_messages = 10, ch_maybe_owner = None,
        ch_channel_reserve_fee = 0\<rparr>])\<rparr>"

definition xdm_destination :: "chain_id \<Rightarrow> location" where
  "xdm_destination peer = \<lparr>loc_chain_id = peer, loc_account_id = AccountId32 [9]\<rparr>"

lemmas xdm_example_defs = xdm_open_def xdm_destination_def xdm_transporter_def open_request_def xdm_messenger_def xdm_initial_def open_xdm_def

end
