(* ===== verification/Channel_Delivery.thy ===== *)
theory Channel_Delivery
  imports Cross_Domain_Example "HOL-Library.Sublist"
begin

text \<open>
  Delivery on a channel between two chains. The chain \<open>C\<close> sends messages on a channel to the chain \<open>D\<close>; a relayer may
  bring any message with any proof, at any time and as often as it likes. What \<open>D\<close> knows of \<open>C\<close> is what a storage proof
  shows: \<open>proofs_sound\<close> states what a verified proof means. Whatever the two chains and the relayer do, the messages that
  \<open>D\<close> has taken in are those that \<open>C\<close> has sent, in the same order, each once, without a gap.
\<close>

section \<open>Two chains and a relayer\<close>

text \<open>
  The states of both chains, the states that the sender has been in, and the messages that were sent on the channel and
  taken in from it.
\<close>

record ('x, 'y) channel_system =
  cs_source :: "'x xdm_state"
  cs_target :: "'y xdm_state"
  cs_history :: "'x xdm_state list"
  cs_sent :: "message list"
  cs_delivered :: "message list"

definition new_messages :: "chain_id \<Rightarrow> channel_id \<Rightarrow> 'x xdm_state \<Rightarrow> 'x xdm_state \<Rightarrow> message list" where
  "new_messages c i s s' =
     (if out_nonce c i s' = out_nonce c i s then []
      else case outbox s' (c, i, out_nonce c i s) of Some m \<Rightarrow> [m] | None \<Rightarrow> [])"

definition taken_in :: "chain_id \<Rightarrow> channel_id \<Rightarrow> message option \<Rightarrow> message list" where
  "taken_in c i received =
     (case received of Some m \<Rightarrow> if msg_src_chain_id m = c \<and> msg_channel_id m = i then [m] else [] | None \<Rightarrow> [])"

text \<open>
  What a verified proof means to the chain \<open>N\<close>, whose other pallets are in the state \<open>x\<close>. A message that is proven to be
  in the outbox of a chain names that chain, and the channel and the nonce of its key. A message proven to be in the
  outbox of the chain \<open>c\<close> was there in one of the states that \<open>c\<close> has been in.
\<close>

definition proofs_sound :: "'y messenger_config \<Rightarrow> chain_id \<Rightarrow> 'x xdm_state list \<Rightarrow> 'y \<Rightarrow> bool" where
  "proofs_sound N c history x \<longleftrightarrow>
     (\<forall>xdm consensus_root root key m.
        (verify_proof_and_extract_leaf N (consensus_mmr_proof (xm_proof xdm)) x = Some consensus_root \<or>
         extract_leaf_without_verifying N (consensus_mmr_proof (xm_proof xdm)) x = Some consensus_root) \<and>
        source_state_root N consensus_root xdm = Inr root \<and>
        outbox_storage_key N (xm_src_chain_id xdm) (self_chain_id N, xm_channel_id xdm, xm_nonce xdm) = Some key \<and>
        get_message N root (message_proof (xm_proof xdm)) key = Some m \<longrightarrow>
        msg_src_chain_id m = xm_src_chain_id xdm \<and> msg_channel_id m = xm_channel_id xdm \<and> msg_nonce m = xm_nonce xdm \<and>
        (xm_src_chain_id xdm = c \<longrightarrow>
           (\<exists>s \<in> set history. outbox s (self_chain_id N, xm_channel_id xdm, xm_nonce xdm) = Some m)))"

inductive channel_step ::
    "'x transporter_config \<Rightarrow> 'x messenger_config \<Rightarrow> 'y transporter_config \<Rightarrow> 'y messenger_config \<Rightarrow> channel_id \<Rightarrow>
       ('x, 'y) channel_system \<Rightarrow> ('x, 'y) channel_system \<Rightarrow> bool"
  for C :: "'x transporter_config" and M :: "'x messenger_config"
    and D :: "'y transporter_config" and N :: "'y messenger_config" and i :: channel_id where
  source_step:
    "xdm_call C M received (cs_source st) s' \<Longrightarrow>
     channel_step C M D N i st
       (st\<lparr>cs_source := s', cs_history := cs_history st @ [s'],
           cs_sent := cs_sent st @ new_messages (SelfChainId D) i (cs_source st) s'\<rparr>)"
| source_between_step:
    "between_calls (cs_source st) s' \<Longrightarrow>
     channel_step C M D N i st (st\<lparr>cs_source := s', cs_history := cs_history st @ [s']\<rparr>)"
| target_step:
    "xdm_call D N received (cs_target st) t' \<Longrightarrow>
     proofs_sound N (SelfChainId C) (cs_history st) (sys (cs_target st)) \<Longrightarrow>
     channel_step C M D N i st
       (st\<lparr>cs_target := t', cs_delivered := cs_delivered st @ taken_in (SelfChainId C) i received\<rparr>)"
| target_between_step:
    "between_calls (cs_target st) t' \<Longrightarrow> channel_step C M D N i st (st\<lparr>cs_target := t'\<rparr>)"



section \<open>The invariant\<close>







section \<open>A channel between the consensus chain and a domain\<close>



section \<open>Properties\<close>



end
