(* ===== verification/Transfer_Accounting.thy ===== *)
theory Transfer_Accounting
  imports Cross_Domain_Example
begin

text \<open>
  Funds on a chain: what its accounts hold, the fees the messenger keeps until they are distributed, and what the chain
  has accounted for as being elsewhere. On the consensus chain that is what the tracker of the transporter holds for the
  domains and for the transfers on their way; on a domain it is the balance of the transfers that the receipt of the
  block reports. Neither messages nor transfers create funds; this is proved once for both kinds of chain, in a locale
  over the accounting of transfers.
\<close>

section \<open>What the pallets rely on\<close>

text \<open>
  Documented behaviour of the currency traits on the sum \<open>circ\<close> of all balances, free and on hold: a withdrawal and a burn
  take the amount away, a deposit adds at most the amount, holds and releases move balances, and \<open>issue\<close> and \<open>rescind\<close>
  change the total issuance but no account. What \<open>OnXDMRewards\<close> pays out is at most what it is given.
\<close>

definition circulation_laws :: "'x transporter_config \<Rightarrow> 'x messenger_config \<Rightarrow> ('x \<Rightarrow> nat) \<Rightarrow> bool" where
  "circulation_laws C M circ \<longleftrightarrow>
     (\<forall>who a x x'. currency_withdraw C who a x = Some x' \<longrightarrow> circ x' + a = circ x) \<and>
     (\<forall>who a x. circ (currency_deposit_creating C who a x) \<le> circ x + a) \<and>
     (\<forall>who a x x'. burn_fees M who a x = Inr x' \<longrightarrow> circ x' + a = circ x) \<and>
     (\<forall>who a x x'. channel_burn_held M who a x = Inr x' \<longrightarrow> circ x' + a = circ x) \<and>
     (\<forall>who a x x'. channel_hold M who a x = Some x' \<longrightarrow> circ x' = circ x) \<and>
     (\<forall>who a x x'. channel_release M who a x = Some x' \<longrightarrow> circ x' = circ x) \<and>
     (\<forall>a x. circ (issue M a x) = circ x) \<and>
     (\<forall>a x. circ (rescind M a x) = circ x) \<and>
     (\<forall>a x. circ (on_xdm_rewards M a x) \<le> circ x + a) \<and>
     (\<forall>c a x. circ (on_chain_protocol_fees M c a x) \<le> circ x + a)"

lemma circulation_lawsD:
  assumes "circulation_laws C M circ"
  shows "currency_withdraw C who a x = Some x' \<Longrightarrow> circ x' + a = circ x"
    and "circ (currency_deposit_creating C who a x) \<le> circ x + a"
    and "burn_fees M who a x = Inr x' \<Longrightarrow> circ x' + a = circ x"
    and "channel_burn_held M who a x = Inr x' \<Longrightarrow> circ x' + a = circ x"
    and "channel_hold M who a x = Some x' \<Longrightarrow> circ x' = circ x"
    and "channel_release M who a x = Some x' \<Longrightarrow> circ x' = circ x"
    and "circ (issue M a x) = circ x"
    and "circ (rescind M a x) = circ x"
    and "circ (on_xdm_rewards M a x) \<le> circ x + a"
    and "circ (on_chain_protocol_fees M c a x) \<le> circ x + a"
  using assms unfolding circulation_laws_def by metis+

text \<open>The part of the state that accounts for funds.\<close>

definition same_accounts :: "'x xdm_state \<Rightarrow> 'x xdm_state \<Rightarrow> bool" where
  "same_accounts s s' \<longleftrightarrow>
     domain_balances s' = domain_balances s \<and> chain_transfers s' = chain_transfers s \<and>
     unconfirmed_transfers s' = unconfirmed_transfers s \<and> cancelled_transfers s' = cancelled_transfers s"

definition same_funds :: "'x xdm_state \<Rightarrow> 'x xdm_state \<Rightarrow> bool" where
  "same_funds s s' \<longleftrightarrow>
     same_accounts s s' \<and> inbox_fees_on_hold s' = inbox_fees_on_hold s \<and>
     outbox_fees_on_hold s' = outbox_fees_on_hold s \<and> sys s' = sys s"

interpretation funds: state_preorder same_funds
  by unfold_locales (auto simp: same_funds_def same_accounts_def)

lemma same_funds_event: "same_funds s (deposit_xdm_event e t) = same_funds s t"
  by (simp add: same_funds_def same_accounts_def deposit_xdm_event_def)

lemma account_transfer_frame:
  "post (account_transfer_out C c a s) (\<lambda>s'. sys s' = sys s \<and> inbox_fees_on_hold s' = inbox_fees_on_hold s \<and>
     outbox_fees_on_hold s' = outbox_fees_on_hold s)"
  "post (account_transfer_in C c a s) (\<lambda>s'. sys s' = sys s \<and> inbox_fees_on_hold s' = inbox_fees_on_hold s \<and>
     outbox_fees_on_hold s' = outbox_fees_on_hold s)"
  "post (account_transfer_rejected C c a s) (\<lambda>s'. sys s' = sys s \<and> inbox_fees_on_hold s' = inbox_fees_on_hold s \<and>
     outbox_fees_on_hold s' = outbox_fees_on_hold s)"
  "post (account_transfer_revert C c a s) (\<lambda>s'. sys s' = sys s \<and> inbox_fees_on_hold s' = inbox_fees_on_hold s \<and>
     outbox_fees_on_hold s' = outbox_fees_on_hold s)"
  by (auto simp: account_transfer_out_def account_transfer_in_def account_transfer_rejected_def
      account_transfer_revert_def transporter_note_transfer_def transporter_confirm_transfer_def
      transporter_reject_transfer_def transporter_claim_rejected_transfer_def debit_domain_def credit_domain_def
      mutate_chain_transfers_def update_transfer_out_def update_transfer_in_def update_transfer_rejected_def
      update_transfer_revert_def ensure_consensus_chain_def post_simps)

text \<open>What does not touch funds.\<close>

lemma funds_take_inbox_responses: "same_funds s (snd (take_inbox_responses c i n fees s))"
proof (induction n arbitrary: fees s)
  case 0
  then show ?case by (simp add: same_funds_def same_accounts_def Let_def split: option.split)
next
  case (Suc n)
  have step: "same_funds s t \<Longrightarrow> same_funds s (snd (take_inbox_responses c i n fees t))" for fees t
    by (rule funds.keeps_trans [OF _ Suc.IH])
  show ?case
    by (subst take_inbox_responses.simps)
      (auto simp: Let_def simp del: take_inbox_responses.simps split: option.split intro!: step,
        simp_all add: same_funds_def same_accounts_def)
qed

lemma funds_channels:
  "post (do_open_channel c i s) (same_funds s)"
  "post (do_init_channel M c p own chk fee s) (\<lambda>(_, s'). same_funds s s')"
  "post (new_outbox_message self c i pl s) (\<lambda>(_, s'). same_funds s s')"
  "post (pre_dispatch_relay_message_response m s) (same_funds s)"
  by (auto simp: do_open_channel_def do_init_channel_def new_outbox_message_def pre_dispatch_relay_message_response_def
      post_simps Let_def same_funds_def same_accounts_def put_channel_def deposit_xdm_event_def)

lemma funds_pre_dispatch_relay_message: "post (pre_dispatch_relay_message M m init s) (same_funds s)"
proof -
  have opened: "post (if init then
      (case msg_payload m of
         V1 (Protocol (Request (ChannelOpen params))) \<Rightarrow>
           and_then (map_err (\<lambda>_. InvalidCall) (do_init_channel M c params None False 0 s)) (\<lambda>(_, s). Inr s)
       | _ \<Rightarrow> Inl InvalidCall) else Inr s) (same_funds s)" for c
    by (auto simp: post_simps intro!: funds_channels(2) [THEN post_mono]
        split: versioned_payload.split payload_v1.split request_response.split protocol_message_request.split)
  show ?thesis
    unfolding pre_dispatch_relay_message_def post_and_then
    by (rule opened [THEN post_mono])
      (auto simp: post_simps Let_def same_funds_def same_accounts_def put_channel_def deposit_xdm_event_def)
qed

section \<open>Accounting of transfers\<close>

text \<open>
  An account of the transfers of a chain: what leaves the chain is owed by others, what comes in or comes back is no longer
  owed; a rejected transfer changes nothing.
\<close>

locale transfer_accounting =
  fixes C :: "'x transporter_config" and M :: "'x messenger_config" and w w' :: weight and circ :: "'x \<Rightarrow> nat"
    and wf :: "'x xdm_state \<Rightarrow> bool" and owed :: "'x xdm_state \<Rightarrow> int"
  assumes account_out: "wf s \<Longrightarrow> account_transfer_out C c a s = Inr s' \<Longrightarrow> wf s' \<and> owed s' = owed s + int a"
    and account_in: "wf s \<Longrightarrow> account_transfer_in C c a s = Inr s' \<Longrightarrow> wf s' \<and> owed s' = owed s - int a"
    and account_rejected: "wf s \<Longrightarrow> account_transfer_rejected C c a s = Inr s' \<Longrightarrow> wf s' \<and> owed s' = owed s"
    and account_revert: "wf s \<Longrightarrow> account_transfer_revert C c a s = Inr s' \<Longrightarrow> wf s' \<and> owed s' = owed s - int a"
    and same: "same_accounts s s' \<Longrightarrow> wf s' = wf s \<and> owed s' = owed s"
begin

definition funds :: "'x xdm_state \<Rightarrow> int" where
  "funds s = int (circ (sys s)) + int (inbox_fees_on_hold s) + int (outbox_fees_on_hold s) + owed s"

text \<open>An operation by which the funds grow by at most \<open>k\<close>, where the currency is lawful.\<close>

definition gain :: "int \<Rightarrow> 'x xdm_state \<Rightarrow> 'x xdm_state \<Rightarrow> bool" where
  "gain k s s' \<longleftrightarrow> (circulation_laws C M circ \<longrightarrow> wf s \<longrightarrow> wf s' \<and> funds s' \<le> funds s + k)"

lemma lawful: "(circulation_laws C M circ \<Longrightarrow> gain k s t) \<Longrightarrow> gain k s t"
  by (auto simp: gain_def)

lemma gain_trans: "gain k s t \<Longrightarrow> gain l t u \<Longrightarrow> k + l \<le> n \<Longrightarrow> gain n s u"
  by (auto simp: gain_def)

lemma gain_refl [simp]: "gain 0 s s"
  by (simp add: gain_def)

lemma gain_same_funds: "same_funds s s' \<Longrightarrow> gain 0 s s'"
  using same [of s s'] by (simp add: gain_def funds_def same_funds_def)

lemma gain_event: "gain k s (deposit_xdm_event e t) = gain k s t"
  using same [of t "deposit_xdm_event e t"]
  by (simp add: gain_def funds_def deposit_xdm_event_def same_accounts_def)

lemma gain_sys:
  assumes "gain k s t" and "int (circ x) \<le> int (circ (sys t)) + l"
  shows "gain (k + l) s (t\<lparr>sys := x\<rparr>)"
  using assms same [of t "t\<lparr>sys := x\<rparr>"] by (auto simp: gain_def funds_def same_accounts_def)

lemma gain_account:
  "post (account_transfer_out C c a s) (gain (int a) s)"
  "post (account_transfer_in C c a s) (gain (- int a) s)"
  "post (account_transfer_rejected C c a s) (gain 0 s)"
  "post (account_transfer_revert C c a s) (gain (- int a) s)"
proof -
  have accounted: "gain k s s'"
    if "sys s' = sys s \<and> inbox_fees_on_hold s' = inbox_fees_on_hold s \<and> outbox_fees_on_hold s' = outbox_fees_on_hold s"
      "wf s \<Longrightarrow> wf s' \<and> owed s' = owed s + k" for k s'
    using that by (auto simp: gain_def funds_def)
  show "post (account_transfer_out C c a s) (gain (int a) s)"
    using accounted [OF postD [OF account_transfer_frame(1)]] account_out by (intro postI) blast
  show "post (account_transfer_in C c a s) (gain (- int a) s)"
    using accounted [where k = "- int a", OF postD [OF account_transfer_frame(2)]] account_in [of s c a] by (intro postI) simp
  show "post (account_transfer_rejected C c a s) (gain 0 s)"
    using accounted [where k = 0, OF postD [OF account_transfer_frame(3)]] account_rejected [of s c a] by (intro postI) simp
  show "post (account_transfer_revert C c a s) (gain (- int a) s)"
    using accounted [where k = "- int a", OF postD [OF account_transfer_frame(4)]] account_revert [of s c a] by (intro postI) simp
qed

lemma gain_finalize_transfer: "post (finalize_transfer C c m tf s) (\<lambda>(_, s'). gain 0 s s')"
proof -
  have deposit: "gain 0 s (t\<lparr>sys := currency_deposit_creating C who (tf_amount tf) (sys t)\<rparr>)"
    if "gain (- int (tf_amount tf)) s t" for who t
    by (rule lawful) (use gain_sys [OF that, of "currency_deposit_creating C who (tf_amount tf) (sys t)" "int (tf_amount tf)"]
      circulation_lawsD(2) [of C M circ who "tf_amount tf" "sys t"] in simp)
  show ?thesis
    unfolding finalize_transfer_def
    by (auto simp: post_simps Let_def gain_event intro!: gain_account(2) [THEN post_mono] deposit)
qed

lemma gain_transporter_message: "gain 0 s (snd (transporter_message C c m req pre s))"
proof (cases "transfer_decode C (eq_payload req)")
  case None
  then show ?thesis by (simp add: transporter_message_def)
next
  case (Some tf)
  let ?pre = "and_then (ensure (SelfChainId C \<noteq> c) (TransporterError InvalidTransferRequest)) (\<lambda>_.
    and_then (ensure (eq_dst_endpoint req = EndpointIdOf (SelfEndpointId C)) (TransporterError UnexpectedMessage)) (\<lambda>_. pre))"
  let ?r = "and_then ?pre (\<lambda>_. finalize_transfer C c m tf s)"
  have "post ?r (\<lambda>(_, s'). gain 0 s s')"
    using gain_finalize_transfer [of c m tf s] by (auto simp: post_def result_simps)
  with Some gain_account(3) [of c "tf_amount tf" s] show ?thesis
    by (cases ?r; cases "account_transfer_rejected C c (tf_amount tf) s") (auto simp: transporter_message_def Let_def post_def)
qed

lemma gain_transporter_message_response: "gain 0 s (snd (transporter_message_response C c m req resp s))"
proof (cases "outgoing_transfers s c m")
  case None
  then show ?thesis by (simp add: transporter_message_response_def)
next
  case (Some tf)
  let ?s = "s\<lparr>outgoing_transfers := (outgoing_transfers s)(c := (outgoing_transfers s c)(m := None))\<rparr>"
  have taken: "gain 0 s ?s" by (rule gain_same_funds) (simp add: same_funds_def same_accounts_def)
  have "gain 0 s (t\<lparr>sys := currency_deposit_creating C who (tf_amount tf) (sys t)\<rparr>)"
    if "account_transfer_revert C c (tf_amount tf) ?s = Inr t" for who t
    by (rule lawful) (use gain_sys [OF gain_trans [OF taken postD [OF gain_account(4) that], of "- int (tf_amount tf)"],
        of "currency_deposit_creating C who (tf_amount tf) (sys t)" "int (tf_amount tf)"]
      circulation_lawsD(2) [of C M circ who "tf_amount tf" "sys t"] in simp)
  with Some taken show ?thesis
    by (cases resp; cases "account_try_convert_back C (loc_account_id (tf_sender tf))";
        cases "account_transfer_revert C c (tf_amount tf) ?s")
      (simp_all add: transporter_message_response_def Let_def gain_event)
qed

abbreviation R :: "'x messenger_config" where
  "R \<equiv> runtime_messenger C w w' M"

lemma runtime_laws: "circulation_laws C M circ \<Longrightarrow> circulation_laws C R circ"
  by (simp add: circulation_laws_def runtime_messenger_def)

lemmas runtime_law = circulation_lawsD [OF runtime_laws]

lemma gain_note:
  "fst (note_transfer_in C a c s) \<Longrightarrow> gain (- int a) s (snd (note_transfer_in C a c s))"
  "fst (note_transfer_out C a c s) \<Longrightarrow> gain (int a) s (snd (note_transfer_out C a c s))"
  using postD [OF gain_account(1)] postD [OF gain_account(2)]
  by (auto simp: note_transfer_in_def note_transfer_out_def split: sum.splits)

lemma gain_store_inbox_fee: "post (store_inbox_fee R c m a s) (gain 0 s)"
proof -
  have stored: "gain (int a) s (s\<lparr>inbox_fees_on_hold := inbox_fees_on_hold s + a, sys := issue R a (sys s), inbox_fee := f\<rparr>)" for f
    using same [of s "s\<lparr>inbox_fees_on_hold := inbox_fees_on_hold s + a, sys := issue R a (sys s), inbox_fee := f\<rparr>"]
    by (simp add: gain_def funds_def same_accounts_def runtime_law)
  show ?thesis
    unfolding store_inbox_fee_def
    by (auto simp: post_simps Let_def arith_simps split: prod.split intro!: gain_trans [OF stored gain_note(1)])
qed

lemma gain_store_outbox_fee: "post (store_outbox_fee R c m a b s) (gain (int a + int b) s)"
proof -
  have stored: "gain (int a) s (s\<lparr>outbox_fees_on_hold := outbox_fees_on_hold s + a, sys := issue R a (sys s), outbox_fee := f\<rparr>)" for f
    using same [of s "s\<lparr>outbox_fees_on_hold := outbox_fees_on_hold s + a, sys := issue R a (sys s), outbox_fee := f\<rparr>"]
    by (simp add: gain_def funds_def same_accounts_def runtime_law)
  show ?thesis
    unfolding store_outbox_fee_def
    by (auto simp: post_simps Let_def arith_simps split: prod.split intro!: gain_trans [OF stored gain_note(2)])
qed

lemma gain_collect_fees:
  "post (collect_fees_for_message_v1 R who e s)
     (\<lambda>(f, s'). gain (- int (cf_src_chain_fee f) - int (cf_dst_chain_fee f)) s s')"
proof -
  have "gain (- int a - int b) s (s\<lparr>sys := x\<rparr>)" if "burn_fees R who (b + a) (sys s) = Inr x" for a b x
    by (rule lawful) (use gain_sys [OF gain_refl [of s], of x "- int a - int b"] runtime_law(3) [OF _ that] in simp)
  then show ?thesis
    unfolding collect_fees_for_message_v1_def by (auto simp: post_simps Let_def arith_simps post_def [of "burn_fees _ _ _ _"])
qed

lemma gain_rewards:
  "post (reward_operators_for_inbox_execution R c i n s) (gain 0 s)"
  "post (reward_operators_for_outbox_execution R c m s) (gain 0 s)"
proof -
  have paid: "gain 0 s (t\<lparr>inbox_fees_on_hold := inbox_fees_on_hold t - a, sys := on_xdm_rewards R a (rescind R a (sys t))\<rparr>)"
    if "same_funds s t" "a \<le> inbox_fees_on_hold t" for a t
    using that same [of s "t\<lparr>inbox_fees_on_hold := inbox_fees_on_hold t - a, sys := on_xdm_rewards R a (rescind R a (sys t))\<rparr>"]
      runtime_law(8) [of a "sys t"] runtime_law(9) [of a "rescind R a (sys t)"]
    by (auto simp: gain_def funds_def same_accounts_def same_funds_def)
  show "post (reward_operators_for_inbox_execution R c i n s) (gain 0 s)"
    unfolding reward_operators_for_inbox_execution_def
    using funds_take_inbox_responses [of s c i _ 0]
    by (auto simp: post_simps Let_def arith_simps gain_same_funds simp del: take_inbox_responses.simps intro!: paid)
  have paid: "gain 0 s (s\<lparr>outbox_fee := f, outbox_fees_on_hold := outbox_fees_on_hold s - a,
      sys := on_xdm_rewards R a (rescind R a (sys s))\<rparr>)" if "a \<le> outbox_fees_on_hold s" for a f
    using that same [of s "s\<lparr>outbox_fee := f, outbox_fees_on_hold := outbox_fees_on_hold s - a,
        sys := on_xdm_rewards R a (rescind R a (sys s))\<rparr>"]
      runtime_law(8) [of a "sys s"] runtime_law(9) [of a "rescind R a (sys s)"]
    by (auto simp: gain_def funds_def same_accounts_def)
  show "post (reward_operators_for_outbox_execution R c m s) (gain 0 s)"
    unfolding reward_operators_for_outbox_execution_def
    by (auto simp: post_simps Let_def arith_simps intro!: paid)
qed

lemma gain_release_reserve: "post (release_channel_reserve R c ch s) (gain 0 s)"
proof -
  have released: "gain 0 s (s\<lparr>sys := x\<rparr>)" if "channel_release R who a (sys s) = Some x" for who a x
    by (rule lawful) (use gain_sys [OF gain_refl [of s], of x 0] runtime_law(6) [OF _ that] in simp)
  have burned: "gain 0 s (s\<lparr>sys := y\<rparr>)"
    if "channel_burn_held R who a (sys s) = Inr x" "channel_release R who b (on_chain_protocol_fees R c a x) = Some y"
    for who a b x y
    by (rule lawful) (use gain_sys [OF gain_refl [of s], of y 0] runtime_law(4) [OF _ that(1)] runtime_law(6) [OF _ that(2)]
      runtime_law(10) [of c a x] in simp)
  show ?thesis
    unfolding release_channel_reserve_def
    by (cases "ch_state ch = Open")
      (auto simp: post_simps Let_def post_def [of "channel_burn_held _ _ _ _"] dest: released burned)
qed

lemma gain_do_close_channel: "post (do_close_channel R c i by_whom s) (gain 0 s)"
proof -
  have put: "gain 0 s (deposit_xdm_event e (put_channel c i ch t))" if "gain 0 s t" for e ch t
    by (rule gain_trans [OF that gain_same_funds, of _ 0])
      (simp_all add: same_funds_def same_accounts_def put_channel_def deposit_xdm_event_def)
  show ?thesis
    unfolding do_close_channel_def
    by (cases by_whom) (auto simp: post_simps intro!: put gain_release_reserve [THEN post_mono])
qed

lemma gain_response_to: "post (response_to R msg tag s) (\<lambda>(_, s'). gain 0 s s')"
proof -
  have protocol: "gain 0 s (snd (as_response (process_incoming_protocol_message_req R c i req tag s) s))" for c i req
    using gain_same_funds [OF postD [OF funds_channels(1)], of c i s] postD [OF gain_do_close_channel, of c i BySudo s]
    by (auto simp: as_response_def process_incoming_protocol_message_req_def and_then_Inr_iff
        split: sum.split protocol_message_request.split)
  have handler: "gain 0 s (snd (case runtime_endpoint_handler C w w' e of
      Some h \<Rightarrow> process_incoming_endpoint_message_req c req i n tag h t | None \<Rightarrow> (Inl err, t)))"
    if "gain 0 s t" for e req c i n t err
    using that gain_trans [OF that gain_transporter_message, of 0]
    by (auto simp: runtime_endpoint_handler_def transporter_handler_def process_incoming_endpoint_message_req_def Let_def)
  obtain p where p: "msg_payload msg = V1 p" by (cases "msg_payload msg")
  show ?thesis
  proof (cases p)
    case (Protocol x)
    with p protocol show ?thesis by (cases x) (auto simp: response_to_def post_simps Let_def case_prod_beta)
  next
    case (EndpointPayload x)
    with p show ?thesis
      by (cases x) (auto simp: response_to_def post_simps Let_def intro!: handler gain_store_inbox_fee [THEN post_mono])
  qed
qed

lemma gain_handle_response: "post (handle_response R req_msg resp_msg tag s) (\<lambda>(_, s'). gain 0 s s')"
proof -
  have protocol: "gain 0 s (snd (as_response (process_incoming_protocol_message_response c i req resp tag s) s))" for c i req resp
    using gain_same_funds [OF postD [OF funds_channels(1)], of c i s]
    by (auto simp: as_response_def process_incoming_protocol_message_response_def and_then_Inr_iff
        split: sum.split protocol_message_request.split)
  have handler: "gain 0 s (snd (case runtime_endpoint_handler C w w' e of
      Some h \<Rightarrow> process_incoming_endpoint_message_response c i n tag req resp h t | None \<Rightarrow> (Inl err, t)))"
    if "gain 0 s t" for e req resp c i n t err
    using that gain_trans [OF that gain_transporter_message_response, of 0]
    by (auto simp: runtime_endpoint_handler_def transporter_handler_def process_incoming_endpoint_message_response_def)
  obtain p q where pq: "msg_payload req_msg = V1 p" "msg_payload resp_msg = V1 q"
    by (cases "msg_payload req_msg"; cases "msg_payload resp_msg")
  show ?thesis
  proof (cases p)
    case (Protocol x)
    with pq protocol show ?thesis
      by (cases q; cases x) (auto simp: handle_response_def post_simps Let_def case_prod_beta split: request_response.split)
  next
    case (EndpointPayload x)
    with pq show ?thesis
      by (cases q; cases x) (auto simp: handle_response_def post_simps Let_def case_prod_beta split: request_response.split
          intro!: handler gain_rewards(2) [THEN post_mono])
  qed
qed

lemma gain_after: "gain 0 s t \<Longrightarrow> gain 0 t u \<Longrightarrow> gain 0 s u"
  by (rule gain_trans [of 0 s t 0 u 0]) simp_all

lemma gain_process_inbox_messages: "post (process_inbox_messages R msg tag s) (gain 0 s)"
proof -
  have reward: "post (reward_operators_for_inbox_execution R c i n
      (t\<lparr>inbox_responses := x, inbox_response_message_weight_tags := y, updated_channels := z\<rparr>)) (gain 0 s)"
    if "gain 0 s t" for c i n t x y z
  proof (rule gain_rewards(1) [THEN post_mono])
    let ?t = "t\<lparr>inbox_responses := x, inbox_response_message_weight_tags := y, updated_channels := z\<rparr>"
    have "gain 0 t ?t" by (rule gain_same_funds) (simp add: same_funds_def same_accounts_def)
    then show "gain 0 ?t u \<Longrightarrow> gain 0 s u" for u using gain_after [OF gain_after [OF that]] by blast
  qed
  show ?thesis
    unfolding process_inbox_messages_def
    by (auto simp: post_simps Let_def gain_event intro!: gain_response_to [THEN post_mono] reward [THEN post_mono])
qed

lemma gain_process_outbox_message_responses: "post (process_outbox_message_responses R msg tag s) (gain 0 s)"
proof -
  have upd: "gain 0 s (t\<lparr>updated_channels := z\<rparr>)" if "gain 0 s t" for t z
    by (rule gain_after [OF that gain_same_funds]) (simp add: same_funds_def same_accounts_def)
  have handled: "post (handle_response R req msg tag
      (s\<lparr>outbox := x, outbox_message_count := y, outbox_message_weight_tags := z\<rparr>)) (\<lambda>(_, s'). gain 0 s s')" for req x y z
  proof (rule gain_handle_response [THEN post_mono])
    have "gain 0 s (s\<lparr>outbox := x, outbox_message_count := y, outbox_message_weight_tags := z\<rparr>)"
      by (rule gain_same_funds) (simp add: same_funds_def same_accounts_def)
    then show "(case r of (_, s') \<Rightarrow> gain 0 (s\<lparr>outbox := x, outbox_message_count := y, outbox_message_weight_tags := z\<rparr>) s') \<Longrightarrow>
        (case r of (_, s') \<Rightarrow> gain 0 s s')" for r :: "(dispatch_error + unit) \<times> 'x xdm_state"
      using gain_after by (cases r) simp
  qed
  show ?thesis
    unfolding process_outbox_message_responses_def
    by (auto simp: post_simps Let_def gain_event intro!: handled [THEN post_mono] upd)
qed

lemma gain_relay:
  "post (relay_message R orig xdm s) (gain 0 s)"
  "post (relay_message_response R orig xdm s) (gain 0 s)"
proof -
  have taken: "gain 0 s (s\<lparr>inbox := None\<rparr>)" "gain 0 s (s\<lparr>outbox_responses := None\<rparr>)"
    by (rule gain_same_funds, simp add: same_funds_def same_accounts_def)+
  show "post (relay_message R orig xdm s) (gain 0 s)"
    unfolding relay_message_def
    by (auto simp: post_simps intro!: gain_process_inbox_messages [THEN post_mono] gain_after [OF taken(1)])
  show "post (relay_message_response R orig xdm s) (gain 0 s)"
    unfolding relay_message_response_def
    by (auto simp: post_simps intro!: gain_process_outbox_message_responses [THEN post_mono] gain_after [OF taken(2)])
qed

lemma gain_apply_relay_call: "post (apply_relay_call R trusted call s) (gain 0 s)"
proof (rule postI)
  fix s'
  assume "apply_relay_call R trusted call s = Inr s'"
  then obtain v t where prep: "extension_prepare R call v s = Inr t"
    and s': "s' = (case (case call of RelayMessage xdm \<Rightarrow> relay_message R XdmValidatedUnsigned xdm t
        | RelayMessageResponse xdm \<Rightarrow> relay_message_response R XdmValidatedUnsigned xdm t) of Inr u \<Rightarrow> u | Inl e \<Rightarrow> t)"
    by (auto simp: apply_relay_call_def result_simps)
  have t: "gain 0 s t"
  proof (cases call)
    case (RelayMessage xdm)
    with prep have "pre_dispatch_relay_message R (vr_message v) (vr_should_init_channel v) s = Inr t"
      by (auto simp: extension_prepare_def result_simps)
    from postD [OF funds_pre_dispatch_relay_message this] show ?thesis by (rule gain_same_funds)
  next
    case (RelayMessageResponse xdm)
    with prep have "pre_dispatch_relay_message_response (vr_message v) s = Inr t"
      by (auto simp: extension_prepare_def result_simps)
    from postD [OF funds_channels(4) this] show ?thesis by (rule gain_same_funds)
  qed
  have "gain 0 t u" if "(case call of RelayMessage xdm \<Rightarrow> relay_message R XdmValidatedUnsigned xdm t
        | RelayMessageResponse xdm \<Rightarrow> relay_message_response R XdmValidatedUnsigned xdm t) = Inr u" for u
    using that postD [OF gain_relay(1)] postD [OF gain_relay(2)] by (cases call) auto
  with t show "gain 0 s s'" unfolding s' by (auto intro: gain_after split: sum.split)
qed

lemma gain_send_message: "post (send_message R who c req s) (\<lambda>(_, s'). gain 0 s s')"
proof (rule postI)
  fix r
  assume "send_message R who c req s = Inr r"
  then obtain i collected t n u where r: "fst r = (i, n)" and
    c: "collect_fees_for_message_v1 R who (eq_src_endpoint req) s = Inr (collected, t)" and
    n: "new_outbox_message (self_chain_id R) c i
      (V1 (EndpointPayload (Request \<lparr>ef_req = req, ef_collected_fee = collected\<rparr>))) t = Inr (n, u)" and
    f: "store_outbox_fee R c (i, n) (cf_src_chain_fee collected) (cf_dst_chain_fee collected) u = Inr (snd r)"
    by (cases r) (auto simp: send_message_def result_simps)
  from postD [OF gain_collect_fees c] have "gain (- int (cf_src_chain_fee collected) - int (cf_dst_chain_fee collected)) s t"
    by simp
  moreover from postD [OF funds_channels(3) n] have "gain 0 t u" by (simp add: gain_same_funds)
  ultimately have "gain (- int (cf_src_chain_fee collected) - int (cf_dst_chain_fee collected)) s u"
    by (rule gain_trans) simp
  from gain_trans [OF this postD [OF gain_store_outbox_fee f], of 0] show "case r of (_, s') \<Rightarrow> gain 0 s s'"
    by (cases r) simp
qed

lemma gain_transporter_transfer: "post (transporter_transfer C (send_message R) orig loc a s) (gain 0 s)"
proof (rule postI)
  fix s'
  assume "transporter_transfer C (send_message R) orig loc a s = Inr s'"
  then obtain x sender req mid t tfs where x: "currency_withdraw C sender a (sys s) = Some x" and
    send: "send_message R sender (loc_chain_id loc) req (s\<lparr>sys := x\<rparr>) = Inr (mid, t)" and
    s': "account_transfer_out C (loc_chain_id loc) a
      (deposit_xdm_event (OutgoingTransferInitiated (loc_chain_id loc) mid a) (t\<lparr>outgoing_transfers := tfs\<rparr>)) = Inr s'"
    by (simp only: transporter_transfer_def Let_def and_then_Inr_iff ok_or_Inr_iff with_sys_Inr_iff split_paired_Ex prod.case)
      blast
  let ?u = "deposit_xdm_event (OutgoingTransferInitiated (loc_chain_id loc) mid a) (t\<lparr>outgoing_transfers := tfs\<rparr>)"
  have "gain (- int a) s (s\<lparr>sys := x\<rparr>)"
    by (rule lawful) (use gain_sys [OF gain_refl [of s], of x "- int a"] runtime_law(1) [OF _ x] in simp)
  moreover from postD [OF gain_send_message send] have "gain 0 (s\<lparr>sys := x\<rparr>) t" by simp
  ultimately have "gain (- int a) s t" by (rule gain_trans) simp
  moreover have "gain 0 t ?u" by (rule gain_same_funds) (simp add: same_funds_def same_accounts_def deposit_xdm_event_def)
  ultimately have "gain (- int a) s ?u" by (rule gain_trans) simp
  from gain_trans [OF this postD [OF gain_account(1) s'], of 0] show "gain 0 s s'" by simp
qed

lemma gain_initiate_channel: "post (initiate_channel R orig c s) (gain 0 s)"
proof (rule postI)
  fix s'
  assume "initiate_channel R orig c s = Inr s'"
  then obtain x params owner amount i t n where x: "channel_hold R owner amount (sys s) = Some x" and
    i: "do_init_channel R c params (Some owner) True amount (s\<lparr>sys := x\<rparr>) = Inr (i, t)" and
    n: "new_outbox_message (self_chain_id R) c i (V1 (Protocol (Request (ChannelOpen params)))) t = Inr (n, s')"
    by (auto simp: initiate_channel_def result_simps Let_def)
  have "gain 0 s (s\<lparr>sys := x\<rparr>)" by (rule lawful) (use gain_sys [OF gain_refl [of s], of x 0] runtime_law(5) [OF _ x] in simp)
  moreover from postD [OF funds_channels(2) i] have "gain 0 (s\<lparr>sys := x\<rparr>) t" by (simp add: gain_same_funds)
  moreover from postD [OF funds_channels(3) n] have "gain 0 t s'" by (simp add: gain_same_funds)
  ultimately show "gain 0 s s'" by (blast intro: gain_after)
qed

lemma gain_close_channel: "post (close_channel R orig c i s) (gain 0 s)"
proof (rule postI)
  fix s'
  assume "close_channel R orig c i s = Inr s'"
  then obtain by_whom t n where t: "do_close_channel R c i by_whom s = Inr t" and
    n: "new_outbox_message (self_chain_id R) c i (V1 (Protocol (Request ChannelClose))) t = Inr (n, s')"
    by (auto simp: close_channel_def result_simps)
  from postD [OF funds_channels(3) n] have "gain 0 t s'" by (simp add: gain_same_funds)
  with postD [OF gain_do_close_channel t] show "gain 0 s s'" by (rule gain_after)
qed

text \<open>No call creates funds.\<close>

lemma gain_xdm_call:
  assumes "xdm_call C R received s s'"
  shows "gain 0 s s'"
  using assms
proof cases
  case transfer_call
  then show ?thesis using postD [OF gain_transporter_transfer] by blast
next
  case initiate_channel_call
  then show ?thesis using postD [OF gain_initiate_channel] by blast
next
  case close_channel_call
  then show ?thesis using postD [OF gain_close_channel] by blast
next
  case relay_message_call
  then show ?thesis using postD [OF gain_apply_relay_call] by blast
next
  case relay_response_call
  then show ?thesis using postD [OF gain_apply_relay_call] by blast
qed (auto simp: update_consensus_chain_allowlist_def initiate_domain_update_chain_allowlist_def
    update_domain_allowlist_def domain_bundle_submitted_def on_domain_instantiated_def
    result_simps Let_def same_funds_def same_accounts_def split: option.split intro!: gain_same_funds)

end

section \<open>The consensus chain\<close>

text \<open>What the tracker holds for the domains and for transfers on their way.\<close>

definition tracked :: "'x xdm_state \<Rightarrow> nat" where
  "tracked s = om_total id (domain_balances s) + om_total id (unconfirmed_transfers s) + om_total id (cancelled_transfers s)"

definition tracker_wf :: "'x xdm_state \<Rightarrow> bool" where
  "tracker_wf s \<longleftrightarrow> om_invar (domain_balances s) \<and> om_invar (unconfirmed_transfers s) \<and> om_invar (cancelled_transfers s)"

lemma om_total_set:
  assumes "om_invar m"
  shows "om_total id (om_insert k b m) + balance_of m k = om_total id m + b"
  using btree.total_ins [OF assms, of k _ id b] btree.total_ins_fresh [OF assms, of k id b]
  by (cases "om_get m k") (auto simp: balance_of_def)

lemma debit_domain_tracked:
  assumes "debit_domain c a s = Inr s'" "tracker_wf s"
  shows "tracker_wf s' \<and> tracked s' + (if is_consensus_chain c then 0 else a) = tracked s"
proof (cases c)
  case Consensus
  with assms show ?thesis by (simp add: debit_domain_def)
next
  case (Domain d)
  let ?b = "balance_of (domain_balances s) d"
  from Domain assms have s': "s' = s\<lparr>domain_balances := om_insert d (?b - a) (domain_balances s)\<rparr>" "a \<le> ?b"
    by (auto simp: debit_domain_def result_simps arith_simps)
  with Domain assms(2) om_total_set [of "domain_balances s" d "?b - a"] show ?thesis
    by (simp add: tracker_wf_def tracked_def om_invar_insert)
qed

lemma credit_domain_tracked:
  assumes "credit_domain c a s = Inr s'" "tracker_wf s"
  shows "tracker_wf s' \<and> tracked s' = tracked s + (if is_consensus_chain c then 0 else a)"
proof (cases c)
  case Consensus
  with assms show ?thesis by (simp add: credit_domain_def)
next
  case (Domain d)
  let ?b = "balance_of (domain_balances s) d"
  from Domain assms have s': "s' = s\<lparr>domain_balances := om_insert d (?b + a) (domain_balances s)\<rparr>"
    by (auto simp: credit_domain_def result_simps arith_simps)
  with Domain assms(2) om_total_set [of "domain_balances s" d "?b + a"] show ?thesis
    by (simp add: tracker_wf_def tracked_def om_invar_insert)
qed

lemma domain_balance_frame:
  "debit_domain c a s = Inr s' \<Longrightarrow> unconfirmed_transfers s' = unconfirmed_transfers s \<and> cancelled_transfers s' = cancelled_transfers s"
  "credit_domain c a s = Inr s' \<Longrightarrow> unconfirmed_transfers s' = unconfirmed_transfers s \<and> cancelled_transfers s' = cancelled_transfers s"
  by (auto simp: debit_domain_def credit_domain_def result_simps split: option.splits)

text \<open>The two maps of transfers on their way, and what an entry of them means to what is tracked.\<close>

lemma tracked_unconfirmed:
  assumes "tracker_wf s"
  shows "tracker_wf (s\<lparr>unconfirmed_transfers := om_insert k b (unconfirmed_transfers s)\<rparr>)"
    "tracked (s\<lparr>unconfirmed_transfers := om_insert k b (unconfirmed_transfers s)\<rparr>) + balance_of (unconfirmed_transfers s) k
       = tracked s + b"
  using assms om_total_set [of "unconfirmed_transfers s" k b] by (simp_all add: tracker_wf_def tracked_def om_invar_insert)

lemma tracked_cancelled:
  assumes "tracker_wf s"
  shows "tracker_wf (s\<lparr>cancelled_transfers := om_insert k b (cancelled_transfers s)\<rparr>)"
    "tracked (s\<lparr>cancelled_transfers := om_insert k b (cancelled_transfers s)\<rparr>) + balance_of (cancelled_transfers s) k
       = tracked s + b"
  using assms om_total_set [of "cancelled_transfers s" k b] by (simp_all add: tracker_wf_def tracked_def om_invar_insert)

lemma note_transfer_tracked:
  assumes "transporter_note_transfer C from to a s = Inr s'" "tracker_wf s"
  shows "tracker_wf s' \<and> tracked s' = tracked s + (if is_consensus_chain from then a else 0)"
proof -
  from assms(1) obtain t where t: "debit_domain from a s = Inr t"
    and s': "s' = t\<lparr>unconfirmed_transfers :=
      om_insert (from, to) (balance_of (unconfirmed_transfers t) (from, to) + a) (unconfirmed_transfers t)\<rparr>"
    by (auto simp: transporter_note_transfer_def result_simps arith_simps)
  from debit_domain_tracked [OF t assms(2)] have "tracker_wf t"
    "tracked t + (if is_consensus_chain from then 0 else a) = tracked s" by simp_all
  with tracked_unconfirmed [of t "(from, to)" "balance_of (unconfirmed_transfers t) (from, to) + a"]
  show ?thesis unfolding s' by auto
qed

lemma confirm_transfer_tracked:
  assumes "transporter_confirm_transfer C from to a s = Inr s'" "tracker_wf s"
  shows "tracker_wf s' \<and> tracked s' + (if is_consensus_chain to then a else 0) = tracked s"
proof -
  let ?b = "balance_of (unconfirmed_transfers s) (from, to)"
  from assms(1) obtain t where t: "credit_domain to a s = Inr t" and b: "a \<le> ?b"
    and s': "s' = t\<lparr>unconfirmed_transfers := om_insert (from, to) (?b - a) (unconfirmed_transfers t)\<rparr>"
    by (auto simp: transporter_confirm_transfer_def result_simps arith_simps)
  from credit_domain_tracked [OF t assms(2)] have t': "tracker_wf t"
    "tracked t = tracked s + (if is_consensus_chain to then 0 else a)" by simp_all
  from domain_balance_frame(2) [OF t] have "unconfirmed_transfers t = unconfirmed_transfers s" by simp
  with tracked_unconfirmed [OF t'(1), of "(from, to)" "?b - a"] t'(2) b show ?thesis unfolding s' by (simp split: if_splits)
qed

lemma claim_rejected_transfer_tracked:
  assumes "transporter_claim_rejected_transfer C from to a s = Inr s'" "tracker_wf s"
  shows "tracker_wf s' \<and> tracked s' + (if is_consensus_chain from then a else 0) = tracked s"
proof -
  let ?b = "balance_of (cancelled_transfers s) (from, to)"
  from assms(1) obtain t where t: "credit_domain from a s = Inr t" and b: "a \<le> ?b"
    and s': "s' = t\<lparr>cancelled_transfers := om_insert (from, to) (?b - a) (cancelled_transfers t)\<rparr>"
    by (auto simp: transporter_claim_rejected_transfer_def result_simps arith_simps)
  from credit_domain_tracked [OF t assms(2)] have t': "tracker_wf t"
    "tracked t = tracked s + (if is_consensus_chain from then 0 else a)" by simp_all
  from domain_balance_frame(2) [OF t] have "cancelled_transfers t = cancelled_transfers s" by simp
  with tracked_cancelled [OF t'(1), of "(from, to)" "?b - a"] t'(2) b show ?thesis unfolding s' by (simp split: if_splits)
qed

lemma reject_transfer_tracked:
  assumes "transporter_reject_transfer C from to a s = Inr s'" "tracker_wf s"
  shows "tracker_wf s' \<and> tracked s' = tracked s"
proof -
  let ?u = "balance_of (unconfirmed_transfers s) (from, to)" and ?c = "balance_of (cancelled_transfers s) (from, to)"
  let ?t = "s\<lparr>cancelled_transfers := om_insert (from, to) (?c + a) (cancelled_transfers s)\<rparr>"
  from assms(1) have u: "a \<le> ?u"
    and s': "s' = ?t\<lparr>unconfirmed_transfers := om_insert (from, to) (?u - a) (unconfirmed_transfers ?t)\<rparr>"
    by (auto simp: transporter_reject_transfer_def result_simps arith_simps)
  note t = tracked_cancelled [OF assms(2), of "(from, to)" "?c + a"]
  from tracked_unconfirmed [OF t(1), of "(from, to)" "?u - a"] t(2) u show ?thesis unfolding s' by simp
qed

lemma reduce_domain_balance_tracked:
  assumes "transporter_reduce_domain_balance d a s = Inr s'" "tracker_wf s"
  shows "tracker_wf s' \<and> tracked s' + a = tracked s"
  using debit_domain_tracked [of "Domain d" a s s'] assms
  by (simp add: debit_domain_def transporter_reduce_domain_balance_def)

interpretation consensus: transfer_accounting
  "C\<lparr>SelfChainId := Consensus\<rparr>" M w w' circ tracker_wf "\<lambda>s. int (tracked s)" for C M w w' circ
proof unfold_locales
  fix s s' :: "'a xdm_state" and c a
  let ?C = "C\<lparr>SelfChainId := Consensus\<rparr>"
  assume wf: "tracker_wf s"
  show "account_transfer_out ?C c a s = Inr s' \<Longrightarrow> tracker_wf s' \<and> int (tracked s') = int (tracked s) + int a"
    using note_transfer_tracked [OF _ wf] by (auto simp: account_transfer_out_def result_simps)
  show "account_transfer_in ?C c a s = Inr s' \<Longrightarrow> tracker_wf s' \<and> int (tracked s') = int (tracked s) - int a"
    using confirm_transfer_tracked [OF _ wf] by (fastforce simp: account_transfer_in_def result_simps)
  show "account_transfer_rejected ?C c a s = Inr s' \<Longrightarrow> tracker_wf s' \<and> int (tracked s') = int (tracked s)"
    using reject_transfer_tracked [OF _ wf] by (auto simp: account_transfer_rejected_def result_simps)
  show "account_transfer_revert ?C c a s = Inr s' \<Longrightarrow> tracker_wf s' \<and> int (tracked s') = int (tracked s) - int a"
    using claim_rejected_transfer_tracked [OF _ wf] by (fastforce simp: account_transfer_revert_def result_simps)
qed (simp add: same_accounts_def tracker_wf_def tracked_def)

section \<open>A domain\<close>

text \<open>The transfers of a block as the receipt reports them: what left the domain, less what came in or came back.\<close>

definition reported :: "'x xdm_state \<Rightarrow> int" where
  "reported s = int (om_total id (tr_transfers_out (chain_transfers s))) - int (om_total id (tr_transfers_in (chain_transfers s)))
     - int (om_total id (tr_rejected_transfers_claimed (chain_transfers s)))"

definition transfers_wf :: "'x xdm_state \<Rightarrow> bool" where
  "transfers_wf s \<longleftrightarrow> om_invar (tr_transfers_out (chain_transfers s)) \<and> om_invar (tr_transfers_in (chain_transfers s)) \<and>
     om_invar (tr_rejected_transfers_claimed (chain_transfers s)) \<and> om_invar (tr_transfers_rejected (chain_transfers s))"

lemma add_to_transfers_total:
  assumes "add_to_transfers c a m = Inr m'" "om_invar m"
  shows "om_invar m'" "om_total id m' = om_total id m + a"
proof -
  from assms(1) have m': "m' = om_insert c (balance_of m c + a) m"
    by (auto simp: add_to_transfers_def balance_of_def result_simps arith_simps split: option.splits)
  show "om_invar m'" unfolding m' by (rule om_invar_insert [OF assms(2)])
  show "om_total id m' = om_total id m + a" using om_total_set [OF assms(2), of c "balance_of m c + a"] unfolding m' by simp
qed

interpretation domain: transfer_accounting
  "C\<lparr>SelfChainId := Domain d\<rparr>" M w w' circ transfers_wf reported for C d M w w' circ
proof unfold_locales
  fix s s' :: "'a xdm_state" and c a
  let ?C = "C\<lparr>SelfChainId := Domain d\<rparr>"
  assume wf: "transfers_wf s"
  note defs = mutate_chain_transfers_def result_simps transfers_wf_def reported_def
  show "account_transfer_out ?C c a s = Inr s' \<Longrightarrow> transfers_wf s' \<and> reported s' = reported s + int a"
    using wf add_to_transfers_total [of c a "tr_transfers_out (chain_transfers s)"]
    by (auto simp: account_transfer_out_def update_transfer_out_def defs)
  show "account_transfer_in ?C c a s = Inr s' \<Longrightarrow> transfers_wf s' \<and> reported s' = reported s - int a"
    using wf add_to_transfers_total [of c a "tr_transfers_in (chain_transfers s)"]
    by (auto simp: account_transfer_in_def update_transfer_in_def defs)
  show "account_transfer_rejected ?C c a s = Inr s' \<Longrightarrow> transfers_wf s' \<and> reported s' = reported s"
    using wf add_to_transfers_total [of c a "tr_transfers_rejected (chain_transfers s)"]
    by (auto simp: account_transfer_rejected_def update_transfer_rejected_def defs)
  show "account_transfer_revert ?C c a s = Inr s' \<Longrightarrow> transfers_wf s' \<and> reported s' = reported s - int a"
    using wf add_to_transfers_total [of c a "tr_rejected_transfers_claimed (chain_transfers s)"]
    by (auto simp: account_transfer_revert_def update_transfer_revert_def defs)
qed (simp add: same_accounts_def transfers_wf_def reported_def)

section \<open>Properties\<close>

text \<open>The funds of the consensus chain, and those of a domain without its account of the block's transfers.\<close>

definition chain_funds :: "('x \<Rightarrow> nat) \<Rightarrow> 'x xdm_state \<Rightarrow> nat" where
  "chain_funds circ s = circ (sys s) + inbox_fees_on_hold s + outbox_fees_on_hold s"

definition consensus_block_step :: "'x transporter_config \<Rightarrow> 'x messenger_config \<Rightarrow> 'x xdm_state \<Rightarrow> 'x xdm_state \<Rightarrow> bool" where
  "consensus_block_step C M s s' \<longleftrightarrow>
     (\<exists>received. xdm_call C M received s s') \<or> s' = transporter_on_initialize (messenger_on_initialize s)"

lemma consensus_step_gain:
  assumes laws: "circulation_laws C M circ" and self: "SelfChainId C = Consensus"
    and step: "consensus_block_step C (runtime_messenger C w w' M) s s'" and wf: "tracker_wf s"
  shows "tracker_wf s' \<and> chain_funds circ s' + tracked s' \<le> chain_funds circ s + tracked s"
proof (cases "s' = transporter_on_initialize (messenger_on_initialize s)")
  case True
  with wf show ?thesis
    by (simp add: chain_funds_def tracker_wf_def tracked_def transporter_on_initialize_def messenger_on_initialize_def)
next
  case False
  from self have C: "C = C\<lparr>SelfChainId := Consensus\<rparr>" by simp
  from False step obtain received where "xdm_call C (runtime_messenger C w w' M) received s s'"
    by (auto simp: consensus_block_step_def)
  from consensus.gain_xdm_call [where C = C, unfolded consensus.gain_def consensus.funds_def, folded C, OF this] laws wf
  show ?thesis unfolding chain_funds_def by fastforce
qed

lemma domain_call_gain:
  assumes laws: "circulation_laws C M circ" and self: "SelfChainId C = Domain d"
    and step: "xdm_call C (runtime_messenger C w w' M) received s s'" and wf: "transfers_wf s"
  shows "transfers_wf s' \<and> int (chain_funds circ s') + reported s' \<le> int (chain_funds circ s) + reported s"
proof -
  from self have C: "C = C\<lparr>SelfChainId := Domain d\<rparr>" by simp
  from domain.gain_xdm_call [where C = C and d = d, unfolded domain.gain_def domain.funds_def, folded C, OF step] laws wf
  show ?thesis unfolding chain_funds_def by fastforce
qed

lemma example_laws: "circulation_laws (xdm_transporter c) xdm_messenger id"
  by (auto simp: circulation_laws_def xdm_example_defs result_simps arith_simps)

lemma transfer_sent:
  "\<exists>s. transporter_transfer (xdm_transporter Consensus) (send_message consensus_messenger) (Some 7)
      (xdm_destination (Domain 0)) 100 (xdm_open (Domain 0)) = Inr s \<and> sys s = 890 \<and> tracked s = 105"
  "\<exists>s. transporter_transfer (xdm_transporter (Domain 0)) (send_message domain_messenger) (Some 7)
      (xdm_destination Consensus) 100 (xdm_open Consensus) = Inr s \<and> sys s = 890 \<and> reported s = 105"
  by (simp_all add: transporter_transfer_def ZERO_EVM_ADDRESS_def send_message_def get_open_channel_for_chain_def
      collect_fees_for_message_v1_def new_outbox_message_def store_outbox_fee_def runtime_messenger_def with_sys_def Let_def
      runtime_endpoint_handler_def transporter_handler_def checked_mul_def
      xdm_example_defs deposit_xdm_event_def put_channel_def note_transfer_out_def account_transfer_out_def
      transporter_note_transfer_def tracked_def reported_def checked_sub_def checked_add_def balance_of_def add_to_transfers_def mutate_chain_transfers_def
      update_transfer_out_def debit_domain_def no_transfers_def om_total_def om_get_def ensure_consensus_chain_def)

text \<open>
  C4: On the consensus chain no sequence of calls creates funds. Whatever is transferred, relayed, rejected, reverted or
  claimed, and whatever fees are taken and rewards paid, the balances of the accounts, the fees on hold and what the
  tracker holds for the domains, for transfers on their way and for rejected transfers never add up to more than before.
\<close>

theorem consensus_supply_never_grows:
  assumes laws: "circulation_laws C M circ" and self: "SelfChainId C = Consensus" and wf: "tracker_wf s"
    and run: "(consensus_block_step C (runtime_messenger C w w' M))\<^sup>*\<^sup>* s s'"
  shows "chain_funds circ s' + tracked s' \<le> chain_funds circ s + tracked s"
proof -
  from run have "tracker_wf s' \<and> chain_funds circ s' + tracked s' \<le> chain_funds circ s + tracked s"
    by induction (auto simp: wf dest: consensus_step_gain [OF laws self])
  then show ?thesis ..
qed

theorem consensus_supply_never_grows_witness:
  "\<exists>s'. chain_funds id s' + tracked s' \<le> chain_funds id (xdm_open (Domain 0)) + tracked (xdm_open (Domain 0)) \<and>
     tracked s' = 105"
proof -
  let ?C = "xdm_transporter Consensus"
  obtain s where s: "transporter_transfer ?C (send_message consensus_messenger) (Some 7) (xdm_destination (Domain 0)) 100
      (xdm_open (Domain 0)) = Inr s" "tracked s = 105" using transfer_sent(1) by blast
  from transfer_call [OF s(1)] have run: "(consensus_block_step ?C consensus_messenger)\<^sup>*\<^sup>* (xdm_open (Domain 0)) s"
    by (intro r_into_rtranclp) (auto simp: consensus_block_step_def)
  have "SelfChainId ?C = Consensus" "tracker_wf (xdm_open (Domain 0))"
    by (simp_all add: xdm_example_defs tracker_wf_def)
  from consensus_supply_never_grows [OF example_laws this run] s(2) show ?thesis by blast
qed

text \<open>
  C14: A domain's receipt accounts for the domain's funds. From the start of a block, whatever calls the block has, what
  the domain's accounts hold and the fees on hold grow by at most what the block's transfers report as having come in or
  come back, less what they report as having left.
\<close>

theorem domain_transfers_account_for_funds:
  assumes laws: "circulation_laws C M circ" and self: "SelfChainId C = Domain d" and start: "chain_transfers s = no_transfers"
    and run: "(\<lambda>s s'. \<exists>received. xdm_call C (runtime_messenger C w w' M) received s s')\<^sup>*\<^sup>* s s'"
  shows "chain_funds circ s' + om_total id (tr_transfers_out (chain_transfers s')) \<le>
    chain_funds circ s + om_total id (tr_transfers_in (chain_transfers s')) +
    om_total id (tr_rejected_transfers_claimed (chain_transfers s'))"
proof -
  from start have wf: "transfers_wf s" and zero: "reported s = 0"
    by (simp_all add: transfers_wf_def reported_def no_transfers_def om_total_def om_invar_def)
  from run have "transfers_wf s' \<and> int (chain_funds circ s') + reported s' \<le> int (chain_funds circ s) + reported s"
    by induction (auto simp: wf dest: domain_call_gain [OF laws self])
  with zero show ?thesis unfolding reported_def by linarith
qed

theorem domain_transfers_account_for_funds_witness:
  "\<exists>s'. chain_funds id s' + om_total id (tr_transfers_out (chain_transfers s')) \<le>
    chain_funds id (xdm_open Consensus) + om_total id (tr_transfers_in (chain_transfers s')) +
    om_total id (tr_rejected_transfers_claimed (chain_transfers s')) \<and> reported s' = 105"
proof -
  let ?C = "xdm_transporter (Domain 0)"
  let ?step = "\<lambda>s s'. \<exists>received. xdm_call ?C domain_messenger received s s'"
  obtain s where s: "transporter_transfer ?C (send_message domain_messenger) (Some 7) (xdm_destination Consensus) 100
      (xdm_open Consensus) = Inr s" "reported s = 105" using transfer_sent(2) by blast
  from transfer_call [OF s(1)] have run: "?step\<^sup>*\<^sup>* (xdm_open Consensus) s" by blast
  have "SelfChainId ?C = Domain 0" "chain_transfers (xdm_open Consensus) = no_transfers"
    by (simp_all add: xdm_example_defs)
  from domain_transfers_account_for_funds [OF example_laws this run] s(2) show ?thesis by blast
qed

end
