(* ===== verification/History_Types.thy ===== *)
theory History_Types
  imports Domain_Types "HOL-Library.Word"
begin

text \<open>
  The archived history of the chain in crates/subspace-core-primitives: how pieces are numbered across segments
  (segments.rs and pieces.rs), the headers of segments with the progress of archiving (segments.rs), and the objects
  that a block contains (objects.rs). Indices are 64-bit words, their arithmetic wraps around; an \<open>assert\<close> that fails
  is the value \<open>None\<close>.
\<close>

type_synonym octets = "8 word list"

section \<open>Sizes\<close>

definition SAFE_BYTES :: nat where "SAFE_BYTES = 31"
definition RawRecord_NUM_CHUNKS :: nat where "RawRecord_NUM_CHUNKS = 2 ^ 15"
definition RawRecord_SIZE :: nat where "RawRecord_SIZE = SAFE_BYTES * RawRecord_NUM_CHUNKS"
definition NUM_RAW_RECORDS :: nat where "NUM_RAW_RECORDS = 128"
definition ERASURE_CODING_RATE :: "nat \<times> nat" where "ERASURE_CODING_RATE = (1, 2)"
definition RecordedHistorySegment_SIZE :: nat where
  "RecordedHistorySegment_SIZE = RawRecord_SIZE * NUM_RAW_RECORDS"
definition NUM_PIECES :: nat where
  "NUM_PIECES = NUM_RAW_RECORDS * snd ERASURE_CODING_RATE div fst ERASURE_CODING_RATE"

lemmas history_sizes = SAFE_BYTES_def RawRecord_NUM_CHUNKS_def RawRecord_SIZE_def NUM_RAW_RECORDS_def
  ERASURE_CODING_RATE_def RecordedHistorySegment_SIZE_def NUM_PIECES_def

section \<open>Indices of segments and pieces\<close>

type_synonym segment_index = "64 word"
type_synonym piece_index = "64 word"

definition first_piece_index :: "segment_index \<Rightarrow> piece_index" where
  "first_piece_index s = s * of_nat NUM_PIECES"

definition last_piece_index :: "segment_index \<Rightarrow> piece_index" where
  "last_piece_index s = (s + 1) * of_nat NUM_PIECES - 1"

text \<open>The range from the first to the last index, zipped with an array of \<open>NUM_PIECES\<close> entries.\<close>

definition segment_piece_indexes :: "segment_index \<Rightarrow> piece_index list" where
  "segment_piece_indexes s =
     (let range = map of_nat [unat (first_piece_index s) ..< Suc (unat (last_piece_index s))] in
      take NUM_PIECES range @ replicate (NUM_PIECES - length range) 0)"

text \<open>\<open>step_by(2)\<close>: every second element, starting with the first.\<close>

fun step_by_2 :: "'a list \<Rightarrow> 'a list" where
  "step_by_2 (x # y # xs) = x # step_by_2 xs"
| "step_by_2 xs = xs"

definition segment_piece_indexes_source_first :: "segment_index \<Rightarrow> piece_index list" where
  "segment_piece_indexes_source_first s =
     (let piece_indices = segment_piece_indexes s in
      step_by_2 piece_indices @ step_by_2 (drop 1 piece_indices))"

definition SegmentIndex_checked_sub :: "segment_index \<Rightarrow> segment_index \<Rightarrow> segment_index option" where
  "SegmentIndex_checked_sub s rhs = (if rhs \<le> s then Some (s - rhs) else None)"

definition SegmentIndex_saturating_sub :: "segment_index \<Rightarrow> segment_index \<Rightarrow> segment_index" where
  "SegmentIndex_saturating_sub s rhs = (if rhs \<le> s then s - rhs else 0)"

definition PieceIndex_segment_index :: "piece_index \<Rightarrow> segment_index" where
  "PieceIndex_segment_index p = p div of_nat NUM_PIECES"

definition PieceIndex_position :: "piece_index \<Rightarrow> u32" where
  "PieceIndex_position p = unat (p mod of_nat NUM_PIECES)"

definition is_source :: "piece_index \<Rightarrow> bool" where
  "is_source p \<longleftrightarrow> p mod of_nat (snd ERASURE_CODING_RATE) < of_nat (fst ERASURE_CODING_RATE)"

definition source_position :: "piece_index \<Rightarrow> u32 option" where
  "source_position p =
     (if is_source p then
        let source_start = PieceIndex_position p div snd ERASURE_CODING_RATE * fst ERASURE_CODING_RATE;
            source_offset = PieceIndex_position p mod snd ERASURE_CODING_RATE in
        Some (source_start + source_offset)
      else None)"

definition from_source_position :: "u32 \<Rightarrow> segment_index \<Rightarrow> piece_index" where
  "from_source_position n s =
     (let start = n div fst ERASURE_CODING_RATE * snd ERASURE_CODING_RATE;
          offset = n mod fst ERASURE_CODING_RATE in
      first_piece_index s + of_nat start + of_nat offset)"

definition next_source_index :: "piece_index \<Rightarrow> piece_index option" where
  "next_source_index p =
     map_option (\<lambda>n. from_source_position (n + 1) (PieceIndex_segment_index p)) (source_position p)"

definition prev_source_index :: "piece_index \<Rightarrow> piece_index option option" where
  "prev_source_index p =
     map_option (\<lambda>n.
       if n = 0 then
         map_option (from_source_position (NUM_RAW_RECORDS - 1)) (SegmentIndex_checked_sub (PieceIndex_segment_index p) 1)
       else Some (from_source_position (n - 1) (PieceIndex_segment_index p))) (source_position p)"

section \<open>The size of the history\<close>

text \<open>A non-zero number of segments.\<close>

type_synonym history_size = "64 word"

text \<open>The conversion panics where the number of segments does not fit.\<close>

definition HistorySize_from :: "segment_index \<Rightarrow> history_size option" where
  "HistorySize_from s = (if s + 1 = 0 then None else Some (s + 1))"

definition in_pieces :: "history_size \<Rightarrow> 64 word" where
  "in_pieces h = (if unat h * NUM_PIECES < 2 ^ 64 then h * of_nat NUM_PIECES else - 1)"

definition HistorySize_segment_index :: "history_size \<Rightarrow> segment_index" where
  "HistorySize_segment_index h = h - 1"

definition sector_expiration_check :: "history_size \<Rightarrow> history_size \<Rightarrow> history_size option" where
  "sector_expiration_check h min_sector_lifetime =
     (if unat h + unat min_sector_lifetime < 2 ^ 64 then Some (h + min_sector_lifetime) else None)"

section \<open>Headers of segments\<close>

datatype archived_block_progress = Complete | Partial u32

fun progress_partial :: "archived_block_progress \<Rightarrow> u32 option" where
  "progress_partial Complete = None"
| "progress_partial (Partial n) = Some n"

record last_archived_block =
  lab_number :: block_number
  lab_archived_progress :: archived_block_progress

definition partial_archived :: "last_archived_block \<Rightarrow> u32 option" where
  "partial_archived lab = progress_partial (lab_archived_progress lab)"

definition set_partial_archived :: "u32 \<Rightarrow> last_archived_block \<Rightarrow> last_archived_block" where
  "set_partial_archived n lab = lab\<lparr>lab_archived_progress := Partial n\<rparr>"

definition set_complete :: "last_archived_block \<Rightarrow> last_archived_block" where
  "set_complete lab = lab\<lparr>lab_archived_progress := Complete\<rparr>"

record segment_header =
  sh_segment_index :: segment_index
  sh_segment_commitment :: octets
  sh_prev_segment_header_hash :: octets
  sh_last_archived_block :: last_archived_block

section \<open>Objects\<close>

record block_object =
  bo_hash :: octets
  bo_offset :: u32

text \<open>\<open>BlockObjectMapping::V0\<close> is the list of its objects.\<close>

type_synonym block_object_mapping = "block_object list"

record global_object =
  go_hash :: octets
  go_piece_index :: piece_index
  go_offset :: u32

section \<open>Numbering of pieces\<close>

lemma unat_first_piece_index: "unat s < 2 ^ 56 \<Longrightarrow> unat (first_piece_index s) = unat s * 256"
  by (simp add: first_piece_index_def history_sizes unat_word_ariths)

lemma piece_position_nat:
  "unat (PieceIndex_segment_index p) = unat p div 256"
  "PieceIndex_position p = unat p mod 256"
  "is_source p \<longleftrightarrow> even (unat p)"
  by (simp_all add: PieceIndex_segment_index_def PieceIndex_position_def is_source_def history_sizes unat_div unat_mod
      word_less_nat_alt even_iff_mod_2_eq_zero)

lemma unat_from_source_position:
  assumes "unat s * 256 + 2 * n < 2 ^ 64"
  shows "unat (from_source_position n s) = unat s * 256 + 2 * n"
proof -
  from assms have n: "unat (of_nat (2 * n) :: 64 word) = 2 * n" and s: "unat s < 2 ^ 56"
    by (simp_all add: unat_of_nat del: of_nat_mult)
  have f: "from_source_position n s = first_piece_index s + of_nat (2 * n)"
    by (simp add: from_source_position_def history_sizes mult.commute)
  show ?thesis
    unfolding f using assms n unat_first_piece_index [OF s] by (simp add: unat_word_ariths del: of_nat_mult)
qed

lemma source_position_nat: "even (unat p) \<Longrightarrow> source_position p = Some (unat p mod 256 div 2)"
  by (simp add: source_position_def piece_position_nat history_sizes mod_mod_cancel)

lemma even_position: "even (n :: nat) \<Longrightarrow> n = n div 256 * 256 + 2 * (n mod 256 div 2)"
  using div_mult_mod_eq [of n 256] dvd_mult_div_cancel [of 2 "n mod 256"] dvd_mod_iff [of 2 256 n] by simp

lemma from_source_position_inverse:
  assumes "unat s < 2 ^ 56" "n < NUM_RAW_RECORDS"
  shows "PieceIndex_segment_index (from_source_position n s) = s"
    and "source_position (from_source_position n s) = Some n"
proof -
  from assms have u: "unat (from_source_position n s) = unat s * 256 + 2 * n"
    by (intro unat_from_source_position) (simp add: history_sizes)
  with assms show "PieceIndex_segment_index (from_source_position n s) = s"
    by (simp add: word_unat_eq_iff piece_position_nat history_sizes)
  from u assms show "source_position (from_source_position n s) = Some n"
    by (subst source_position_nat) (simp_all add: history_sizes)
qed

lemma next_source_index_eq:
  assumes "even (unat p)" "unat p + 2 < 2 ^ 64"
  shows "next_source_index p = Some (p + 2)"
proof -
  let ?n = "unat p mod 256 div 2" and ?s = "PieceIndex_segment_index p"
  have e: "unat p = unat p div 256 * 256 + 2 * ?n" by (rule even_position [OF assms(1)])
  have "unat (from_source_position (?n + 1) ?s) = unat p + 2"
    using assms e by (subst unat_from_source_position) (simp_all add: piece_position_nat)
  also have "\<dots> = unat (p + 2)" using assms(2) by (simp add: unat_word_ariths)
  finally show ?thesis
    by (simp add: next_source_index_def source_position_nat [OF assms(1)] word_unat_eq_iff)
qed

lemma prev_source_index_eq:
  assumes "even (unat p)"
  shows "prev_source_index p = Some (if p = 0 then None else Some (p - 2))"
proof -
  let ?n = "unat p mod 256 div 2" and ?s = "PieceIndex_segment_index p"
  have e: "unat p = unat p div 256 * 256 + 2 * ?n" by (rule even_position [OF assms])
  have lt: "unat p < 2 ^ 64" using unsigned_less [of p] by simp
  have two: "unat (p - 2) = unat p - 2" if "2 \<le> unat p"
    using that by (simp add: unat_sub word_le_nat_alt)
  have gen: "a + 2 * (n - 1) = u - 2" if "n \<noteq> 0" "u = a + 2 * n" for a n u :: nat
    using that by (cases n) simp_all
  show ?thesis
  proof (cases "?n = 0")
    case True
    show ?thesis
    proof (cases "unat p < 256")
      case small: True
      with True e have "p = 0" by (simp add: unat_eq_zero)
      then show ?thesis
        by (simp add: prev_source_index_def source_position_def PieceIndex_position_def is_source_def
            PieceIndex_segment_index_def SegmentIndex_checked_sub_def history_sizes word_le_nat_alt)
    next
      case big: False
      then have one: "1 \<le> ?s" by (simp add: word_le_nat_alt piece_position_nat)
      then have s: "unat (?s - 1) = unat p div 256 - 1" by (simp add: unat_sub piece_position_nat)
      have "unat (from_source_position 127 (?s - 1)) = (unat p div 256 - 1) * 256 + 254"
        using lt s by (subst unat_from_source_position) simp_all
      also have "\<dots> = unat (p - 2)" using True e big two by (simp add: diff_mult_distrib)
      finally show ?thesis
        using True one big
        by (auto simp: prev_source_index_def source_position_nat [OF assms] SegmentIndex_checked_sub_def history_sizes
            word_unat_eq_iff)
    qed
  next
    case False
    have "unat (from_source_position (?n - 1) ?s) = unat p div 256 * 256 + 2 * (?n - 1)"
      using lt e by (subst unat_from_source_position) (simp_all add: piece_position_nat)
    also have "\<dots> = unat p - 2" by (rule gen [OF False e])
    also have "\<dots> = unat (p - 2)" using False e two by linarith
    finally show ?thesis
      using False by (auto simp: prev_source_index_def source_position_nat [OF assms] word_unat_eq_iff)
  qed
qed

lemma step_by_2_length [simp]: "length (step_by_2 xs) = (length xs + 1) div 2"
  by (induction xs rule: step_by_2.induct) auto

lemma step_by_2_nth: "2 * i < length xs \<Longrightarrow> step_by_2 xs ! i = xs ! (2 * i)"
proof (induction xs arbitrary: i rule: step_by_2.induct)
  case (1 x y xs)
  then show ?case by (cases i) simp_all
qed auto

lemma unat_last_piece_index:
  assumes "unat s < 2 ^ 56"
  shows "unat (last_piece_index s) = unat s * 256 + 255"
proof -
  have "last_piece_index s = first_piece_index s + 255"
    by (simp add: last_piece_index_def first_piece_index_def history_sizes algebra_simps)
  then show ?thesis using assms unat_first_piece_index [OF assms] by (simp add: unat_word_ariths)
qed

lemma segment_piece_indexes_eq:
  assumes "unat s < 2 ^ 56"
  shows "segment_piece_indexes s = map (\<lambda>i. first_piece_index s + of_nat i) [0..<NUM_PIECES]"
proof -
  have "map of_nat [unat s * 256 ..< unat s * 256 + 256] = map (\<lambda>i. first_piece_index s + of_nat i) [0..<256]"
    by (rule nth_equalityI) (simp_all add: first_piece_index_def history_sizes)
  then show ?thesis
    using assms
    by (simp add: segment_piece_indexes_def unat_first_piece_index unat_last_piece_index history_sizes Let_def
        add.commute del: upt_Suc)
qed

lemma source_first_nth:
  assumes "unat s < 2 ^ 56" "n < NUM_RAW_RECORDS"
  shows "segment_piece_indexes_source_first s ! n = from_source_position n s"
  using assms
  by (simp add: segment_piece_indexes_source_first_def segment_piece_indexes_eq nth_append step_by_2_nth
      from_source_position_def history_sizes mult.commute Let_def)

end
