(* ===== verification/Segment_Codec.thy ===== *)
theory Segment_Codec
  imports History_Types "HOL-Library.Monad_Syntax"
begin

text \<open>
  Segments of the archived history and their encoding (\<open>Segment\<close> and \<open>SegmentItem\<close> of
  crates/subspace-archiving/src/archiver.rs). The compact encoding of lengths and the encoding of headers are those of
  the crate parity-scale-codec and are parameters; \<open>scale_laws\<close> says what the archiver relies on.
\<close>

section \<open>The codec\<close>

record scale_codec =
  compact_encode :: "nat \<Rightarrow> octets"
  compact_decode :: "octets \<Rightarrow> (nat \<times> octets) option"
  header_encode :: "segment_header \<Rightarrow> octets"
  header_decode :: "octets \<Rightarrow> (segment_header \<times> octets) option"

abbreviation compact_len :: "scale_codec \<Rightarrow> nat \<Rightarrow> nat" where
  "compact_len K n \<equiv> length (compact_encode K n)"

text \<open>A header whose fields have the widths of their types.\<close>

fun wf_progress :: "archived_block_progress \<Rightarrow> bool" where
  "wf_progress Complete = True"
| "wf_progress (Partial n) \<longleftrightarrow> n < 2 ^ 32"

definition wf_header :: "segment_header \<Rightarrow> bool" where
  "wf_header h \<longleftrightarrow>
     length (sh_segment_commitment h) = 48 \<and> length (sh_prev_segment_header_hash h) = 32 \<and>
     lab_number (sh_last_archived_block h) < 2 ^ 32 \<and> wf_progress (lab_archived_progress (sh_last_archived_block h))"

text \<open>
  The documented behaviour of the codec on a \<open>Compact<u32>\<close> and on a header: decoding inverts encoding and leaves the
  rest of the input, a compact number takes one to five bytes, a larger number never fewer than a smaller one, and a
  header takes at most ninety-eight bytes.
\<close>

definition scale_laws :: "scale_codec \<Rightarrow> bool" where
  "scale_laws K \<longleftrightarrow>
     (\<forall>n r. n < 2 ^ 32 \<longrightarrow> compact_decode K (compact_encode K n @ r) = Some (n, r)) \<and>
     (\<forall>n. n < 2 ^ 32 \<longrightarrow> 1 \<le> compact_len K n \<and> compact_len K n \<le> 5) \<and>
     (\<forall>m n. m \<le> n \<longrightarrow> n < 2 ^ 32 \<longrightarrow> compact_len K m \<le> compact_len K n) \<and>
     (\<forall>h r. wf_header h \<longrightarrow> header_decode K (header_encode K h @ r) = Some (h, r)) \<and>
     (\<forall>h. wf_header h \<longrightarrow> length (header_encode K h) \<le> 98)"

lemma scale_lawsD:
  assumes "scale_laws K"
  shows "n < 2 ^ 32 \<Longrightarrow> compact_decode K (compact_encode K n @ r) = Some (n, r)"
    and "n < 2 ^ 32 \<Longrightarrow> 1 \<le> compact_len K n" "n < 2 ^ 32 \<Longrightarrow> compact_len K n \<le> 5"
    and "m \<le> n \<Longrightarrow> n < 2 ^ 32 \<Longrightarrow> compact_len K m \<le> compact_len K n"
    and "wf_header h \<Longrightarrow> header_decode K (header_encode K h @ r) = Some (h, r)"
    and "wf_header h \<Longrightarrow> length (header_encode K h) \<le> 98"
  using assms unfolding scale_laws_def by blast+

section \<open>Segments\<close>

datatype segment_item =
    Padding
  | Block octets block_object_mapping
  | BlockStart octets block_object_mapping
  | BlockContinuation octets block_object_mapping
  | ParentSegmentHeader segment_header

text \<open>\<open>Segment::V0\<close> is the list of its items.\<close>

type_synonym segment = "segment_item list"

fun encode_item :: "scale_codec \<Rightarrow> segment_item \<Rightarrow> octets" where
  "encode_item K Padding = [0]"
| "encode_item K (Block bs m) = 1 # compact_encode K (length bs) @ bs"
| "encode_item K (BlockStart bs m) = 2 # compact_encode K (length bs) @ bs"
| "encode_item K (BlockContinuation bs m) = 3 # compact_encode K (length bs) @ bs"
| "encode_item K (ParentSegmentHeader h) = 4 # header_encode K h"

definition encode_segment :: "scale_codec \<Rightarrow> segment \<Rightarrow> octets" where
  "encode_segment K items = 0 # concat (map (encode_item K) items)"

definition encoded_size :: "scale_codec \<Rightarrow> segment_item \<Rightarrow> nat" where
  "encoded_size K item = length (encode_item K item)"

definition segment_size :: "scale_codec \<Rightarrow> segment \<Rightarrow> nat" where
  "segment_size K items = length (encode_segment K items)"

definition decode_bytes :: "scale_codec \<Rightarrow> octets \<Rightarrow> (octets \<times> octets) option" where
  "decode_bytes K input = do {
     (n, rest) \<leftarrow> compact_decode K input;
     if n \<le> length rest then Some (take n rest, drop n rest) else None }"

definition decode_item :: "scale_codec \<Rightarrow> octets \<Rightarrow> (segment_item \<times> octets) option" where
  "decode_item K input =
     (case input of
        [] \<Rightarrow> None
      | variant # rest \<Rightarrow>
          if variant = 0 then Some (Padding, rest)
          else if variant = 1 then do { (bs, r) \<leftarrow> decode_bytes K rest; Some (Block bs [], r) }
          else if variant = 2 then do { (bs, r) \<leftarrow> decode_bytes K rest; Some (BlockStart bs [], r) }
          else if variant = 3 then do { (bs, r) \<leftarrow> decode_bytes K rest; Some (BlockContinuation bs [], r) }
          else if variant = 4 then do { (h, r) \<leftarrow> header_decode K rest; Some (ParentSegmentHeader h, r) }
          else None)"

text \<open>Every item takes at least the byte of its variant, so that the length of the input bounds the rounds of the loop.\<close>

fun decode_items :: "scale_codec \<Rightarrow> nat \<Rightarrow> octets \<Rightarrow> segment option" where
  "decode_items K rounds [] = Some []"
| "decode_items K 0 (b # bs) = None"
| "decode_items K (Suc rounds) (b # bs) = do {
     (item, rest) \<leftarrow> decode_item K (b # bs);
     items \<leftarrow> decode_items K rounds rest;
     Some (item # items) }"

definition decode_segment :: "scale_codec \<Rightarrow> octets \<Rightarrow> segment option" where
  "decode_segment K input =
     (case input of
        [] \<Rightarrow> None
      | variant # rest \<Rightarrow> if variant = 0 then decode_items K (length rest) rest else None)"

section \<open>Round trip\<close>

text \<open>The mapping of objects is not part of the encoding.\<close>

fun strip :: "segment_item \<Rightarrow> segment_item" where
  "strip (Block bs m) = Block bs []"
| "strip (BlockStart bs m) = BlockStart bs []"
| "strip (BlockContinuation bs m) = BlockContinuation bs []"
| "strip item = item"

fun wf_item :: "segment_item \<Rightarrow> bool" where
  "wf_item Padding = True"
| "wf_item (Block bs m) \<longleftrightarrow> length bs < 2 ^ 32"
| "wf_item (BlockStart bs m) \<longleftrightarrow> length bs < 2 ^ 32"
| "wf_item (BlockContinuation bs m) \<longleftrightarrow> length bs < 2 ^ 32"
| "wf_item (ParentSegmentHeader h) \<longleftrightarrow> wf_header h"

lemma strip_idem [simp]: "strip (strip item) = strip item"
  by (cases item) simp_all

lemma encode_strip [simp]: "encode_item K (strip item) = encode_item K item"
  by (cases item) simp_all

lemma encoded_size_strip [simp]: "encoded_size K (strip item) = encoded_size K item"
  by (simp add: encoded_size_def)

lemma wf_item_strip [simp]: "wf_item (strip item) = wf_item item"
  by (cases item) simp_all

lemma segment_size_Nil [simp]: "segment_size K [] = 1"
  by (simp add: segment_size_def encode_segment_def)

lemma segment_size_append [simp]: "segment_size K (xs @ ys) = segment_size K xs + (segment_size K ys - 1)"
  by (simp add: segment_size_def encode_segment_def)

lemma segment_size_Cons [simp]: "segment_size K (x # xs) = encoded_size K x + segment_size K xs"
  by (simp add: segment_size_def encode_segment_def encoded_size_def)

lemma segment_size_pos: "0 < segment_size K items"
  by (simp add: segment_size_def encode_segment_def)

lemma encode_segment_strip: "map strip xs = map strip ys \<Longrightarrow> encode_segment K xs = encode_segment K ys"
proof -
  assume "map strip xs = map strip ys"
  then have "map (encode_item K) (map strip xs) = map (encode_item K) (map strip ys)" by simp
  then show ?thesis by (simp add: encode_segment_def comp_def)
qed

lemma decode_encode_item:
  assumes "scale_laws K" "wf_item item"
  shows "decode_item K (encode_item K item @ rest) = Some (strip item, rest)"
  using assms(2) by (cases item) (simp_all add: decode_item_def decode_bytes_def scale_lawsD [OF assms(1)])

lemma encode_item_nonempty: "\<exists>b bs. encode_item K item = b # bs"
  by (cases item) simp_all

lemma decode_padding: "z \<le> rounds \<Longrightarrow> decode_items K rounds (replicate z 0) = Some (replicate z Padding)"
proof (induction z arbitrary: rounds)
  case (Suc z)
  then obtain r where "rounds = Suc r" "z \<le> r" by (cases rounds) auto
  with Suc.IH [of r] show ?case by (simp add: decode_item_def)
qed simp

lemma decode_encode_items:
  assumes laws: "scale_laws K" and "\<forall>item \<in> set items. wf_item item"
    and "length (concat (map (encode_item K) items)) + z \<le> rounds"
  shows "decode_items K rounds (concat (map (encode_item K) items) @ replicate z 0) =
    Some (map strip items @ replicate z Padding)"
  using assms(2,3)
proof (induction items arbitrary: rounds)
  case Nil
  then show ?case by (simp add: decode_padding)
next
  case (Cons item items)
  obtain b bs where enc: "encode_item K item = b # bs" using encode_item_nonempty by blast
  with Cons.prems(2) obtain r where r: "rounds = Suc r" by (cases rounds) auto
  have item: "decode_item K (b # bs @ rest) = Some (strip item, rest)" for rest
    using decode_encode_item [OF laws, of item rest] Cons.prems(1) enc by simp
  have "decode_items K r (concat (map (encode_item K) items) @ replicate z 0) = Some (map strip items @ replicate z Padding)"
    using Cons.prems enc r by (intro Cons.IH) simp_all
  then show ?case by (simp add: enc r item)
qed

lemma decode_encode_segment:
  assumes "scale_laws K" "\<forall>item \<in> set items. wf_item item"
  shows "decode_segment K (encode_segment K items @ replicate z 0) = Some (map strip items @ replicate z Padding)"
  using decode_encode_items [OF assms] by (simp add: decode_segment_def encode_segment_def)

text \<open>Sizes of the items that contain a part of a block.\<close>

lemma encoded_size_simps [simp]:
  "encoded_size K (Block bs m) = 1 + compact_len K (length bs) + length bs"
  "encoded_size K (BlockStart bs m) = 1 + compact_len K (length bs) + length bs"
  "encoded_size K (BlockContinuation bs m) = 1 + compact_len K (length bs) + length bs"
  "encoded_size K (ParentSegmentHeader h) = 1 + length (header_encode K h)"
  by (simp_all add: encoded_size_def)

end
