(* ===== verification/Piece_Coding.thy ===== *)
theory Piece_Coding
  imports Segment_Codec
begin

text \<open>
  From the bytes of a segment to its pieces and back: the erasure coding of records
  (crates/subspace-erasure-coding/src/lib.rs), the conversions of scalars (shared/subspace-kzg/src/lib.rs), the
  commitments and witnesses of the pieces (\<open>produce_archived_segment\<close> of crates/subspace-archiving/src/archiver.rs), the
  recovery of the bytes (\<open>Reconstructor::reconstruct_segment\<close> of reconstructor.rs) and of the pieces
  (piece_reconstructor.rs). Field arithmetic, the Fourier transforms and the hash function are parameters. \<open>None\<close> stands
  for a panic where the source has an \<open>expect\<close>.
\<close>

section \<open>The cryptography underneath\<close>

record ('s, 'c, 'p) coding =
  \<comment> \<open>\<open>FsFr\<close>: 32 bytes and back\<close>
  scalar_from_bytes :: "octets \<Rightarrow> 's option"
  scalar_to_bytes :: "'s \<Rightarrow> octets"
  scalar_default :: 's
  \<comment> \<open>\<open>FsFFTSettings\<close> and \<open>FsPoly\<close>\<close>
  das_fft_extension :: "'s list \<Rightarrow> 's list option"
  recover_poly_from_samples :: "'s option list \<Rightarrow> 's list option"
  fft_g1 :: "'c list \<Rightarrow> bool \<Rightarrow> 'c list option"
  g1_identity :: 'c
  \<comment> \<open>\<open>Kzg\<close>\<close>
  kzg_poly :: "'s list \<Rightarrow> 'p option"
  kzg_commit :: "'p \<Rightarrow> 'c option"
  kzg_create_witness :: "'p \<Rightarrow> nat \<Rightarrow> u32 \<Rightarrow> octets option"
  commitment_to_bytes :: "'c \<Rightarrow> octets"
  commitment_from_bytes :: "octets \<Rightarrow> 'c option"
  blake3_hash :: "octets \<Rightarrow> octets"

text \<open>A scalar from 31 bytes, which always fit, and back.\<close>

definition scalar_from_safe :: "('s, 'c, 'p) coding \<Rightarrow> octets \<Rightarrow> 's option" where
  "scalar_from_safe P value = scalar_from_bytes P (0 # value)"

definition try_to_safe_bytes :: "('s, 'c, 'p) coding \<Rightarrow> 's \<Rightarrow> octets option" where
  "try_to_safe_bytes P s = (case scalar_to_bytes P s of b # bs \<Rightarrow> if b = 0 then Some bs else None | [] \<Rightarrow> None)"

definition blake3_254_hash_to_scalar :: "('s, 'c, 'p) coding \<Rightarrow> octets \<Rightarrow> octets" where
  "blake3_254_hash_to_scalar P data =
     (case blake3_hash P data of b # bs \<Rightarrow> and b 0b00111111 # bs | [] \<Rightarrow> [])"

section \<open>Erasure coding\<close>

definition erasure_extend :: "('s, 'c, 'p) coding \<Rightarrow> 's list \<Rightarrow> 's list option" where
  "erasure_extend P source = das_fft_extension P source"

definition erasure_recover :: "('s, 'c, 'p) coding \<Rightarrow> 's option list \<Rightarrow> 's list option" where
  "erasure_recover P shards = recover_poly_from_samples P shards"

definition erasure_recover_source :: "('s, 'c, 'p) coding \<Rightarrow> 's option list \<Rightarrow> 's list option" where
  "erasure_recover_source P shards = map_option step_by_2 (erasure_recover P shards)"

definition erasure_extend_commitments :: "('s, 'c, 'p) coding \<Rightarrow> 'c list \<Rightarrow> 'c list option" where
  "erasure_extend_commitments P commitments = do {
     coeffs \<leftarrow> fft_g1 P commitments True;
     fft_g1 P (coeffs @ replicate (length coeffs) (g1_identity P)) False }"

fun interleave :: "'a list \<Rightarrow> 'a list \<Rightarrow> 'a list" where
  "interleave (x # xs) (y # ys) = x # y # interleave xs ys"
| "interleave _ _ = []"

section \<open>Records and pieces\<close>

record piece =
  pc_record :: "octets list"
  pc_commitment :: octets
  pc_witness :: octets

text \<open>The \<open>j\<close>-th chunk of the \<open>r\<close>-th record of a segment.\<close>

definition record_chunk :: "octets \<Rightarrow> nat \<Rightarrow> nat \<Rightarrow> octets" where
  "record_chunk data r j = take SAFE_BYTES (drop (r * RawRecord_SIZE + j * SAFE_BYTES) data)"

text \<open>The chunks at one offset of all records, extended with parity; source and parity alternate.\<close>

definition coded_column :: "('s, 'c, 'p) coding \<Rightarrow> octets \<Rightarrow> nat \<Rightarrow> 's list option" where
  "coded_column P data j = do {
     source \<leftarrow> those (map (\<lambda>r. scalar_from_safe P (record_chunk data r j)) [0..<NUM_RAW_RECORDS]);
     parity \<leftarrow> erasure_extend P source;
     Some (interleave source parity) }"

definition column_chunk :: "('s, 'c, 'p) coding \<Rightarrow> nat \<Rightarrow> 's list \<Rightarrow> octets" where
  "column_chunk P i column = (if i < length column then scalar_to_bytes P (column ! i) else replicate 32 0)"

definition coded_records :: "('s, 'c, 'p) coding \<Rightarrow> octets \<Rightarrow> octets list list option" where
  "coded_records P data = do {
     columns \<leftarrow> those (map (coded_column P data) [0..<RawRecord_NUM_CHUNKS]);
     Some (map (\<lambda>i. map (column_chunk P i) columns) [0..<NUM_PIECES]) }"

function next_power_of_two_from :: "nat \<Rightarrow> nat \<Rightarrow> nat" where
  "next_power_of_two_from k n = (if n \<le> 2 ^ k then 2 ^ k else next_power_of_two_from (Suc k) n)"
  by auto
termination by (relation "measure (\<lambda>(k, n). n - 2 ^ k)") (auto intro!: diff_less_mono2)

definition next_power_of_two :: "nat \<Rightarrow> nat" where
  "next_power_of_two n = next_power_of_two_from 0 n"

text \<open>The commitment to a record: its scalars, filled up to a power of two.\<close>

definition commit_scalars :: "('s, 'c, 'p) coding \<Rightarrow> 's list \<Rightarrow> 'c option" where
  "commit_scalars P scalars = do {
     polynomial \<leftarrow> kzg_poly P (scalars @ replicate (next_power_of_two (length scalars) - length scalars) (scalar_default P));
     kzg_commit P polynomial }"

definition commit_record :: "('s, 'c, 'p) coding \<Rightarrow> octets list \<Rightarrow> 'c option" where
  "commit_record P rec = those (map (scalar_from_bytes P) rec) \<bind> commit_scalars P"

definition segment_polynomial :: "('s, 'c, 'p) coding \<Rightarrow> 'c list \<Rightarrow> 'p option" where
  "segment_polynomial P record_commitments = do {
     scalars \<leftarrow> those (map (\<lambda>c. scalar_from_bytes P (blake3_254_hash_to_scalar P (commitment_to_bytes P c))) record_commitments);
     kzg_poly P scalars }"

definition witnessed_piece ::
    "('s, 'c, 'p) coding \<Rightarrow> 'p \<Rightarrow> nat \<Rightarrow> octets list \<Rightarrow> 'c \<Rightarrow> piece option" where
  "witnessed_piece P polynomial position rec commitment = do {
     witness \<leftarrow> kzg_create_witness P polynomial NUM_PIECES position;
     Some \<lparr>pc_record = rec, pc_commitment = commitment_to_bytes P commitment, pc_witness = witness\<rparr> }"

definition witnessed_pieces ::
    "('s, 'c, 'p) coding \<Rightarrow> 'p \<Rightarrow> octets list list \<Rightarrow> 'c list \<Rightarrow> piece list option" where
  "witnessed_pieces P polynomial records commitments =
     those (map (\<lambda>(position, (rec, commitment)). witnessed_piece P polynomial position rec commitment)
       (enumerate 0 (zip records commitments)))"

section \<open>Recovery of a segment\<close>

datatype reconstructor_error =
    DataShardsReconstruction
  | SegmentDecoding
  | IncorrectSegmentOrder segment_index segment_index
  | ReconstructorPanic

definition raw_record_chunks :: "octets list \<Rightarrow> octets list" where
  "raw_record_chunks rec = map (drop 1) rec"

text \<open>The bytes of the source pieces where all of them are there.\<close>

definition available_data :: "piece option list \<Rightarrow> octets option" where
  "available_data segment_pieces =
     (let source = take NUM_RAW_RECORDS (step_by_2 segment_pieces) in
      map_option (\<lambda>pieces.
        let data = concat (map (\<lambda>p. concat (raw_record_chunks (pc_record p))) pieces) in
        data @ replicate (RecordedHistorySegment_SIZE - length data) 0) (those source))"

text \<open>The scalars of the pieces at one offset, and the column of chunks recovered from them.\<close>

definition shard_of :: "('s, 'c, 'p) coding \<Rightarrow> nat \<Rightarrow> piece option \<Rightarrow> reconstructor_error + 's option" where
  "shard_of P j maybe_piece =
     (case maybe_piece of
        None \<Rightarrow> Inr None
      | Some p \<Rightarrow> (case scalar_from_bytes P (pc_record p ! j) of None \<Rightarrow> Inl DataShardsReconstruction | Some s \<Rightarrow> Inr (Some s)))"

fun try_map :: "('a \<Rightarrow> 'e + 'b) \<Rightarrow> 'a list \<Rightarrow> 'e + 'b list" where
  "try_map f [] = Inr []"
| "try_map f (x # xs) = and_then (f x) (\<lambda>y. and_then (try_map f xs) (\<lambda>ys. Inr (y # ys)))"

definition recovered_shards ::
    "('s, 'c, 'p) coding \<Rightarrow> piece option list \<Rightarrow> nat \<Rightarrow> reconstructor_error + 's list" where
  "recovered_shards P segment_pieces j =
     and_then (try_map (shard_of P j) segment_pieces) (\<lambda>shards.
     ok_or DataShardsReconstruction (erasure_recover P shards))"

definition recovered_column ::
    "('s, 'c, 'p) coding \<Rightarrow> piece option list \<Rightarrow> nat \<Rightarrow> reconstructor_error + octets list" where
  "recovered_column P segment_pieces j =
     and_then (recovered_shards P segment_pieces j) (\<lambda>shards.
     ok_or ReconstructorPanic (those (map (try_to_safe_bytes P) (take NUM_RAW_RECORDS (step_by_2 shards)))))"

definition recovered_data ::
    "('s, 'c, 'p) coding \<Rightarrow> piece option list \<Rightarrow> reconstructor_error + octets" where
  "recovered_data P segment_pieces =
     and_then (try_map (recovered_column P segment_pieces) [0..<RawRecord_NUM_CHUNKS]) (\<lambda>columns.
     Inr (concat (map (\<lambda>r.
       concat (map (\<lambda>column. if r < length column then column ! r else replicate SAFE_BYTES 0) columns))
         [0..<NUM_RAW_RECORDS])))"

definition reconstruct_segment ::
    "scale_codec \<Rightarrow> ('s, 'c, 'p) coding \<Rightarrow> piece option list \<Rightarrow> reconstructor_error + segment" where
  "reconstruct_segment K P segment_pieces =
     and_then (case available_data segment_pieces of
                 Some data \<Rightarrow> Inr data
               | None \<Rightarrow> recovered_data P segment_pieces) (\<lambda>segment_data.
     ok_or SegmentDecoding (decode_segment K segment_data))"

section \<open>Recovery of the pieces\<close>

datatype pieces_reconstructor_error =
    PieceShardsReconstruction
  | InvalidInputPieceCommitment
  | IncorrectPiecePosition
  | PiecesReconstructorPanic

definition as_pieces_error :: "reconstructor_error \<Rightarrow> pieces_reconstructor_error" where
  "as_pieces_error e = (if e = ReconstructorPanic then PiecesReconstructorPanic else PieceShardsReconstruction)"

definition source_commitment ::
    "('s, 'c, 'p) coding \<Rightarrow> octets list \<Rightarrow> piece option \<Rightarrow> pieces_reconstructor_error + 'c" where
  "source_commitment P rec maybe_input_piece =
     (case maybe_input_piece of
        Some input_piece \<Rightarrow> ok_or InvalidInputPieceCommitment (commitment_from_bytes P (pc_commitment input_piece))
      | None \<Rightarrow>
          and_then (ok_or PieceShardsReconstruction (those (map (scalar_from_bytes P) rec))) (\<lambda>scalars.
          ok_or PiecesReconstructorPanic (commit_scalars P scalars)))"

definition reconstruct_shards ::
    "('s, 'c, 'p) coding \<Rightarrow> piece option list \<Rightarrow>
       pieces_reconstructor_error + (octets list list \<times> 'c list \<times> 'p)" where
  "reconstruct_shards P input_pieces =
     and_then (map_err as_pieces_error (try_map (recovered_shards P input_pieces) [0..<RawRecord_NUM_CHUNKS])) (\<lambda>columns.
     let records = map (\<lambda>i. map (column_chunk P i) columns) [0..<NUM_PIECES] in
     and_then (try_map (\<lambda>(rec, maybe_piece). source_commitment P rec maybe_piece) (step_by_2 (zip records input_pieces)))
       (\<lambda>source_record_commitments.
     and_then (ok_or PiecesReconstructorPanic (erasure_extend_commitments P source_record_commitments)) (\<lambda>record_commitments.
     and_then (ok_or PiecesReconstructorPanic (segment_polynomial P (map snd (zip records record_commitments)))) (\<lambda>polynomial.
     Inr (records, record_commitments, polynomial)))))"

definition reconstruct_pieces ::
    "('s, 'c, 'p) coding \<Rightarrow> piece option list \<Rightarrow> pieces_reconstructor_error + piece list" where
  "reconstruct_pieces P segment_pieces =
     and_then (reconstruct_shards P segment_pieces) (\<lambda>(records, record_commitments, polynomial).
     ok_or PiecesReconstructorPanic (witnessed_pieces P polynomial records record_commitments))"

definition reconstruct_piece ::
    "('s, 'c, 'p) coding \<Rightarrow> piece option list \<Rightarrow> nat \<Rightarrow> pieces_reconstructor_error + piece" where
  "reconstruct_piece P segment_pieces piece_position =
     and_then (ensure (\<not> piece_position \<ge> NUM_PIECES) IncorrectPiecePosition) (\<lambda>_.
     and_then (reconstruct_shards P segment_pieces) (\<lambda>(records, record_commitments, polynomial).
     ok_or PiecesReconstructorPanic
       (witnessed_piece P polynomial piece_position (records ! piece_position) (record_commitments ! piece_position))))"

end
