(* ===== verification/Archiver.thy ===== *)
theory Archiver
  imports Piece_Coding
begin

text \<open>
  The archiver (crates/subspace-archiving/src/archiver.rs and archiver/incremental_record_commitments.rs): blocks are
  appended to a buffer, the buffer is cut into segments, segments become pieces and a header that opens the next segment.
  \<open>None\<close> is a panic of the code, or a loop that does not end.
\<close>

section \<open>State\<close>

definition INITIAL_LAST_ARCHIVED_BLOCK :: last_archived_block where
  "INITIAL_LAST_ARCHIVED_BLOCK = \<lparr>lab_number = 0, lab_archived_progress = Partial 0\<rparr>"

record 'c archiver =
  ar_buffer :: "segment_item list"
  ar_incremental_record_commitments :: "'c list"
  ar_segment_index :: segment_index
  ar_prev_segment_header_hash :: octets
  ar_last_archived_block :: last_archived_block

record new_archived_segment =
  na_segment_header :: segment_header
  na_pieces :: "piece list"

record archive_block_outcome =
  ao_archived_segments :: "new_archived_segment list"
  ao_object_mapping :: "global_object list"

datatype archiver_instantiation_error =
    InvalidLastArchivedBlock u32
  | InvalidBlockSmallSize u32 u32
  | ArchiverInstantiationPanic

definition SegmentHeader_hash :: "scale_codec \<Rightarrow> ('s, 'c, 'p) coding \<Rightarrow> segment_header \<Rightarrow> octets" where
  "SegmentHeader_hash K P h = blake3_hash P (header_encode K h)"

definition archiver_new :: "'c archiver" where
  "archiver_new =
     \<lparr>ar_buffer = [], ar_incremental_record_commitments = [], ar_segment_index = 0,
      ar_prev_segment_header_hash = replicate 32 0, ar_last_archived_block = INITIAL_LAST_ARCHIVED_BLOCK\<rparr>"

text \<open>The objects at or after a point of a block, counted from there, and those before it.\<close>

definition objects_after :: "nat \<Rightarrow> block_object_mapping \<Rightarrow> block_object_mapping" where
  "objects_after n objects = map (\<lambda>b. b\<lparr>bo_offset := bo_offset b - n\<rparr>) (filter (\<lambda>b. bo_offset b \<ge> n) objects)"

definition objects_before :: "nat \<Rightarrow> block_object_mapping \<Rightarrow> block_object_mapping" where
  "objects_before n objects = filter (\<lambda>b. \<not> bo_offset b \<ge> n) objects"

definition with_initial_state ::
    "scale_codec \<Rightarrow> ('s, 'c, 'p) coding \<Rightarrow> segment_header \<Rightarrow> octets \<Rightarrow> block_object_mapping \<Rightarrow>
       archiver_instantiation_error + 'c archiver" where
  "with_initial_state K P segment_header encoded_block object_mapping =
     (let st = archiver_new\<lparr>ar_segment_index := sh_segment_index segment_header + 1,
                ar_prev_segment_header_hash := SegmentHeader_hash K P segment_header,
                ar_last_archived_block := sh_last_archived_block segment_header,
                ar_buffer := [ParentSegmentHeader segment_header]\<rparr> in
      case partial_archived (ar_last_archived_block st) of
        None \<Rightarrow> Inr st
      | Some archived_block_bytes \<Rightarrow>
          and_then (ensure (length encoded_block < 2 ^ 32) ArchiverInstantiationPanic) (\<lambda>_.
          if length encoded_block < archived_block_bytes then
            Inl (InvalidBlockSmallSize (length encoded_block) archived_block_bytes)
          else if length encoded_block = archived_block_bytes then
            Inl (InvalidLastArchivedBlock (length encoded_block))
          else
            Inr (st\<lparr>ar_buffer := ar_buffer st @
              [BlockContinuation (drop archived_block_bytes encoded_block)
                 (objects_after archived_block_bytes object_mapping)]\<rparr>)))"

definition last_archived_block_number :: "'c archiver \<Rightarrow> block_number option" where
  "last_archived_block_number st =
     (if ar_last_archived_block st \<noteq> INITIAL_LAST_ARCHIVED_BLOCK then Some (lab_number (ar_last_archived_block st)) else None)"

section \<open>Incremental record commitments\<close>

definition chunks_exact :: "nat \<Rightarrow> 'a list \<Rightarrow> 'a list list" where
  "chunks_exact n xs = map (\<lambda>i. take n (drop (i * n) xs)) [0..<length xs div n]"

definition commit_raw_record :: "('s, 'c, 'p) coding \<Rightarrow> octets \<Rightarrow> 'c option" where
  "commit_raw_record P raw_record_bytes =
     those (map (scalar_from_safe P) (chunks_exact SAFE_BYTES raw_record_bytes)) \<bind> commit_scalars P"

text \<open>The processor skips the bytes that are committed to already and commits to every complete record of the others.\<close>

definition update_record_commitments ::
    "scale_codec \<Rightarrow> ('s, 'c, 'p) coding \<Rightarrow> segment \<Rightarrow> 'c list \<Rightarrow> 'c list option" where
  "update_record_commitments K P segment commitments = do {
     new \<leftarrow> those (map (commit_raw_record P)
              (chunks_exact RawRecord_SIZE (drop (length commitments * RawRecord_SIZE) (encode_segment K segment))));
     Some (commitments @ new) }"

section \<open>Cutting the buffer into segments\<close>

text \<open>The number of bytes of a block in an item of the buffer.\<close>

fun inner_bytes_size :: "segment_item \<Rightarrow> nat option" where
  "inner_bytes_size (Block bs m) = Some (length bs)"
| "inner_bytes_size (BlockContinuation bs m) = Some (length bs)"
| "inner_bytes_size _ = None"

text \<open>The last archived block after an item of the buffer, taken as a whole.\<close>

fun advance :: "last_archived_block \<Rightarrow> segment_item \<Rightarrow> last_archived_block option" where
  "advance lab Padding = None"
| "advance lab (Block bs m) =
     (if lab \<noteq> INITIAL_LAST_ARCHIVED_BLOCK then
        map_option (\<lambda>n. set_complete (lab\<lparr>lab_number := n\<rparr>)) (checked_add 32 (lab_number lab) 1)
      else Some (set_complete lab))"
| "advance lab (BlockStart bs m) = None"
| "advance lab (BlockContinuation bs m) = do {
     archived_bytes \<leftarrow> partial_archived lab;
     n \<leftarrow> checked_add 32 archived_bytes (length bs);
     Some (set_partial_archived n lab) }"
| "advance lab (ParentSegmentHeader h) = Some lab"

text \<open>
  The loop that moves items from the buffer to the segment, with the size of the segment so far. The result is \<open>None\<close>
  where the buffer runs out.
\<close>

fun collect_items ::
    "scale_codec \<Rightarrow> nat \<Rightarrow> segment \<Rightarrow> last_archived_block \<Rightarrow> segment_item list \<Rightarrow>
       (nat \<times> segment \<times> last_archived_block \<times> segment_item list) option option" where
  "collect_items K sz items lab [] =
     Some (if sz < RecordedHistorySegment_SIZE - 2 then None else Some (sz, items, lab, []))"
| "collect_items K sz items lab (item # buffer) =
     (if sz < RecordedHistorySegment_SIZE - 2 then
        let sz' = sz + encoded_size K item;
            take_item = do {
              lab' \<leftarrow> advance lab item;
              collect_items K sz' (items @ [item]) lab' buffer } in
        if sz' \<ge> RecordedHistorySegment_SIZE then do {
          inner \<leftarrow> inner_bytes_size item;
          if sz' - RecordedHistorySegment_SIZE > inner then Some (Some (sz, items, lab, item # buffer))
          else take_item }
        else take_item
      else Some (Some (sz, items, lab, item # buffer)))"

text \<open>What does not fit is cut off the last item and continues in the next segment.\<close>

fun spill_item ::
    "nat \<Rightarrow> last_archived_block \<Rightarrow> segment_item \<Rightarrow> (segment_item \<times> segment_item \<times> last_archived_block) option" where
  "spill_item spill_over lab (Block bs m) =
     (let split_point = length bs - spill_over in
      if spill_over \<le> length bs \<and> split_point < 2 ^ 32 then
        Some (BlockStart (take split_point bs) (objects_before split_point m),
              BlockContinuation (drop split_point bs) (objects_after split_point m),
              set_partial_archived split_point lab)
      else None)"
| "spill_item spill_over lab (BlockContinuation bs m) = do {
     archived_bytes \<leftarrow> partial_archived lab;
     n \<leftarrow> checked_sub archived_bytes spill_over;
     let split_point = length bs - spill_over;
     if spill_over \<le> length bs \<and> spill_over < 2 ^ 32 then
       Some (BlockContinuation (take split_point bs) (objects_before split_point m),
             BlockContinuation (drop split_point bs) (objects_after split_point m),
             set_partial_archived n lab)
     else None }"
| "spill_item spill_over lab _ = None"

definition produce_segment ::
    "scale_codec \<Rightarrow> ('s, 'c, 'p) coding \<Rightarrow> bool \<Rightarrow> 'c archiver \<Rightarrow> (segment option \<times> 'c archiver) option" where
  "produce_segment K P incremental st = do {
     collected \<leftarrow> collect_items K (segment_size K []) [] (ar_last_archived_block st) (ar_buffer st);
     case collected of
       None \<Rightarrow>
         let sz = segment_size K (ar_buffer st);
             bytes_committed_to = length (ar_incremental_record_commitments st) * RawRecord_SIZE in
         if incremental then do {
           rest \<leftarrow> checked_sub sz bytes_committed_to;
           if rest \<ge> RawRecord_SIZE * 2 then do {
             commitments \<leftarrow> update_record_commitments K P (ar_buffer st) (ar_incremental_record_commitments st);
             Some (None, st\<lparr>ar_incremental_record_commitments := commitments\<rparr>) }
           else Some (None, st) }
         else Some (None, st)
     | Some (sz, items, lab, buffer) \<Rightarrow>
         let spill_over = sz - RecordedHistorySegment_SIZE in
         if spill_over > 0 then do {
           if items = [] then None else do {
             (item, continuation, lab) \<leftarrow> spill_item spill_over lab (last items);
             Some (Some (butlast items @ [item]),
                   st\<lparr>ar_buffer := continuation # buffer, ar_last_archived_block := lab\<rparr>) } }
         else Some (Some items, st\<lparr>ar_buffer := buffer, ar_last_archived_block := set_complete lab\<rparr>) }"

section \<open>Object mappings\<close>

definition global_object_of ::
    "scale_codec \<Rightarrow> piece_index list \<Rightarrow> nat \<Rightarrow> octets \<Rightarrow> block_object \<Rightarrow> global_object option" where
  "global_object_of K source_piece_indexes base bs b =
     (let offset_in_segment = base + 1 + compact_len K (length bs) + bo_offset b;
          position = offset_in_segment div RawRecord_SIZE in
      if position < length source_piece_indexes then
        Some \<lparr>go_hash = bo_hash b, go_piece_index = source_piece_indexes ! position,
              go_offset = offset_in_segment mod RawRecord_SIZE\<rparr>
      else None)"

text \<open>The block objects of an item, and the item without them.\<close>

fun drain_objects :: "segment_item \<Rightarrow> (octets \<times> block_object_mapping \<times> segment_item) option" where
  "drain_objects Padding = None"
| "drain_objects (Block bs m) = Some (bs, m, Block bs [])"
| "drain_objects (BlockStart bs m) = Some (bs, m, BlockStart bs [])"
| "drain_objects (BlockContinuation bs m) = Some (bs, m, BlockContinuation bs [])"
| "drain_objects (ParentSegmentHeader h) = Some ([], [], ParentSegmentHeader h)"

fun object_mappings_from ::
    "scale_codec \<Rightarrow> piece_index list \<Rightarrow> nat \<Rightarrow> segment_item list \<Rightarrow> (global_object list \<times> segment_item list) option" where
  "object_mappings_from K source_piece_indexes base [] = Some ([], [])"
| "object_mappings_from K source_piece_indexes base (item # items) = do {
     (bs, objects, item') \<leftarrow> drain_objects item;
     mapping \<leftarrow> those (map (global_object_of K source_piece_indexes base bs) objects);
     (mappings, items') \<leftarrow> object_mappings_from K source_piece_indexes (base + encoded_size K item) items;
     Some (mapping @ mappings, item' # items') }"

definition produce_object_mappings ::
    "scale_codec \<Rightarrow> segment_index \<Rightarrow> segment_item list \<Rightarrow> (global_object list \<times> segment_item list) option" where
  "produce_object_mappings K segment_index items =
     object_mappings_from K (take NUM_RAW_RECORDS (segment_piece_indexes_source_first segment_index))
       (segment_size K []) items"

definition produce_next_segment_mappings ::
    "scale_codec \<Rightarrow> 'c archiver \<Rightarrow> (global_object list \<times> 'c archiver) option" where
  "produce_next_segment_mappings K st = do {
     (mappings, buffer) \<leftarrow> produce_object_mappings K (ar_segment_index st) (ar_buffer st);
     Some (mappings, st\<lparr>ar_buffer := buffer\<rparr>) }"

section \<open>Archived segments\<close>

text \<open>The bytes of a segment, padded to its size.\<close>

definition segment_data :: "scale_codec \<Rightarrow> segment \<Rightarrow> octets" where
  "segment_data K segment =
     encode_segment K segment @ replicate (RecordedHistorySegment_SIZE - segment_size K segment) 0"

definition produce_archived_segment ::
    "scale_codec \<Rightarrow> ('s, 'c, 'p) coding \<Rightarrow> segment \<Rightarrow> 'c archiver \<Rightarrow> (new_archived_segment \<times> 'c archiver) option" where
  "produce_archived_segment K P segment st = do {
     records \<leftarrow> coded_records P (segment_data K segment);
     let existing_commitments = ar_incremental_record_commitments st;
     new_commitments \<leftarrow> those (map (commit_record P) (drop (length existing_commitments) (step_by_2 records)));
     record_commitments \<leftarrow> erasure_extend_commitments P (existing_commitments @ new_commitments);
     polynomial \<leftarrow> segment_polynomial P record_commitments;
     segment_commitment \<leftarrow> kzg_commit P polynomial;
     pieces \<leftarrow> witnessed_pieces P polynomial records record_commitments;
     let segment_header =
       \<lparr>sh_segment_index = ar_segment_index st, sh_segment_commitment = commitment_to_bytes P segment_commitment,
        sh_prev_segment_header_hash = ar_prev_segment_header_hash st,
        sh_last_archived_block = ar_last_archived_block st\<rparr>;
     Some (\<lparr>na_segment_header = segment_header, na_pieces = pieces\<rparr>,
           st\<lparr>ar_incremental_record_commitments := [], ar_segment_index := ar_segment_index st + 1,
              ar_prev_segment_header_hash := SegmentHeader_hash K P segment_header,
              ar_buffer := ParentSegmentHeader segment_header # ar_buffer st\<rparr>) }"

section \<open>Adding a block\<close>

partial_function (option) produce_segments ::
    "scale_codec \<Rightarrow> ('s, 'c, 'p) coding \<Rightarrow> bool \<Rightarrow> 'c archiver \<Rightarrow>
       (new_archived_segment list \<times> global_object list \<times> 'c archiver) option" where
  "produce_segments K P incremental st = do {
     (segment, st) \<leftarrow> produce_segment K P incremental st;
     case segment of
       None \<Rightarrow> Some ([], [], st)
     | Some items \<Rightarrow> do {
         (mapping, items) \<leftarrow> produce_object_mappings K (ar_segment_index st) items;
         (archived, st) \<leftarrow> produce_archived_segment K P items st;
         (segments, mappings, st) \<leftarrow> produce_segments K P incremental st;
         Some (archived # segments, mapping @ mappings, st) } }"

definition add_block ::
    "scale_codec \<Rightarrow> ('s, 'c, 'p) coding \<Rightarrow> octets \<Rightarrow> block_object_mapping \<Rightarrow> bool \<Rightarrow> 'c archiver \<Rightarrow>
       (archive_block_outcome \<times> 'c archiver) option" where
  "add_block K P bs object_mapping incremental st = do {
     (archived_segments, mapping, st) \<leftarrow>
       produce_segments K P incremental (st\<lparr>ar_buffer := ar_buffer st @ [Block bs object_mapping]\<rparr>);
     (next_mapping, st) \<leftarrow> produce_next_segment_mappings K st;
     Some (\<lparr>ao_archived_segments = archived_segments, ao_object_mapping = mapping @ next_mapping\<rparr>, st) }"

end
