(* ===== verification/Piece_Recovery.thy ===== *)
theory Piece_Recovery
  imports Piece_Coding
begin

text \<open>
  Any half of the pieces of a segment is enough: the bytes of the segment and all of its pieces are recovered from it. The
  commitments to the records are the same whether they are made when the segment is complete or as it grows.
\<close>

declare next_power_of_two_from.simps [simp del]

section \<open>What the coding relies on\<close>

text \<open>At least half of the values of a list, each in its place.\<close>

definition samples_of :: "'a list \<Rightarrow> 'a option list \<Rightarrow> bool" where
  "samples_of xs shards \<longleftrightarrow>
     length shards = length xs \<and> (\<forall>i < length xs. shards ! i = None \<or> shards ! i = Some (xs ! i)) \<and>
     length xs div 2 \<le> length (filter (\<lambda>s. s \<noteq> None) shards)"

text \<open>
  Documented behaviour of the parameters: 31 bytes and 254 bits fit into a scalar, conversions to bytes and back are
  inverse, the parity of 128 source scalars is 128 scalars and any half of the 256 recovers them all, commitments are
  extended to twice as many with the source at the even places, and KZG is set up for the sizes that are used.
\<close>

definition coding_laws :: "('s, 'c, 'p) coding \<Rightarrow> bool" where
  "coding_laws P \<longleftrightarrow>
     (\<forall>b. length b = SAFE_BYTES \<longrightarrow> scalar_from_safe P b \<noteq> None) \<and>
     (\<forall>b bs. length bs = SAFE_BYTES \<longrightarrow> scalar_from_bytes P (and b 0b00111111 # bs) \<noteq> None) \<and>
     (\<forall>b s. scalar_from_bytes P b = Some s \<longrightarrow> scalar_to_bytes P s = b) \<and>
     (\<forall>s. scalar_from_bytes P (scalar_to_bytes P s) = Some s) \<and>
     (\<forall>d. length (blake3_hash P d) = 32) \<and>
     (\<forall>xs. length xs = NUM_RAW_RECORDS \<longrightarrow> (\<forall>x \<in> set xs. \<exists>b. length b = SAFE_BYTES \<and> scalar_from_safe P b = Some x) \<longrightarrow>
        (\<exists>ys. das_fft_extension P xs = Some ys \<and> length ys = NUM_RAW_RECORDS \<and>
           (\<forall>shards. samples_of (interleave xs ys) shards \<longrightarrow> recover_poly_from_samples P shards = Some (interleave xs ys)))) \<and>
     (\<forall>cs. length cs = NUM_RAW_RECORDS \<longrightarrow>
        (\<exists>cs'. erasure_extend_commitments P cs = Some cs' \<and> length cs' = NUM_PIECES \<and> step_by_2 cs' = cs)) \<and>
     (\<forall>xs. length xs = RawRecord_NUM_CHUNKS \<or> length xs = NUM_PIECES \<longrightarrow> kzg_poly P xs \<noteq> None) \<and>
     (\<forall>p. kzg_commit P p \<noteq> None) \<and>
     (\<forall>p i. i < NUM_PIECES \<longrightarrow> kzg_create_witness P p NUM_PIECES i \<noteq> None) \<and>
     (\<forall>c. commitment_from_bytes P (commitment_to_bytes P c) = Some c \<and> length (commitment_to_bytes P c) = 48)"

lemma coding_lawsD:
  assumes "coding_laws P"
  shows "length b = SAFE_BYTES \<Longrightarrow> scalar_from_safe P b \<noteq> None"
    and "length bs = SAFE_BYTES \<Longrightarrow> scalar_from_bytes P (and x 0b00111111 # bs) \<noteq> None"
    and "scalar_from_bytes P b = Some s \<Longrightarrow> scalar_to_bytes P s = b"
    and "scalar_from_bytes P (scalar_to_bytes P s) = Some s"
    and "length (blake3_hash P d) = 32"
    and "length xs = NUM_RAW_RECORDS \<Longrightarrow> (\<And>x. x \<in> set xs \<Longrightarrow> \<exists>b. length b = SAFE_BYTES \<and> scalar_from_safe P b = Some x) \<Longrightarrow>
      \<exists>ys. das_fft_extension P xs = Some ys \<and> length ys = NUM_RAW_RECORDS \<and>
        (\<forall>shards. samples_of (interleave xs ys) shards \<longrightarrow> recover_poly_from_samples P shards = Some (interleave xs ys))"
    and "length cs = NUM_RAW_RECORDS \<Longrightarrow>
      \<exists>cs'. erasure_extend_commitments P cs = Some cs' \<and> length cs' = NUM_PIECES \<and> step_by_2 cs' = cs"
    and "length xs = RawRecord_NUM_CHUNKS \<or> length xs = NUM_PIECES \<Longrightarrow> kzg_poly P xs \<noteq> None"
    and "kzg_commit P p \<noteq> None"
    and "i < NUM_PIECES \<Longrightarrow> kzg_create_witness P p NUM_PIECES i \<noteq> None"
    and "commitment_from_bytes P (commitment_to_bytes P c) = Some c" "length (commitment_to_bytes P c) = 48"
  using assms unfolding coding_laws_def by meson+

section \<open>Lists\<close>

lemma those_map_Some: "(\<And>x. x \<in> set xs \<Longrightarrow> f x = Some (g x)) \<Longrightarrow> those (map f xs) = Some (map g xs)"
  by (induction xs) auto

lemma those_map_defined: "(\<And>x. x \<in> set xs \<Longrightarrow> f x \<noteq> None) \<Longrightarrow> those (map f xs) = Some (map (\<lambda>x. the (f x)) xs)"
  by (rule those_map_Some) auto

lemma those_None: "None \<in> set xs \<Longrightarrow> those xs = None"
  by (induction xs) (auto split: option.split)

lemma those_length: "those xs = Some ys \<Longrightarrow> length ys = length xs"
  by (induction xs arbitrary: ys) (auto split: option.splits)

lemma try_map_Inr: "(\<And>x. x \<in> set xs \<Longrightarrow> f x = Inr (g x)) \<Longrightarrow> try_map f xs = Inr (map g xs)"
  by (induction xs) auto

lemma try_map_map: "try_map f (map g xs) = try_map (\<lambda>x. f (g x)) xs"
  by (induction xs) simp_all

lemma concat_chunks: "concat (map (\<lambda>i. take n (drop (i * n) xs)) [0..<k]) = take (k * n) xs"
  by (induction k) (simp_all add: take_add [symmetric] add.commute)

lemma length_interleave [simp]: "length (interleave xs ys) = 2 * min (length xs) (length ys)"
  by (induction xs ys rule: interleave.induct) auto

lemma step_by_2_interleave: "length xs = length ys \<Longrightarrow> step_by_2 (interleave xs ys) = xs"
  by (induction xs ys rule: interleave.induct) auto

lemma interleave_nth_even: "i < length xs \<Longrightarrow> length ys = length xs \<Longrightarrow> interleave xs ys ! (2 * i) = xs ! i"
proof (induction xs ys arbitrary: i rule: interleave.induct)
  case (1 x xs y ys)
  then show ?case by (cases i) auto
qed auto

lemma step_by_2_map: "step_by_2 (map f xs) = map f (step_by_2 xs)"
  by (induction xs rule: step_by_2.induct) auto

lemma step_by_2_zip: "length xs = length ys \<Longrightarrow> step_by_2 (zip xs ys) = zip (step_by_2 xs) (step_by_2 ys)"
proof (induction xs arbitrary: ys rule: step_by_2.induct)
  case (1 x y xs)
  then obtain a b ys' where "ys = a # b # ys'" by (metis Suc_length_conv length_Cons)
  with 1 show ?case by simp
qed (auto simp: Suc_length_conv)

section \<open>Columns\<close>

lemma record_chunk_length:
  assumes "length data = RecordedHistorySegment_SIZE" "r < NUM_RAW_RECORDS" "j < RawRecord_NUM_CHUNKS"
  shows "length (record_chunk data r j) = SAFE_BYTES"
  using assms by (simp add: record_chunk_def history_sizes)

text \<open>The bytes of a segment, record by record and chunk by chunk.\<close>

lemma record_chunks_concat:
  assumes "length data = RecordedHistorySegment_SIZE"
  shows "concat (map (\<lambda>r. concat (map (record_chunk data r) [0..<RawRecord_NUM_CHUNKS])) [0..<NUM_RAW_RECORDS]) = data"
proof -
  have "concat (map (record_chunk data r) [0..<RawRecord_NUM_CHUNKS]) = take RawRecord_SIZE (drop (r * RawRecord_SIZE) data)" for r
    using concat_chunks [of SAFE_BYTES "drop (r * RawRecord_SIZE) data" RawRecord_NUM_CHUNKS]
    by (simp add: record_chunk_def [abs_def] RawRecord_SIZE_def add.commute mult.commute)
  then show ?thesis
    using concat_chunks [of RawRecord_SIZE data NUM_RAW_RECORDS] assms
    by (simp add: RecordedHistorySegment_SIZE_def mult.commute)
qed

definition source_scalars :: "('s, 'c, 'p) coding \<Rightarrow> octets \<Rightarrow> nat \<Rightarrow> 's list" where
  "source_scalars P data j = map (\<lambda>r. the (scalar_from_safe P (record_chunk data r j))) [0..<NUM_RAW_RECORDS]"

definition column_of :: "('s, 'c, 'p) coding \<Rightarrow> octets \<Rightarrow> nat \<Rightarrow> 's list" where
  "column_of P data j = interleave (source_scalars P data j) (the (erasure_extend P (source_scalars P data j)))"

lemma source_scalar:
  assumes laws: "coding_laws P" and data: "length data = RecordedHistorySegment_SIZE"
    and r: "r < NUM_RAW_RECORDS" and j: "j < RawRecord_NUM_CHUNKS"
  shows "scalar_from_safe P (record_chunk data r j) = Some (source_scalars P data j ! r)"
    and "scalar_to_bytes P (source_scalars P data j ! r) = 0 # record_chunk data r j"
proof -
  show s: "scalar_from_safe P (record_chunk data r j) = Some (source_scalars P data j ! r)"
    using coding_lawsD(1) [OF laws record_chunk_length [OF data r j]] r by (simp add: source_scalars_def)
  then show "scalar_to_bytes P (source_scalars P data j ! r) = 0 # record_chunk data r j"
    unfolding scalar_from_safe_def by (rule coding_lawsD(3) [OF laws])
qed

lemma coded_column:
  assumes laws: "coding_laws P" and data: "length data = RecordedHistorySegment_SIZE" and j: "j < RawRecord_NUM_CHUNKS"
  shows "coded_column P data j = Some (column_of P data j)" "length (column_of P data j) = NUM_PIECES"
    and "samples_of (column_of P data j) shards \<Longrightarrow> erasure_recover P shards = Some (column_of P data j)"
    and "step_by_2 (column_of P data j) = source_scalars P data j"
proof -
  let ?xs = "source_scalars P data j"
  have src: "those (map (\<lambda>r. scalar_from_safe P (record_chunk data r j)) [0..<NUM_RAW_RECORDS]) = Some ?xs"
    using coding_lawsD(1) [OF laws record_chunk_length [OF data _ j]]
    unfolding source_scalars_def by (intro those_map_defined) auto
  have len: "length ?xs = NUM_RAW_RECORDS" by (simp add: source_scalars_def)
  have safe: "\<exists>b. length b = SAFE_BYTES \<and> scalar_from_safe P b = Some x" if "x \<in> set ?xs" for x
    using that source_scalar(1) [OF laws data _ j] record_chunk_length [OF data _ j]
    by (metis in_set_conv_nth len)
  from coding_lawsD(6) [OF laws len safe] obtain ys where
    ys: "das_fft_extension P ?xs = Some ys" "length ys = NUM_RAW_RECORDS"
      "\<forall>shards. samples_of (interleave ?xs ys) shards \<longrightarrow> recover_poly_from_samples P shards = Some (interleave ?xs ys)"
    by blast
  then have col: "column_of P data j = interleave ?xs ys" by (simp add: column_of_def erasure_extend_def)
  from src ys(1) show "coded_column P data j = Some (column_of P data j)"
    by (simp add: coded_column_def col erasure_extend_def)
  from len ys(2) show "length (column_of P data j) = NUM_PIECES" "step_by_2 (column_of P data j) = source_scalars P data j"
    by (simp_all add: col history_sizes step_by_2_interleave)
  from ys(3) show "samples_of (column_of P data j) shards \<Longrightarrow> erasure_recover P shards = Some (column_of P data j)"
    by (simp add: col erasure_recover_def)
qed

text \<open>The records of all pieces.\<close>

definition records_of :: "('s, 'c, 'p) coding \<Rightarrow> octets \<Rightarrow> octets list list" where
  "records_of P data =
     map (\<lambda>i. map (\<lambda>j. scalar_to_bytes P (column_of P data j ! i)) [0..<RawRecord_NUM_CHUNKS]) [0..<NUM_PIECES]"

lemma column_chunks:
  assumes "coding_laws P" "length data = RecordedHistorySegment_SIZE"
  shows "map (\<lambda>i. map (column_chunk P i) (map (column_of P data) [0..<RawRecord_NUM_CHUNKS])) [0..<NUM_PIECES] =
    records_of P data"
  using coded_column(2) [OF assms] by (simp add: records_of_def column_chunk_def)

lemma coded_records:
  assumes laws: "coding_laws P" and data: "length data = RecordedHistorySegment_SIZE"
  shows "coded_records P data = Some (records_of P data)"
proof -
  have "those (map (coded_column P data) [0..<RawRecord_NUM_CHUNKS]) = Some (map (column_of P data) [0..<RawRecord_NUM_CHUNKS])"
    using coded_column(1) [OF laws data] by (intro those_map_Some) simp
  then show ?thesis using column_chunks [OF assms] by (simp add: coded_records_def)
qed

lemma records_of_nth:
  assumes "i < NUM_PIECES" "j < RawRecord_NUM_CHUNKS"
  shows "records_of P data ! i ! j = scalar_to_bytes P (column_of P data j ! i)"
  using assms by (simp add: records_of_def)

section \<open>Recovery of the bytes\<close>

lemma samples_of_nth:
  assumes "samples_of xs shards" "i < length xs" "shards ! i = Some y"
  shows "y = xs ! i"
  using assms by (fastforce simp: samples_of_def)

text \<open>Sampled pieces give samples of every column.\<close>

lemma shards_of_samples:
  assumes laws: "coding_laws P" and data: "length data = RecordedHistorySegment_SIZE"
    and recs: "map pc_record pieces = records_of P data" and samples: "samples_of pieces shards"
    and j: "j < RawRecord_NUM_CHUNKS"
  shows "recovered_shards P shards j = Inr (column_of P data j)"
proof -
  have len: "length pieces = NUM_PIECES"
    using recs by (metis length_map map_nth records_of_def length_upt minus_nat.diff_0)
  define g where "g = (\<lambda>maybe_piece :: piece option. map_option (\<lambda>p. the (scalar_from_bytes P (pc_record p ! j))) maybe_piece)"
  have chunk: "scalar_from_bytes P (pc_record (pieces ! i) ! j) = Some (column_of P data j ! i)" if "i < NUM_PIECES" for i
  proof -
    have "pc_record (pieces ! i) = records_of P data ! i" using that len recs by (metis nth_map)
    then show ?thesis by (simp add: records_of_nth [OF that j] coding_lawsD(4) [OF laws])
  qed
  have shard: "shard_of P j maybe_piece = Inr (g maybe_piece)" if "maybe_piece \<in> set shards" for maybe_piece
  proof (cases maybe_piece)
    case (Some p)
    with that obtain i where "i < length shards" "shards ! i = Some p" by (metis in_set_conv_nth)
    with samples have "i < NUM_PIECES" "p = pieces ! i" by (auto simp: samples_of_def len samples_of_nth [OF samples])
    with chunk Some show ?thesis by (simp add: shard_of_def g_def)
  qed (simp add: shard_of_def g_def)
  have g_nth: "map g shards ! i = None \<or> map g shards ! i = Some (column_of P data j ! i)" if "i < NUM_PIECES" for i
    using samples that chunk [OF that] by (auto simp: samples_of_def len g_def)
  have "length (filter (\<lambda>s. s \<noteq> None) (map g shards)) = length (filter (\<lambda>s. s \<noteq> None) shards)"
    by (simp add: filter_map g_def comp_def)
  with samples g_nth coded_column(2) [OF laws data j] have "samples_of (column_of P data j) (map g shards)"
    by (simp add: samples_of_def len)
  from coded_column(3) [OF laws data j this] try_map_Inr [of shards "shard_of P j" g, OF shard] show ?thesis
    by (simp add: recovered_shards_def)
qed

lemma safe_bytes_of_source:
  assumes "coding_laws P" "length data = RecordedHistorySegment_SIZE" "j < RawRecord_NUM_CHUNKS"
  shows "those (map (try_to_safe_bytes P) (source_scalars P data j)) = Some (map (\<lambda>r. record_chunk data r j) [0..<NUM_RAW_RECORDS])"
proof -
  have "those (map (\<lambda>r. try_to_safe_bytes P (source_scalars P data j ! r)) [0..<NUM_RAW_RECORDS]) =
      Some (map (\<lambda>r. record_chunk data r j) [0..<NUM_RAW_RECORDS])"
    using source_scalar(2) [OF assms(1,2) _ assms(3)] by (intro those_map_Some) (simp add: try_to_safe_bytes_def)
  moreover have "map (try_to_safe_bytes P) (source_scalars P data j) =
      map (\<lambda>r. try_to_safe_bytes P (source_scalars P data j ! r)) [0..<NUM_RAW_RECORDS]"
    by (rule nth_equalityI) (simp_all add: source_scalars_def)
  ultimately show ?thesis by simp
qed

lemma recovered_data:
  assumes laws: "coding_laws P" and data: "length data = RecordedHistorySegment_SIZE"
    and recs: "map pc_record pieces = records_of P data" and samples: "samples_of pieces shards"
  shows "recovered_data P shards = Inr data"
proof -
  have "recovered_column P shards j = Inr (map (\<lambda>r. record_chunk data r j) [0..<NUM_RAW_RECORDS])"
    if "j < RawRecord_NUM_CHUNKS" for j
    using shards_of_samples [OF assms that] coded_column(4) [OF laws data that] safe_bytes_of_source [OF laws data that]
    by (simp add: recovered_column_def source_scalars_def)
  then have "try_map (recovered_column P shards) [0..<RawRecord_NUM_CHUNKS] =
      Inr (map (\<lambda>j. map (\<lambda>r. record_chunk data r j) [0..<NUM_RAW_RECORDS]) [0..<RawRecord_NUM_CHUNKS])"
    by (intro try_map_Inr) simp
  moreover have "concat (map (\<lambda>r. concat (map (\<lambda>column. if r < length column then column ! r else replicate SAFE_BYTES 0)
      (map (\<lambda>j. map (\<lambda>r. record_chunk data r j) [0..<NUM_RAW_RECORDS]) [0..<RawRecord_NUM_CHUNKS]))) [0..<NUM_RAW_RECORDS]) =
      concat (map (\<lambda>r. concat (map (record_chunk data r) [0..<RawRecord_NUM_CHUNKS])) [0..<NUM_RAW_RECORDS])"
    by (intro arg_cong [where f = concat] map_cong refl) (auto intro!: arg_cong [where f = concat])
  ultimately show ?thesis
    using record_chunks_concat [OF data] by (simp add: recovered_data_def)
qed

lemma source_record:
  assumes laws: "coding_laws P" and data: "length data = RecordedHistorySegment_SIZE" and r: "r < NUM_RAW_RECORDS"
  shows "raw_record_chunks (records_of P data ! (2 * r)) = map (record_chunk data r) [0..<RawRecord_NUM_CHUNKS]"
proof -
  from r have i: "2 * r < NUM_PIECES" by (simp add: history_sizes)
  have "column_of P data j ! (2 * r) = source_scalars P data j ! r" if "j < RawRecord_NUM_CHUNKS" for j
    using coded_column(2,4) [OF laws data that] i by (metis step_by_2_nth)
  then show ?thesis
    using i source_scalar(2) [OF laws data r] by (simp add: raw_record_chunks_def records_of_def)
qed

lemma those_nth: "those xs = Some ys \<Longrightarrow> i < length xs \<Longrightarrow> xs ! i = Some (ys ! i)"
proof (induction xs arbitrary: ys i)
  case (Cons x xs)
  then show ?case by (cases i) (auto split: option.splits)
qed simp

lemma available_data:
  assumes laws: "coding_laws P" and data: "length data = RecordedHistorySegment_SIZE"
    and recs: "map pc_record pieces = records_of P data" and samples: "samples_of pieces shards"
    and available: "available_data shards = Some d"
  shows "d = data"
proof -
  have len: "length pieces = NUM_PIECES" "length shards = NUM_PIECES"
    using samples arg_cong [OF recs, of length] by (simp_all add: samples_of_def records_of_def)
  obtain ps where ps: "those (take NUM_RAW_RECORDS (step_by_2 shards)) = Some ps"
    using available by (auto simp: available_data_def Let_def)
  have lps: "length ps = NUM_RAW_RECORDS" using those_length [OF ps] len by (simp add: history_sizes)
  have "ps ! r = pieces ! (2 * r)" if "r < NUM_RAW_RECORDS" for r
  proof -
    have r: "2 * r < NUM_PIECES" using that by (simp add: history_sizes)
    from those_nth [OF ps, of r] that len have "step_by_2 shards ! r = Some (ps ! r)" by (simp add: history_sizes)
    then have "shards ! (2 * r) = Some (ps ! r)" using r len by (simp add: step_by_2_nth)
    from samples_of_nth [OF samples _ this] r len show ?thesis by simp
  qed
  then have "pc_record (ps ! r) = records_of P data ! (2 * r)" if "r < NUM_RAW_RECORDS" for r
  proof -
    have "2 * r < length pieces" using that len by (simp add: history_sizes)
    with recs that \<open>\<And>r. r < NUM_RAW_RECORDS \<Longrightarrow> ps ! r = pieces ! (2 * r)\<close> show ?thesis by (metis nth_map)
  qed
  then have "map (\<lambda>p. concat (raw_record_chunks (pc_record p))) ps =
      map (\<lambda>r. concat (map (record_chunk data r) [0..<RawRecord_NUM_CHUNKS])) [0..<NUM_RAW_RECORDS]"
    using source_record [OF laws data] lps by (intro nth_equalityI) simp_all
  then have "concat (map (\<lambda>p. concat (raw_record_chunks (pc_record p))) ps) = data"
    using record_chunks_concat [OF data] by simp
  with available ps data show ?thesis by (simp add: available_data_def Let_def)
qed

lemma segment_recovered:
  assumes "coding_laws P" "length data = RecordedHistorySegment_SIZE" "map pc_record pieces = records_of P data"
    and "samples_of pieces shards"
  shows "reconstruct_segment K P shards = ok_or SegmentDecoding (decode_segment K data)"
  using available_data [OF assms] recovered_data [OF assms] by (auto simp: reconstruct_segment_def split: option.split)

section \<open>Commitments and witnesses\<close>

lemma next_power_of_two_chunks: "next_power_of_two RawRecord_NUM_CHUNKS = RawRecord_NUM_CHUNKS"
  by (simp add: next_power_of_two_def RawRecord_NUM_CHUNKS_def next_power_of_two_from.simps)

definition record_commitment_of :: "('s, 'c, 'p) coding \<Rightarrow> octets \<Rightarrow> nat \<Rightarrow> 'c" where
  "record_commitment_of P data r = the (commit_scalars P (map (\<lambda>j. source_scalars P data j ! r) [0..<RawRecord_NUM_CHUNKS]))"

definition record_commitments_of :: "('s, 'c, 'p) coding \<Rightarrow> octets \<Rightarrow> 'c list" where
  "record_commitments_of P data = map (record_commitment_of P data) [0..<NUM_RAW_RECORDS]"

lemma commit_scalars_defined:
  assumes "coding_laws P" "length scalars = RawRecord_NUM_CHUNKS"
  shows "commit_scalars P scalars \<noteq> None"
  using coding_lawsD(8,9) [OF assms(1)] assms(2) by (fastforce simp: commit_scalars_def next_power_of_two_chunks)

lemma commit_source_record:
  assumes laws: "coding_laws P" and data: "length data = RecordedHistorySegment_SIZE" and r: "r < NUM_RAW_RECORDS"
  shows "those (map (scalar_from_bytes P) (records_of P data ! (2 * r))) =
      Some (map (\<lambda>j. source_scalars P data j ! r) [0..<RawRecord_NUM_CHUNKS])"
    and "commit_record P (records_of P data ! (2 * r)) = Some (record_commitment_of P data r)"
proof -
  from r have i: "2 * r < NUM_PIECES" by (simp add: history_sizes)
  have col: "column_of P data j ! (2 * r) = source_scalars P data j ! r" if "j < RawRecord_NUM_CHUNKS" for j
    using coded_column(2,4) [OF laws data that] i by (metis step_by_2_nth)
  then have "map (scalar_from_bytes P) (records_of P data ! (2 * r)) =
      map (\<lambda>j. Some (source_scalars P data j ! r)) [0..<RawRecord_NUM_CHUNKS]"
    using i by (simp add: records_of_def coding_lawsD(4) [OF laws])
  then show scalars: "those (map (scalar_from_bytes P) (records_of P data ! (2 * r))) =
      Some (map (\<lambda>j. source_scalars P data j ! r) [0..<RawRecord_NUM_CHUNKS])"
    by (simp add: those_map_Some)
  show "commit_record P (records_of P data ! (2 * r)) = Some (record_commitment_of P data r)"
    using commit_scalars_defined [OF laws, of "map (\<lambda>j. source_scalars P data j ! r) [0..<RawRecord_NUM_CHUNKS]"]
    by (simp add: commit_record_def scalars record_commitment_of_def)
qed

text \<open>The pieces of a segment whose bytes are \<open>data\<close>.\<close>

definition pieces_of :: "('s, 'c, 'p) coding \<Rightarrow> octets \<Rightarrow> 'c list \<Rightarrow> 'p \<Rightarrow> piece list \<Rightarrow> bool" where
  "pieces_of P data commitments polynomial pieces \<longleftrightarrow>
     erasure_extend_commitments P (record_commitments_of P data) = Some commitments \<and>
     segment_polynomial P commitments = Some polynomial \<and>
     witnessed_pieces P polynomial (records_of P data) commitments = Some pieces"

lemma pieces_of_length:
  assumes "coding_laws P" "pieces_of P data commitments polynomial pieces"
  shows "length commitments = NUM_PIECES" "step_by_2 commitments = record_commitments_of P data"
    "length (records_of P data) = NUM_PIECES" "length pieces = NUM_PIECES"
proof -
  have "length (record_commitments_of P data) = NUM_RAW_RECORDS" by (simp add: record_commitments_of_def)
  from coding_lawsD(7) [OF assms(1) this] assms(2)
  show "length commitments = NUM_PIECES" "step_by_2 commitments = record_commitments_of P data"
    by (auto simp: pieces_of_def)
  moreover show "length (records_of P data) = NUM_PIECES" by (simp add: records_of_def)
  moreover from assms(2) have "length pieces = length (enumerate 0 (zip (records_of P data) commitments))"
    by (auto simp: pieces_of_def witnessed_pieces_def dest!: those_length)
  ultimately show "length pieces = NUM_PIECES" by simp
qed

lemma pieces_of_nth:
  assumes "coding_laws P" "pieces_of P data commitments polynomial pieces" "i < NUM_PIECES"
  shows "witnessed_piece P polynomial i (records_of P data ! i) (commitments ! i) = Some (pieces ! i)"
    and "pc_record (pieces ! i) = records_of P data ! i"
    and "pc_commitment (pieces ! i) = commitment_to_bytes P (commitments ! i)"
proof -
  note len = pieces_of_length [OF assms(1,2)]
  show "witnessed_piece P polynomial i (records_of P data ! i) (commitments ! i) = Some (pieces ! i)"
    using those_nth [of _ pieces i] assms(2,3) len
    by (fastforce simp: pieces_of_def witnessed_pieces_def nth_enumerate_eq)
  then show "pc_record (pieces ! i) = records_of P data ! i" "pc_commitment (pieces ! i) = commitment_to_bytes P (commitments ! i)"
    by (auto simp: witnessed_piece_def bind_eq_Some_conv dest!: sym [of _ "pieces ! i"])
qed

lemma pieces_of_records:
  assumes "coding_laws P" "pieces_of P data commitments polynomial pieces"
  shows "map pc_record pieces = records_of P data"
  using pieces_of_length [OF assms] pieces_of_nth(2) [OF assms] by (intro nth_equalityI) simp_all

lemma pieces_exist:
  assumes laws: "coding_laws P" and data: "length data = RecordedHistorySegment_SIZE"
  shows "\<exists>commitments polynomial pieces. pieces_of P data commitments polynomial pieces"
proof -
  have "length (record_commitments_of P data) = NUM_RAW_RECORDS" by (simp add: record_commitments_of_def)
  from coding_lawsD(7) [OF laws this] obtain cs where
    cs: "erasure_extend_commitments P (record_commitments_of P data) = Some cs" "length cs = NUM_PIECES" by blast
  have "scalar_from_bytes P (blake3_254_hash_to_scalar P d) \<noteq> None" for d
  proof -
    from coding_lawsD(5) [OF laws, of d] obtain b bs where "blake3_hash P d = b # bs" "length bs = SAFE_BYTES"
      by (cases "blake3_hash P d") (auto simp: SAFE_BYTES_def)
    then show ?thesis using coding_lawsD(2) [OF laws] by (simp add: blake3_254_hash_to_scalar_def)
  qed
  then have "those (map (\<lambda>c. scalar_from_bytes P (blake3_254_hash_to_scalar P (commitment_to_bytes P c))) cs) =
      Some (map (\<lambda>c. the (scalar_from_bytes P (blake3_254_hash_to_scalar P (commitment_to_bytes P c)))) cs)"
    by (intro those_map_defined) blast
  moreover from coding_lawsD(8) [OF laws] cs(2)
  have "kzg_poly P (map (\<lambda>c. the (scalar_from_bytes P (blake3_254_hash_to_scalar P (commitment_to_bytes P c)))) cs) \<noteq> None"
    by simp
  ultimately obtain poly where poly: "segment_polynomial P cs = Some poly" by (auto simp: segment_polynomial_def)
  have "witnessed_piece P poly i rec c \<noteq> None" if "i < NUM_PIECES" for i rec c
    using coding_lawsD(10) [OF laws that, of poly] by (auto simp: witnessed_piece_def)
  then have "those (map (\<lambda>(i, rec, c). witnessed_piece P poly i rec c) (enumerate 0 (zip (records_of P data) cs))) \<noteq> None"
    using cs(2) by (subst those_map_defined) (auto simp: in_set_enumerate_eq records_of_def)
  with cs(1) poly show ?thesis by (auto simp: pieces_of_def witnessed_pieces_def)
qed

section \<open>Recovery of the pieces\<close>

lemma source_commitments_recovered:
  assumes laws: "coding_laws P" and data: "length data = RecordedHistorySegment_SIZE"
    and archived: "pieces_of P data commitments polynomial pieces" and samples: "samples_of pieces shards"
  shows "try_map (\<lambda>(rec, maybe_piece). source_commitment P rec maybe_piece) (step_by_2 (zip (records_of P data) shards)) =
    Inr (record_commitments_of P data)"
proof -
  note len = pieces_of_length [OF laws archived]
  have ls: "length shards = NUM_PIECES" using samples len by (simp add: samples_of_def)
  have one: "source_commitment P (records_of P data ! (2 * r)) (shards ! (2 * r)) = Inr (record_commitment_of P data r)"
    if r: "r < NUM_RAW_RECORDS" for r
  proof -
    from r have i: "2 * r < NUM_PIECES" by (simp add: history_sizes)
    have "commitments ! (2 * r) = record_commitment_of P data r"
      using len(1,2) r i step_by_2_nth [of r commitments] by (simp add: record_commitments_of_def)
    then show ?thesis
      using samples i len(4) commit_source_record [OF laws data r] pieces_of_nth(3) [OF laws archived i]
      by (auto simp: source_commitment_def samples_of_def coding_lawsD(11) [OF laws] commit_record_def)
  qed
  let ?items = "map (\<lambda>r. (records_of P data ! (2 * r), shards ! (2 * r))) [0..<NUM_RAW_RECORDS]"
  have "step_by_2 (zip (records_of P data) shards) = ?items"
    using len(3) ls by (intro nth_equalityI) (simp_all add: history_sizes step_by_2_nth)
  moreover have "try_map (\<lambda>(rec, maybe_piece). source_commitment P rec maybe_piece) ?items =
      try_map (\<lambda>r. source_commitment P (records_of P data ! (2 * r)) (shards ! (2 * r))) [0..<NUM_RAW_RECORDS]"
    by (simp add: try_map_map)
  moreover have "try_map (\<lambda>r. source_commitment P (records_of P data ! (2 * r)) (shards ! (2 * r))) [0..<NUM_RAW_RECORDS] =
      Inr (record_commitments_of P data)"
    unfolding record_commitments_of_def using one by (intro try_map_Inr) simp
  ultimately show ?thesis by simp
qed

lemma reconstruct_shards_of_samples:
  assumes "coding_laws P" "length data = RecordedHistorySegment_SIZE"
    and "pieces_of P data commitments polynomial pieces" "samples_of pieces shards"
  shows "reconstruct_shards P shards = Inr (records_of P data, commitments, polynomial)"
proof -
  note recs = pieces_of_records [OF assms(1,3)] and len = pieces_of_length [OF assms(1,3)]
  have "try_map (recovered_shards P shards) [0..<RawRecord_NUM_CHUNKS] = Inr (map (column_of P data) [0..<RawRecord_NUM_CHUNKS])"
    using shards_of_samples [OF assms(1,2) recs assms(4)] by (intro try_map_Inr) simp
  moreover have "map snd (zip (records_of P data) commitments) = commitments" using len by simp
  ultimately show ?thesis
    using source_commitments_recovered [OF assms] column_chunks [OF assms(1,2)] assms(3)
    by (simp add: reconstruct_shards_def pieces_of_def)
qed

lemma pieces_recovered:
  assumes "coding_laws P" "length data = RecordedHistorySegment_SIZE"
    and "pieces_of P data commitments polynomial pieces" "samples_of pieces shards"
  shows "reconstruct_pieces P shards = Inr pieces"
    and "i < NUM_PIECES \<Longrightarrow> reconstruct_piece P shards i = Inr (pieces ! i)"
    and "NUM_PIECES \<le> i \<Longrightarrow> reconstruct_piece P shards i = Inl IncorrectPiecePosition"
  using reconstruct_shards_of_samples [OF assms] assms(3) pieces_of_nth(1) [OF assms(1,3)]
  by (simp_all add: reconstruct_pieces_def reconstruct_piece_def pieces_of_def)

end
