(* ===== verification/Archive_Positions.thy ===== *)
theory Archive_Positions
  imports Archiver Piece_Recovery
begin

text \<open>
  Where the archiver stands: how many blocks are archived completely and how much of the next one. The buffer is what
  comes after that position, behind the header of the last segment; a segment is what lies between two positions.
  The archiver never panics and every block that is added ends with less than a segment in the buffer.
\<close>

declare collect_items.simps [simp del]

section \<open>Object mappings do not matter for segments\<close>

lemma strip_kind [simp]:
  "inner_bytes_size (strip item) = inner_bytes_size item" "advance lab (strip item) = advance lab item"
  by (cases item; simp)+

fun strip_result ::
    "nat \<times> segment \<times> last_archived_block \<times> segment_item list \<Rightarrow> nat \<times> segment \<times> last_archived_block \<times> segment_item list" where
  "strip_result (sz, items, lab, buffer) = (sz, map strip items, lab, map strip buffer)"

lemma collect_items_strip:
  "collect_items K sz (map strip items) lab (map strip buffer) =
   map_option (map_option strip_result) (collect_items K sz items lab buffer)"
proof (induction buffer arbitrary: sz items lab)
  case Nil
  show ?case by (simp add: collect_items.simps)
next
  case (Cons item buffer)
  have rec: "advance lab item \<bind> (\<lambda>lab'. collect_items K sz' (map strip items @ [strip item]) lab' (map strip buffer)) =
      map_option (map_option strip_result) (advance lab item \<bind> (\<lambda>lab'. collect_items K sz' (items @ [item]) lab' buffer))" for sz'
    using Cons.IH [of sz' "items @ [item]"] by (cases "advance lab item") simp_all
  show ?case
    by (cases "inner_bytes_size item") (simp_all add: collect_items.simps rec Let_def)
qed

lemma spill_item_strip:
  "spill_item n lab (strip item) = map_option (\<lambda>(a, b, l). (strip a, strip b, l)) (spill_item n lab item)"
  by (cases item) (auto simp: objects_before_def objects_after_def Let_def split: bind_split option.split)

section \<open>The loop\<close>

definition items_size :: "scale_codec \<Rightarrow> segment_item list \<Rightarrow> nat" where
  "items_size K items = sum_list (map (encoded_size K) items)"

lemma items_size_simps [simp]:
  "items_size K [] = 0" "items_size K (x # xs) = encoded_size K x + items_size K xs"
  "items_size K (xs @ ys) = items_size K xs + items_size K ys"
  by (simp_all add: items_size_def)

lemma segment_size_items: "segment_size K items = Suc (items_size K items)"
  by (induction items) simp_all

fun advance_all :: "last_archived_block \<Rightarrow> segment_item list \<Rightarrow> last_archived_block option" where
  "advance_all lab [] = Some lab"
| "advance_all lab (item # items) = advance lab item \<bind> (\<lambda>lab. advance_all lab items)"

lemma advance_all_append: "advance_all lab (xs @ ys) = advance_all lab xs \<bind> (\<lambda>lab. advance_all lab ys)"
  by (induction xs arbitrary: lab) (auto split: bind_split)

text \<open>The bytes of an item that do not fit are at most those of the block in it.\<close>

definition fits :: "scale_codec \<Rightarrow> nat \<Rightarrow> segment_item \<Rightarrow> bool" where
  "fits K sz item \<longleftrightarrow>
     (sz + encoded_size K item < RecordedHistorySegment_SIZE \<or>
      (\<exists>inner. inner_bytes_size item = Some inner \<and> sz + encoded_size K item - RecordedHistorySegment_SIZE \<le> inner))"

lemma collect_items_taken:
  assumes "collect_items K sz items lab buffer = Some (Some (sz', items', lab', buffer'))"
  shows "\<exists>taken. items' = items @ taken \<and> buffer = taken @ buffer' \<and> sz' = sz + items_size K taken \<and>
    advance_all lab taken = Some lab' \<and>
    (taken \<noteq> [] \<longrightarrow> sz' - encoded_size K (last taken) < RecordedHistorySegment_SIZE - 2 \<and>
       fits K (sz' - encoded_size K (last taken)) (last taken)) \<and>
    (sz' < RecordedHistorySegment_SIZE - 2 \<longrightarrow>
       (\<exists>item inner. buffer' \<noteq> [] \<and> hd buffer' = item \<and> inner_bytes_size item = Some inner \<and>
          sz' + encoded_size K item > RecordedHistorySegment_SIZE + inner))"
  using assms
proof (induction buffer arbitrary: sz items lab)
  case Nil
  then show ?case by (auto simp: collect_items.simps split: if_splits)
next
  case (Cons item buffer)
  show ?case
  proof (cases "sz < RecordedHistorySegment_SIZE - 2 \<and> fits K sz item")
    case True
    with Cons.prems obtain lab1 where lab1: "advance lab item = Some lab1"
      and rec: "collect_items K (sz + encoded_size K item) (items @ [item]) lab1 buffer = Some (Some (sz', items', lab', buffer'))"
      by (auto simp: collect_items.simps Let_def fits_def bind_eq_Some_conv split: if_splits)
    from Cons.IH [OF rec] obtain taken where t: "items' = (items @ [item]) @ taken" "buffer = taken @ buffer'"
      "sz' = sz + encoded_size K item + items_size K taken" "advance_all lab1 taken = Some lab'"
      "taken \<noteq> [] \<longrightarrow> sz' - encoded_size K (last taken) < RecordedHistorySegment_SIZE - 2 \<and>
         fits K (sz' - encoded_size K (last taken)) (last taken)"
      "sz' < RecordedHistorySegment_SIZE - 2 \<longrightarrow>
         (\<exists>item inner. buffer' \<noteq> [] \<and> hd buffer' = item \<and> inner_bytes_size item = Some inner \<and>
            sz' + encoded_size K item > RecordedHistorySegment_SIZE + inner)" by blast
    show ?thesis
      by (rule exI [of _ "item # taken"], intro conjI) (use t lab1 True in \<open>auto split: if_splits\<close>)
  next
    case False
    then have "sz' = sz \<and> items' = items \<and> lab' = lab \<and> buffer' = item # buffer \<and>
        (sz < RecordedHistorySegment_SIZE - 2 \<longrightarrow> (\<exists>inner. inner_bytes_size item = Some inner \<and>
          sz + encoded_size K item > RecordedHistorySegment_SIZE + inner))"
      using Cons.prems by (auto simp: collect_items.simps Let_def fits_def bind_eq_Some_conv split: if_splits)
    then show ?thesis by (intro exI [of _ "[]"]) auto
  qed
qed

lemma collect_items_short:
  assumes "collect_items K sz items lab buffer = Some None"
  shows "sz + items_size K buffer < RecordedHistorySegment_SIZE - 2"
  using assms
proof (induction buffer arbitrary: sz items lab)
  case (Cons item buffer)
  then show ?case
    by (auto simp: collect_items.simps Let_def bind_eq_Some_conv split: if_splits dest!: Cons.IH)
qed (auto simp: collect_items.simps split: if_splits)

lemma collect_items_defined:
  assumes "advance_all lab buffer \<noteq> None" "\<forall>item \<in> set buffer. inner_bytes_size item \<noteq> None"
  shows "collect_items K sz items lab buffer \<noteq> None"
  using assms
proof (induction buffer arbitrary: sz items lab)
  case (Cons item buffer)
  then show ?case by (auto simp: collect_items.simps Let_def split: bind_splits)
qed (simp add: collect_items.simps)

section \<open>Positions\<close>

text \<open>
  A position in the blocks \<open>B\<close>: so many blocks and, of the next one, so many bytes if it is archived in part. After a
  position come the rest of the next block and the other blocks.
\<close>

definition rest_items :: "octets list \<Rightarrow> nat \<Rightarrow> nat option \<Rightarrow> segment_item list" where
  "rest_items B k po =
     (case po of
        None \<Rightarrow> map (\<lambda>b. Block b []) (drop k B)
      | Some m \<Rightarrow> BlockContinuation (drop m (B ! k)) [] # map (\<lambda>b. Block b []) (drop (Suc k) B))"

definition lab_at :: "nat \<Rightarrow> nat option \<Rightarrow> last_archived_block" where
  "lab_at k po =
     (case po of
        None \<Rightarrow>
          if k = 0 then INITIAL_LAST_ARCHIVED_BLOCK else \<lparr>lab_number = k - 1, lab_archived_progress = Complete\<rparr>
      | Some m \<Rightarrow> \<lparr>lab_number = k, lab_archived_progress = Partial m\<rparr>)"

definition pos_ok :: "octets list \<Rightarrow> nat \<Rightarrow> nat option \<Rightarrow> bool" where
  "pos_ok B k po \<longleftrightarrow> k \<le> length B \<and> (\<forall>m. po = Some m \<longrightarrow> k < length B \<and> m < length (B ! k))"

definition blocks_ok :: "octets list \<Rightarrow> bool" where
  "blocks_ok B \<longleftrightarrow> length B < 2 ^ 32 \<and> (\<forall>b \<in> set B. length b < 2 ^ 32)"

lemma blocks_ok_nth: "blocks_ok B \<Longrightarrow> i < length B \<Longrightarrow> length (B ! i) < 2 ^ 32"
  by (simp add: blocks_ok_def)

lemma length_rest_items: "pos_ok B k po \<Longrightarrow> length (rest_items B k po) = length B - k"
  by (auto simp: rest_items_def pos_ok_def split: option.split)

lemma rest_items_nth:
  assumes "pos_ok B k po" "i < length B - k"
  shows "rest_items B k po ! i =
    (case po of Some m \<Rightarrow> if i = 0 then BlockContinuation (drop m (B ! k)) [] else Block (B ! (k + i)) [] | None \<Rightarrow> Block (B ! (k + i)) [])"
  using assms by (cases i) (auto simp: rest_items_def split: option.split)

lemma rest_items_drop:
  assumes "pos_ok B k po" "0 < n"
  shows "drop n (rest_items B k po) = rest_items B (k + n) None"
  using assms by (cases n) (auto simp: rest_items_def drop_map add.commute split: option.split)

text \<open>The last archived block after some items of the rest.\<close>

definition lab_past :: "octets list \<Rightarrow> nat \<Rightarrow> nat option \<Rightarrow> nat \<Rightarrow> last_archived_block" where
  "lab_past B k po n =
     (if n = 0 then lab_at k po
      else if po \<noteq> None \<and> n = 1 then \<lparr>lab_number = k, lab_archived_progress = Partial (length (B ! k))\<rparr>
      else \<lparr>lab_number = k + n - 1, lab_archived_progress = Complete\<rparr>)"

lemma advance_rest:
  assumes "pos_ok B k po" "blocks_ok B" "n \<le> length B - k"
  shows "advance_all (lab_at k po) (take n (rest_items B k po)) = Some (lab_past B k po n)"
  using assms(3)
proof (induction n)
  case (Suc n)
  then have n: "n < length B - k" by simp
  then have len: "k + n < 2 ^ 32" "length (B ! (k + n)) < 2 ^ 32" using assms(2) by (auto simp: blocks_ok_def)
  have "take (Suc n) (rest_items B k po) = take n (rest_items B k po) @ [rest_items B k po ! n]"
    using n length_rest_items [OF assms(1)] by (simp add: take_Suc_conv_app_nth)
  moreover have "advance (lab_past B k po n) (rest_items B k po ! n) = Some (lab_past B k po (Suc n))"
    using assms(1) len unfolding rest_items_nth [OF assms(1) n]
    by (cases "n = 0"; cases po) (auto simp: lab_past_def lab_at_def INITIAL_LAST_ARCHIVED_BLOCK_def set_complete_def set_partial_archived_def
        partial_archived_def checked_add_def pos_ok_def split: option.split)
  ultimately show ?case using Suc by (simp add: advance_all_append)
qed (simp add: lab_past_def)

text \<open>The items between two positions: whole blocks, and the part of the block at the second position.\<close>

definition cut_item :: "octets list \<Rightarrow> nat \<Rightarrow> nat option \<Rightarrow> nat \<Rightarrow> nat \<Rightarrow> segment_item" where
  "cut_item B k po k' m' =
     (case po of
        Some m \<Rightarrow> if k' = k then BlockContinuation (take (m' - m) (drop m (B ! k))) [] else BlockStart (take m' (B ! k')) []
      | None \<Rightarrow> BlockStart (take m' (B ! k')) [])"

definition between :: "octets list \<Rightarrow> nat \<Rightarrow> nat option \<Rightarrow> nat \<Rightarrow> nat option \<Rightarrow> segment_item list" where
  "between B k po k' po' =
     take (k' - k) (rest_items B k po) @ (case po' of None \<Rightarrow> [] | Some m' \<Rightarrow> [cut_item B k po k' m'])"

text \<open>The second position is later than the first.\<close>

definition before :: "nat \<Rightarrow> nat option \<Rightarrow> nat \<Rightarrow> nat option \<Rightarrow> bool" where
  "before k po k' po' \<longleftrightarrow>
     k < k' \<or> k = k' \<and> (case (po, po') of (None, Some _) \<Rightarrow> True | (Some m, Some m') \<Rightarrow> m < m' | _ \<Rightarrow> False)"

section \<open>Where an archiver stands\<close>

definition parent_items :: "segment_header option \<Rightarrow> segment_item list" where
  "parent_items prev = (case prev of None \<Rightarrow> [] | Some h \<Rightarrow> [ParentSegmentHeader h])"

definition standing ::
    "scale_codec \<Rightarrow> ('s, 'c, 'p) coding \<Rightarrow> octets list \<Rightarrow> nat \<Rightarrow> nat option \<Rightarrow> segment_header option \<Rightarrow> 'c archiver \<Rightarrow> bool" where
  "standing K P B k po prev st \<longleftrightarrow>
     pos_ok B k po \<and> map strip (ar_buffer st) = parent_items prev @ rest_items B k po \<and>
     ar_last_archived_block st = lab_at k po \<and>
     (case prev of
        None \<Rightarrow> k = 0 \<and> po = None \<and> ar_segment_index st = 0 \<and> ar_prev_segment_header_hash st = replicate 32 0
      | Some h \<Rightarrow> wf_header h \<and> sh_last_archived_block h = lab_at k po \<and> ar_segment_index st = sh_segment_index h + 1 \<and>
          ar_prev_segment_header_hash st = SegmentHeader_hash K P h)"

lemma parent_items_size:
  assumes "scale_laws K" "standing K P B k po prev st"
  shows "items_size K (parent_items prev) \<le> 99"
  using assms scale_lawsD(6) [OF assms(1)] by (auto simp: standing_def parent_items_def split: option.splits)

lemma advance_all_strip [simp]: "advance_all lab (map strip items) = advance_all lab items"
  by (induction items arbitrary: lab) (auto split: bind_split)

lemma items_size_strip [simp]: "items_size K (map strip items) = items_size K items"
  by (simp add: items_size_def comp_def)

lemma inner_rest: "item \<in> set (rest_items B k po) \<Longrightarrow> inner_bytes_size item \<noteq> None"
  by (auto simp: rest_items_def split: option.splits)

text \<open>An item of the rest takes at most six bytes more than its part of the block.\<close>

lemma rest_item_size:
  assumes "scale_laws K" "blocks_ok B" "pos_ok B k po" "item \<in> set (rest_items B k po)"
  obtains inner where "inner_bytes_size item = Some inner" "inner < 2 ^ 32" "encoded_size K item \<le> 6 + inner" "wf_item item"
proof -
  have drop: "length b < 2 ^ 32" if "b \<in> set (drop n B)" for b n
    using that assms(2) by (auto simp: blocks_ok_def dest: in_set_dropD)
  have "length (drop m (B ! k)) < 2 ^ 32" if "po = Some m" for m
    using that assms(2,3) blocks_ok_nth [of B k] by (simp add: pos_ok_def less_imp_diff_less)
  with assms(4) drop obtain bs where bs: "item = Block bs [] \<or> item = BlockContinuation bs []" "length bs < 2 ^ 32"
    by (cases po) (auto simp: rest_items_def)
  from scale_lawsD(3) [OF assms(1) bs(2)] bs that [of "length bs"] show thesis by auto
qed

lemma collect_items_total:
  assumes laws: "scale_laws K" and blocks: "blocks_ok B" and st: "standing K P B k po prev st"
  shows "collect_items K 1 [] (ar_last_archived_block st) (ar_buffer st) \<noteq> None"
proof -
  from st have strip: "map strip (ar_buffer st) = parent_items prev @ rest_items B k po" and pos: "pos_ok B k po"
    and lab: "ar_last_archived_block st = lab_at k po" by (simp_all add: standing_def)
  have inner: "inner_bytes_size item \<noteq> None" if "map strip buffer = rest_items B k po" "item \<in> set buffer" for buffer item
  proof -
    from that have "strip item \<in> set (rest_items B k po)" by (metis imageI list.set_map)
    then show ?thesis using inner_rest by fastforce
  qed
  have adv: "advance_all (lab_at k po) (rest_items B k po) \<noteq> None"
    using advance_rest [OF pos blocks, of "length B - k"] by (simp add: length_rest_items [OF pos])
  show ?thesis
  proof (cases prev)
    case None
    with strip have b: "map strip (ar_buffer st) = rest_items B k po" by (simp add: parent_items_def)
    show ?thesis unfolding lab using adv inner [OF b] by (intro collect_items_defined) (simp_all flip: b)
  next
    case (Some h)
    with strip obtain buffer where b: "ar_buffer st = ParentSegmentHeader h # buffer" "map strip buffer = rest_items B k po"
      by (auto simp: parent_items_def map_eq_Cons_conv elim!: strip.elims)
    have "encoded_size K (ParentSegmentHeader h) \<le> 99" using st scale_lawsD(6) [OF laws] Some by (auto simp: standing_def)
    moreover have "collect_items K sz items (lab_at k po) buffer \<noteq> None" for sz items
      using adv inner [OF b(2)] by (intro collect_items_defined) (simp_all flip: b(2))
    ultimately show ?thesis unfolding lab by (simp add: b(1) collect_items.simps history_sizes Let_def del: not_None_eq)
  qed
qed

text \<open>What a round of the loop takes: the header and at least one item of the rest.\<close>

lemma collected:
  assumes laws: "scale_laws K" and blocks: "blocks_ok B" and st: "standing K P B k po prev st"
    and run: "collect_items K 1 [] (ar_last_archived_block st) (ar_buffer st) = Some (Some (sz, items, lab, buffer))"
  obtains n where "0 < n" "n \<le> length B - k" "ar_buffer st = items @ buffer"
    "map strip items = parent_items prev @ take n (rest_items B k po)" "map strip buffer = drop n (rest_items B k po)"
    "sz = 1 + items_size K items" "lab = lab_past B k po n"
    "sz - encoded_size K (last items) < RecordedHistorySegment_SIZE - 2"
    "fits K (sz - encoded_size K (last items)) (last items)"
    "sz < RecordedHistorySegment_SIZE - 2 \<Longrightarrow> buffer \<noteq> []"
proof -
  from st have strip: "map strip (ar_buffer st) = parent_items prev @ rest_items B k po" and pos: "pos_ok B k po"
    and lab: "ar_last_archived_block st = lab_at k po" by (simp_all add: standing_def)
  from collect_items_taken [OF run] have t: "ar_buffer st = items @ buffer" "sz = 1 + items_size K items"
    "advance_all (lab_at k po) items = Some lab"
    "items \<noteq> [] \<Longrightarrow> sz - encoded_size K (last items) < RecordedHistorySegment_SIZE - 2 \<and>
       fits K (sz - encoded_size K (last items)) (last items)"
    and stop: "sz < RecordedHistorySegment_SIZE - 2 \<Longrightarrow> \<exists>item inner. buffer \<noteq> [] \<and> hd buffer = item \<and>
       inner_bytes_size item = Some inner \<and> sz + encoded_size K item > RecordedHistorySegment_SIZE + inner"
    by (auto simp: lab)
  have cut: "map strip items = take (length items) (parent_items prev @ rest_items B k po)"
    "map strip buffer = drop (length items) (parent_items prev @ rest_items B k po)"
    unfolding strip [symmetric] t(1) by simp_all
  define n where "n = length items - length (parent_items prev)"
  have "length (parent_items prev) < length items"
  proof (rule ccontr)
    assume short: "\<not> length (parent_items prev) < length items"
    then have "items_size K items = items_size K (take (length items) (parent_items prev))"
      using cut(1) items_size_strip [of K items] by simp
    also have "\<dots> \<le> items_size K (parent_items prev)"
      using items_size_simps(3) [of K "take (length items) (parent_items prev)" "drop (length items) (parent_items prev)"] by simp
    finally have "items_size K items \<le> items_size K (parent_items prev)" .
    with parent_items_size [OF laws st] t(2) have small: "sz \<le> 100" by simp
    with stop obtain item inner where item: "buffer \<noteq> []" "hd buffer = item" "inner_bytes_size item = Some inner"
      "sz + encoded_size K item > RecordedHistorySegment_SIZE + inner" by (auto simp: history_sizes)
    then have "strip item \<in> set (map strip (ar_buffer st))" using t(1) by (cases buffer) auto
    moreover have "strip item \<notin> set (parent_items prev)"
      using item(3) by (cases item) (auto simp: parent_items_def split: option.splits)
    ultimately have "strip item \<in> set (rest_items B k po)" by (simp add: strip)
    from rest_item_size [OF laws blocks pos this] item(3,4) small show False by (auto simp: history_sizes)
  qed
  then have n: "0 < n" "length items = length (parent_items prev) + n" by (simp_all add: n_def)
  with cut have items: "map strip items = parent_items prev @ take n (rest_items B k po)"
    and buffer: "map strip buffer = drop n (rest_items B k po)" by simp_all
  have "length (ar_buffer st) = length (parent_items prev) + (length B - k)"
    using arg_cong [OF strip, of length] by (simp add: length_rest_items [OF pos])
  with n(2) t(1) have le: "n \<le> length B - k" by simp
  have "advance_all (lab_at k po) (map strip items) = advance_all (lab_at k po) (take n (rest_items B k po))"
    unfolding items by (simp add: parent_items_def split: option.split)
  with advance_rest [OF pos blocks le] t(3) have "lab = lab_past B k po n" by simp
  moreover have "items \<noteq> []" using n by auto
  ultimately show thesis using that [OF n(1) le t(1) items buffer t(2)] t(4) stop by blast
qed

end
