(* ===== verification/Archiver_Invariant.thy ===== *)
theory Archiver_Invariant
  imports Archive_Positions
begin

text \<open>
  The archiver never panics, every segment it produces holds the blocks between two positions, and the commitments it
  makes as a segment grows are those it would make at its end.
\<close>

section \<open>Cutting a segment\<close>

lemma spill_rest:
  assumes pos: "pos_ok B k po" and blocks: "blocks_ok B" and n: "0 < n" "n \<le> length B - k"
    and item: "strip item = rest_items B k po ! (n - 1)"
    and spill: "0 < spill" "inner_bytes_size item = Some inner" "spill \<le> inner"
  defines "m' \<equiv> length (B ! (k + n - 1)) - spill"
  obtains a b where "spill_item spill (lab_past B k po n) item = Some (a, b, lab_at (k + n - 1) (Some m'))"
    "strip a = cut_item B k po (k + n - 1) m'" "strip b = BlockContinuation (drop m' (B ! (k + n - 1))) []"
    "m' < length (B ! (k + n - 1))"
proof -
  have i: "n - 1 < length B - k" and kn: "k + (n - 1) = k + n - 1" using n by simp_all
  have len: "length (B ! (k + n - 1)) < 2 ^ 32" using blocks_ok_nth [OF blocks, of "k + n - 1"] n by simp
  show thesis
  proof (cases "po \<noteq> None \<and> n = 1")
    case True
    then obtain m where m: "po = Some m" by blast
    have "m < length (B ! k)" using pos m by (simp add: pos_ok_def)
    moreover from item obtain objects where it: "item = BlockContinuation (drop m (B ! k)) objects"
      unfolding rest_items_nth [OF pos i] using m True by (cases item) auto
    ultimately have m': "m \<le> m'" "length (B ! k) - m - spill = m' - m" "m + (m' - m) = m'" "length (B ! k) < 2 ^ 32"
      using spill(2,3) len True by (auto simp: m'_def)
    have eq: "spill_item spill (lab_past B k po n) item =
        Some (BlockContinuation (take (m' - m) (drop m (B ! k))) (objects_before (m' - m) objects),
          BlockContinuation (drop (m' - m) (drop m (B ! k))) (objects_after (m' - m) objects), lab_at (k + n - 1) (Some m'))"
      using spill(2,3) m' True
      by (simp add: it lab_past_def lab_at_def partial_archived_def checked_sub_def set_partial_archived_def m'_def Let_def)
    have "cut_item B k po (k + n - 1) m' = BlockContinuation (take (m' - m) (drop m (B ! k))) []"
      using True m by (simp add: cut_item_def)
    moreover have "drop (m' - m) (drop m (B ! k)) = drop m' (B ! (k + n - 1))" using m'(3) True by (simp add: add.commute)
    moreover have "m' < length (B ! (k + n - 1))" using spill(1,2,3) it True by (simp add: m'_def)
    ultimately show thesis by (intro that [OF eq]) (simp_all only: strip.simps)
  next
    case False
    with item n(1) obtain objects where it: "item = Block (B ! (k + n - 1)) objects"
      unfolding rest_items_nth [OF pos i] kn by (cases item) (auto split: option.splits if_splits)
    have "lab_number (lab_past B k po n) = k + n - 1" using False n by (simp add: lab_past_def)
    moreover have "cut_item B k po (k + n - 1) m' = BlockStart (take m' (B ! (k + n - 1))) []"
      using False n by (auto simp: cut_item_def split: option.split)
    moreover have "spill_item spill (lab_past B k po n) item =
        Some (BlockStart (take m' (B ! (k + n - 1))) (objects_before m' objects),
          BlockContinuation (drop m' (B ! (k + n - 1))) (objects_after m' objects),
          set_partial_archived m' (lab_past B k po n))"
      using spill(2,3) len by (simp add: it m'_def Let_def)
    moreover have "m' < length (B ! (k + n - 1))" using spill(1,2,3) it by (simp add: m'_def)
    ultimately have eq: "spill_item spill (lab_past B k po n) item =
        Some (BlockStart (take m' (B ! (k + n - 1))) (objects_before m' objects),
          BlockContinuation (drop m' (B ! (k + n - 1))) (objects_after m' objects), lab_at (k + n - 1) (Some m'))"
      and "cut_item B k po (k + n - 1) m' = BlockStart (take m' (B ! (k + n - 1))) []" "m' < length (B ! (k + n - 1))"
      by (simp_all add: lab_at_def set_partial_archived_def)
    then show thesis by (intro that [OF eq]) (simp_all only: strip.simps)
  qed
qed

text \<open>The size of a segment whose last item is cut.\<close>

lemma spill_size:
  assumes laws: "scale_laws K" and spill: "spill_item spill lab item = Some (a, b, lab')" "wf_item item"
  shows "encoded_size K a + spill \<le> encoded_size K item"
proof -
  have "spill \<le> length bs \<Longrightarrow> length bs < 2 ^ 32 \<Longrightarrow> compact_len K (length bs - spill) \<le> compact_len K (length bs)" for bs :: octets
    by (intro scale_lawsD(4) [OF laws]) simp_all
  with spill show ?thesis
    by (cases item) (auto simp: Let_def bind_eq_Some_conv add_mono split: if_splits)
qed

text \<open>What a segment and the archiver after it are: they meet at a later position.\<close>

definition cut_at ::
    "scale_codec \<Rightarrow> octets list \<Rightarrow> nat \<Rightarrow> nat option \<Rightarrow> segment_header option \<Rightarrow> 'c archiver \<Rightarrow> segment \<Rightarrow> 'c archiver \<Rightarrow>
       nat \<Rightarrow> nat option \<Rightarrow> bool" where
  "cut_at K B k po prev st items st' k' po' \<longleftrightarrow>
     before k po k' po' \<and> pos_ok B k' po' \<and> map strip items = parent_items prev @ between B k po k' po' \<and>
     map strip (ar_buffer st') = rest_items B k' po' \<and> segment_size K items \<le> RecordedHistorySegment_SIZE \<and>
     st' = st\<lparr>ar_buffer := ar_buffer st', ar_last_archived_block := lab_at k' po'\<rparr>"

lemma segment_whole:
  assumes pos: "pos_ok B k po" and n: "0 < n" "n \<le> length B - k"
    and its: "map strip its = parent_items prev @ take n (rest_items B k po)"
    and buffer: "map strip buffer = drop n (rest_items B k po)"
    and sz: "1 + items_size K its \<le> RecordedHistorySegment_SIZE" and lab: "lab = lab_past B k po n"
  shows "cut_at K B k po prev st its (st\<lparr>ar_buffer := buffer, ar_last_archived_block := set_complete lab\<rparr>) (k + n) None"
proof -
  have "k + n \<le> length B" using n by simp
  moreover have "set_complete lab = lab_at (k + n) None"
    using n by (simp add: lab lab_past_def lab_at_def set_complete_def)
  ultimately show ?thesis using n its buffer sz rest_items_drop [OF pos n(1)]
    by (simp add: cut_at_def before_def pos_ok_def between_def segment_size_items)
qed

lemma segment_spilled:
  assumes laws: "scale_laws K" and blocks: "blocks_ok B" and st: "standing K P B k po prev st"
    and n: "0 < n" "n \<le> length B - k" and its: "map strip its = parent_items prev @ take n (rest_items B k po)"
    and buffer: "map strip buffer = drop n (rest_items B k po)" and sz: "sz = 1 + items_size K its"
    and fits: "fits K (sz - encoded_size K (last its)) (last its)" and over: "sz > RecordedHistorySegment_SIZE"
  obtains a b m' where
    "spill_item (sz - RecordedHistorySegment_SIZE) (lab_past B k po n) (last its) = Some (a, b, lab_at (k + n - 1) (Some m'))"
    "its \<noteq> []" "cut_at K B k po prev st (butlast its @ [a])
       (st\<lparr>ar_buffer := b # buffer, ar_last_archived_block := lab_at (k + n - 1) (Some m')\<rparr>) (k + n - 1) (Some m')"
proof -
  from st have pos: "pos_ok B k po" by (simp add: standing_def)
  let ?spill = "sz - RecordedHistorySegment_SIZE"
  define m' where "m' = length (B ! (k + n - 1)) - ?spill"
  have taken: "take n (rest_items B k po) \<noteq> []" using n length_rest_items [OF pos] by auto
  with its have ne: "its \<noteq> []" and "last (map strip its) = last (take n (rest_items B k po))" by auto
  then have item: "strip (last its) = rest_items B k po ! (n - 1)"
    using n by (simp add: last_map last_conv_nth [OF taken] length_rest_items [OF pos])
  from sz ne have size: "encoded_size K (last its) \<le> sz" "sz = 1 + items_size K (butlast its) + encoded_size K (last its)"
    using items_size_simps(3) [of K "butlast its" "[last its]"] by simp_all
  from over size fits obtain inner where inner: "inner_bytes_size (last its) = Some inner" "?spill \<le> inner"
    by (auto simp: fits_def)
  from over have "0 < ?spill" by simp
  from spill_rest [OF pos blocks n item this inner] obtain a b where
    spill: "spill_item ?spill (lab_past B k po n) (last its) = Some (a, b, lab_at (k + n - 1) (Some m'))"
      "strip a = cut_item B k po (k + n - 1) m'" "strip b = BlockContinuation (drop m' (B ! (k + n - 1))) []"
      "m' < length (B ! (k + n - 1))" unfolding m'_def by blast
  have "strip (last its) \<in> set (rest_items B k po)" using n by (simp add: item length_rest_items [OF pos])
  then obtain inner' where last_size: "inner_bytes_size (last its) = Some inner'" "encoded_size K (last its) \<le> 6 + inner'"
    "wf_item (last its)" using rest_item_size [OF laws blocks pos] by (metis encoded_size_strip strip_kind(1) wf_item_strip)
  have butlast: "map strip (butlast its) = parent_items prev @ take (n - 1) (rest_items B k po)"
    using its taken n by (simp add: map_butlast butlast_append butlast_take length_rest_items [OF pos])
  have "k + n - 1 < length B" using n by linarith
  then have "pos_ok B (k + n - 1) (Some m')" using spill(4) by (simp add: pos_ok_def)
  moreover have "before k po (k + n - 1) (Some m')"
  proof (cases "n = 1")
    case True
    then have "items_size K (butlast its) \<le> 99"
      using butlast parent_items_size [OF laws st] items_size_strip [of K "butlast its"] by simp
    moreover have "inner' = length (B ! k) - m" "m < length (B ! k)" if "po = Some m" for m
      using that True item last_size(1) pos by (cases "last its"; simp add: rest_items_def pos_ok_def)+
    ultimately show ?thesis using True size(2) last_size(2)
      by (fastforce simp: before_def m'_def history_sizes split: option.split)
  next
    case False
    with n(1) have "k < k + n - 1" by linarith
    then show ?thesis by (simp add: before_def)
  qed
  ultimately have "cut_at K B k po prev st (butlast its @ [a])
      (st\<lparr>ar_buffer := b # buffer, ar_last_archived_block := lab_at (k + n - 1) (Some m')\<rparr>) (k + n - 1) (Some m')"
    using n butlast buffer spill(2,3) rest_items_drop [OF pos n(1)] spill_size [OF laws spill(1) last_size(3)] size(2) over
    by (simp add: cut_at_def between_def rest_items_def segment_size_items)
  with spill(1) ne show thesis by (rule that)
qed

lemma segment_cut:
  assumes laws: "scale_laws K" and blocks: "blocks_ok B" and st: "standing K P B k po prev st"
    and col: "collect_items K 1 [] (ar_last_archived_block st) (ar_buffer st) = Some (Some (sz, its, lab, buffer))"
  obtains items st' k' po' where "produce_segment K P incremental st = Some (Some items, st')"
    "cut_at K B k po prev st items st' k' po'"
proof -
  from st have pos: "pos_ok B k po" by (simp add: standing_def)
  from collected [OF laws blocks st col] obtain n where n: "0 < n" "n \<le> length B - k"
    and its: "map strip its = parent_items prev @ take n (rest_items B k po)"
    and buffer: "map strip buffer = drop n (rest_items B k po)" and sz: "sz = 1 + items_size K its"
    and lab: "lab = lab_past B k po n" and fits: "fits K (sz - encoded_size K (last its)) (last its)" by blast
  show thesis
  proof (cases "sz > RecordedHistorySegment_SIZE")
    case False
    with col have "produce_segment K P incremental st =
        Some (Some its, st\<lparr>ar_buffer := buffer, ar_last_archived_block := set_complete lab\<rparr>)"
      by (simp add: produce_segment_def)
    moreover have "1 + items_size K its \<le> RecordedHistorySegment_SIZE" using False sz by simp
    ultimately show thesis by (rule that [OF _ segment_whole [OF pos n its buffer _ lab]])
  next
    case True
    from segment_spilled [OF laws blocks st n its buffer sz fits this] obtain a b m' where
      spill: "spill_item (sz - RecordedHistorySegment_SIZE) lab (last its) = Some (a, b, lab_at (k + n - 1) (Some m'))" "its \<noteq> []"
      and cut: "cut_at K B k po prev st (butlast its @ [a])
        (st\<lparr>ar_buffer := b # buffer, ar_last_archived_block := lab_at (k + n - 1) (Some m')\<rparr>) (k + n - 1) (Some m')"
      unfolding lab by blast
    with col True have "produce_segment K P incremental st = Some (Some (butlast its @ [a]),
        st\<lparr>ar_buffer := b # buffer, ar_last_archived_block := lab_at (k + n - 1) (Some m')\<rparr>)"
      by (simp add: produce_segment_def)
    from this cut show thesis by (rule that)
  qed
qed

end
