(* ===== verification/Archiver_Commitments.thy ===== *)
theory Archiver_Commitments
  imports Archiver_Invariant
begin

text \<open>
  The commitments that the archiver makes as a segment grows are those it would make at its end, and archiving a segment
  always succeeds.
\<close>

section \<open>Commitments to the records of a growing segment\<close>

text \<open>\<open>cs\<close> are the commitments to the first records of a buffer that does not fill a segment.\<close>

definition committed :: "scale_codec \<Rightarrow> ('s, 'c, 'p) coding \<Rightarrow> 'c list \<Rightarrow> segment_item list \<Rightarrow> bool" where
  "committed K P cs buf \<longleftrightarrow>
     segment_size K buf < RecordedHistorySegment_SIZE - 2 \<and> length cs * RawRecord_SIZE \<le> segment_size K buf \<and>
     (\<forall>i < length cs. commit_raw_record P (take RawRecord_SIZE (drop (i * RawRecord_SIZE) (encode_segment K buf))) = Some (cs ! i))"

lemma chunks_exact_nth: "i < length xs div n \<Longrightarrow> chunks_exact n xs ! i = take n (drop (i * n) xs)"
  by (simp add: chunks_exact_def)

lemma chunks_exact_chunk: "0 < n \<Longrightarrow> chunk \<in> set (chunks_exact n xs) \<Longrightarrow> length chunk = n"
proof -
  assume "0 < n" "chunk \<in> set (chunks_exact n xs)"
  then obtain i where i: "i < length xs div n" "chunk = take n (drop (i * n) xs)" by (auto simp: chunks_exact_def)
  then have "Suc i * n \<le> length xs div n * n" by (intro mult_le_mono1) simp
  also have "\<dots> \<le> length xs" by simp
  finally show ?thesis using i(2) by simp
qed

lemma commit_raw_record_defined:
  assumes laws: "coding_laws P" and raw: "length raw = RawRecord_SIZE"
  shows "commit_raw_record P raw \<noteq> None"
proof -
  have "scalar_from_safe P chunk \<noteq> None" if "chunk \<in> set (chunks_exact SAFE_BYTES raw)" for chunk
    using chunks_exact_chunk [OF _ that] coding_lawsD(1) [OF laws, of chunk] by (simp add: SAFE_BYTES_def)
  then have "those (map (scalar_from_safe P) (chunks_exact SAFE_BYTES raw)) =
      Some (map (\<lambda>b. the (scalar_from_safe P b)) (chunks_exact SAFE_BYTES raw))" by (rule those_map_defined)
  moreover have "length (chunks_exact SAFE_BYTES raw) = RawRecord_NUM_CHUNKS"
    using raw by (simp add: chunks_exact_def history_sizes)
  ultimately show ?thesis using commit_scalars_defined [OF laws] by (simp add: commit_raw_record_def del: not_None_eq)
qed

lemma update_record_commitments_committed:
  assumes laws: "coding_laws P" and cs: "committed K P cs buf"
  obtains cs' where "update_record_commitments K P buf cs = Some cs'" "committed K P cs' buf"
proof -
  let ?enc = "encode_segment K buf"
  let ?rest = "drop (length cs * RawRecord_SIZE) ?enc"
  let ?chunks = "chunks_exact RawRecord_SIZE ?rest"
  let ?new = "map (\<lambda>r. the (commit_raw_record P r)) ?chunks"
  have pos: "0 < RawRecord_SIZE" by (simp add: history_sizes)
  have defined: "commit_raw_record P r \<noteq> None" if "r \<in> set ?chunks" for r
    using chunks_exact_chunk [OF pos that] by (rule commit_raw_record_defined [OF laws])
  from those_map_defined [of ?chunks, OF this]
  have upd: "update_record_commitments K P buf cs = Some (cs @ ?new)" by (simp add: update_record_commitments_def)
  have len: "length ?chunks = (segment_size K buf - length cs * RawRecord_SIZE) div RawRecord_SIZE"
    by (simp add: chunks_exact_def segment_size_def)
  have "length ?chunks * RawRecord_SIZE \<le> segment_size K buf - length cs * RawRecord_SIZE"
    unfolding len by (rule div_times_less_eq_dividend)
  moreover have "length cs * RawRecord_SIZE \<le> segment_size K buf" using cs by (simp add: committed_def)
  ultimately have "length (cs @ ?new) * RawRecord_SIZE \<le> segment_size K buf" unfolding length_append length_map add_mult_distrib
    by linarith
  moreover have "commit_raw_record P (take RawRecord_SIZE (drop (i * RawRecord_SIZE) ?enc)) = Some ((cs @ ?new) ! i)"
    if "i < length (cs @ ?new)" for i
  proof (cases "i < length cs")
    case True
    then show ?thesis using cs by (simp add: committed_def nth_append)
  next
    case False
    with that have j: "i - length cs < length ?chunks" by simp
    have "?chunks ! (i - length cs) = take RawRecord_SIZE (drop (i * RawRecord_SIZE) ?enc)"
      using j False by (simp add: chunks_exact_def flip: add_mult_distrib)
    moreover have "commit_raw_record P (?chunks ! (i - length cs)) \<noteq> None" using j by (intro defined nth_mem)
    ultimately show ?thesis using False j by (auto simp: nth_append)
  qed
  ultimately have "committed K P (cs @ ?new) buf" using cs by (simp add: committed_def)
  with upd show thesis by (rule that)
qed

text \<open>They are commitments to the records of every segment that begins with the buffer.\<close>

lemma commit_raw_record_source:
  assumes laws: "coding_laws P" and data: "length data = RecordedHistorySegment_SIZE" and r: "r < NUM_RAW_RECORDS"
  shows "commit_raw_record P (take RawRecord_SIZE (drop (r * RawRecord_SIZE) data)) = Some (record_commitment_of P data r)"
proof -
  let ?raw = "take RawRecord_SIZE (drop (r * RawRecord_SIZE) data)"
  have len: "length ?raw = RawRecord_SIZE" using data r by (simp add: history_sizes)
  have count: "RawRecord_SIZE div SAFE_BYTES = RawRecord_NUM_CHUNKS" by (simp add: history_sizes)
  have "take SAFE_BYTES (drop (j * SAFE_BYTES) ?raw) = record_chunk data r j" if "j < RawRecord_NUM_CHUNKS" for j
  proof -
    from that have "SAFE_BYTES \<le> RawRecord_SIZE - j * SAFE_BYTES" by (simp add: history_sizes)
    then show ?thesis by (simp add: record_chunk_def drop_take min_absorb1 add.commute)
  qed
  then have "chunks_exact SAFE_BYTES ?raw = map (record_chunk data r) [0..<RawRecord_NUM_CHUNKS]"
    unfolding chunks_exact_def len count by simp
  moreover have "those (map (scalar_from_safe P) (map (record_chunk data r) [0..<RawRecord_NUM_CHUNKS])) =
      Some (map (\<lambda>j. source_scalars P data j ! r) [0..<RawRecord_NUM_CHUNKS])"
    unfolding map_map comp_def using source_scalar(1) [OF laws data r] by (intro those_map_Some) simp
  moreover have "commit_scalars P (map (\<lambda>j. source_scalars P data j ! r) [0..<RawRecord_NUM_CHUNKS]) \<noteq> None"
    by (intro commit_scalars_defined [OF laws]) simp
  ultimately show ?thesis by (auto simp: commit_raw_record_def record_commitment_of_def)
qed

lemma committed_records:
  assumes laws: "coding_laws P" and cs: "committed K P cs buf" and data: "length data = RecordedHistorySegment_SIZE"
    and pre: "take (segment_size K buf) data = encode_segment K buf"
  shows "cs = take (length cs) (record_commitments_of P data)" "length cs \<le> NUM_RAW_RECORDS"
proof -
  have "length cs * RawRecord_SIZE \<le> NUM_RAW_RECORDS * RawRecord_SIZE"
    using cs unfolding committed_def RecordedHistorySegment_SIZE_def by (simp only: mult.commute) linarith
  then show len: "length cs \<le> NUM_RAW_RECORDS" by (simp add: RawRecord_SIZE_def RawRecord_NUM_CHUNKS_def SAFE_BYTES_def)
  have "cs ! i = record_commitment_of P data i" if i: "i < length cs" for i
  proof -
    have "Suc i * RawRecord_SIZE \<le> length cs * RawRecord_SIZE" using i by (intro mult_le_mono1) simp
    also have "\<dots> \<le> segment_size K buf" using cs by (simp add: committed_def)
    finally have "take RawRecord_SIZE (drop (i * RawRecord_SIZE) (encode_segment K buf)) =
        take RawRecord_SIZE (drop (i * RawRecord_SIZE) data)"
      unfolding pre [symmetric] by (simp add: drop_take min_def)
    then show ?thesis using cs i commit_raw_record_source [OF laws data, of i] len by (auto simp: committed_def)
  qed
  then show "cs = take (length cs) (record_commitments_of P data)"
    using len by (intro nth_equalityI) (simp_all add: record_commitments_of_def)
qed

section \<open>Archiving a segment\<close>

lemma length_segment_data: "segment_size K items \<le> RecordedHistorySegment_SIZE \<Longrightarrow> length (segment_data K items) = RecordedHistorySegment_SIZE"
  by (simp add: segment_data_def segment_size_def)

lemma segment_data_strip: "map strip xs = map strip ys \<Longrightarrow> segment_data K xs = segment_data K ys"
  using encode_segment_strip [of xs ys K] by (simp add: segment_data_def segment_size_def)

text \<open>The pieces and the header of a segment, whatever was committed to before.\<close>

definition archives ::
    "scale_codec \<Rightarrow> ('s, 'c, 'p) coding \<Rightarrow> segment \<Rightarrow> segment_index \<Rightarrow> octets \<Rightarrow> last_archived_block \<Rightarrow>
       new_archived_segment \<Rightarrow> bool" where
  "archives K P items index prev_hash lab archived \<longleftrightarrow>
     (\<exists>commitments polynomial c.
        pieces_of P (segment_data K items) commitments polynomial (na_pieces archived) \<and> kzg_commit P polynomial = Some c \<and>
        na_segment_header archived =
          \<lparr>sh_segment_index = index, sh_segment_commitment = commitment_to_bytes P c,
           sh_prev_segment_header_hash = prev_hash, sh_last_archived_block = lab\<rparr>)"

lemma archives_unique:
  assumes "archives K P items index prev_hash lab a" "archives K P items index prev_hash lab b"
  shows "a = b"
  using assms by (cases a; cases b) (auto simp: archives_def pieces_of_def)

definition after_segment :: "scale_codec \<Rightarrow> ('s, 'c, 'p) coding \<Rightarrow> new_archived_segment \<Rightarrow> 'c archiver \<Rightarrow> 'c archiver" where
  "after_segment K P archived st =
     st\<lparr>ar_incremental_record_commitments := [], ar_segment_index := ar_segment_index st + 1,
        ar_prev_segment_header_hash := SegmentHeader_hash K P (na_segment_header archived),
        ar_buffer := ParentSegmentHeader (na_segment_header archived) # ar_buffer st\<rparr>"

lemma source_commitments:
  assumes "coding_laws P" "length data = RecordedHistorySegment_SIZE"
  shows "those (map (commit_record P) (drop n (step_by_2 (records_of P data)))) = Some (drop n (record_commitments_of P data))"
proof -
  have len: "length (records_of P data) = NUM_PIECES" by (simp add: records_of_def)
  have "length (step_by_2 (records_of P data)) = NUM_RAW_RECORDS" by (simp add: len history_sizes)
  then have "map (commit_record P) (step_by_2 (records_of P data)) = map Some (record_commitments_of P data)"
    using commit_source_record(2) [OF assms] len
    by (intro nth_equalityI) (simp_all add: record_commitments_of_def step_by_2_nth history_sizes)
  then have "map (commit_record P) (drop n (step_by_2 (records_of P data))) = map Some (drop n (record_commitments_of P data))"
    by (simp flip: drop_map)
  then show ?thesis using those_map_Some [of _ Some id] by simp
qed

lemma produce_archived_segment_result:
  assumes laws: "coding_laws P" and size: "segment_size K items \<le> RecordedHistorySegment_SIZE"
    and cs: "committed K P (ar_incremental_record_commitments st) buf"
    and pre: "take (segment_size K buf) (segment_data K items) = encode_segment K buf"
  obtains archived where "produce_archived_segment K P items st = Some (archived, after_segment K P archived st)"
    "archives K P items (ar_segment_index st) (ar_prev_segment_header_hash st) (ar_last_archived_block st) archived"
proof -
  let ?data = "segment_data K items" and ?cs = "ar_incremental_record_commitments st"
  let ?archived = "\<lambda>c pieces. \<lparr>na_segment_header =
      \<lparr>sh_segment_index = ar_segment_index st, sh_segment_commitment = commitment_to_bytes P c,
       sh_prev_segment_header_hash = ar_prev_segment_header_hash st, sh_last_archived_block = ar_last_archived_block st\<rparr>,
      na_pieces = pieces\<rparr>"
  note data = length_segment_data [OF size]
  obtain commitments polynomial pieces where pieces: "pieces_of P ?data commitments polynomial pieces"
    using pieces_exist [OF laws data] by blast
  obtain c where c: "kzg_commit P polynomial = Some c" using coding_lawsD(9) [OF laws] by blast
  have "?cs @ drop (length ?cs) (record_commitments_of P ?data) = record_commitments_of P ?data"
    using committed_records(1) [OF laws cs data pre] by (metis append_take_drop_id)
  then have "produce_archived_segment K P items st = Some (?archived c pieces, after_segment K P (?archived c pieces) st)"
    using pieces c
    by (simp add: produce_archived_segment_def coded_records [OF laws data] source_commitments [OF laws data] pieces_of_def
        after_segment_def Let_def)
  moreover have "archives K P items (ar_segment_index st) (ar_prev_segment_header_hash st) (ar_last_archived_block st) (?archived c pieces)"
    unfolding archives_def by (rule exI [of _ commitments], rule exI [of _ polynomial], rule exI [of _ c]) (simp add: pieces c)
  ultimately show thesis by (rule that)
qed

end
