(* ===== verification/Archiver_Run.thy ===== *)
theory Archiver_Run
  imports Archiver_Commitments
begin

text \<open>
  Adding blocks. The loop that produces segments always ends, without a panic, in a state whose buffer does not fill a
  segment; the segments it produces meet at positions that only move forward, and neither they nor the object mappings
  depend on whether commitments are made incrementally.
\<close>

section \<open>Object mappings\<close>

text \<open>An item of the buffer whose objects begin inside of it.\<close>

fun mappable :: "segment_item \<Rightarrow> bool" where
  "mappable Padding = False"
| "mappable (Block bs m) \<longleftrightarrow> (\<forall>b \<in> set m. bo_offset b < length bs)"
| "mappable (BlockStart bs m) \<longleftrightarrow> (\<forall>b \<in> set m. bo_offset b < length bs)"
| "mappable (BlockContinuation bs m) \<longleftrightarrow> (\<forall>b \<in> set m. bo_offset b < length bs)"
| "mappable (ParentSegmentHeader h) = True"

lemma drain_objects_mappable:
  assumes "mappable item"
  shows "\<exists>bs objects. drain_objects item = Some (bs, objects, strip item) \<and>
    (\<forall>b \<in> set objects. 1 + compact_len K (length bs) + bo_offset b < encoded_size K item)"
  using assms by (cases item) auto

lemma object_mappings_defined:
  assumes "\<forall>item \<in> set items. mappable item" "base + items_size K items \<le> RecordedHistorySegment_SIZE"
    and "length idx = NUM_RAW_RECORDS"
  shows "\<exists>maps. object_mappings_from K idx base items = Some (maps, map strip items)"
  using assms(1,2)
proof (induction items arbitrary: base)
  case (Cons item items)
  from Cons.prems(1) have "mappable item" by simp
  then obtain bs objects where drain: "drain_objects item = Some (bs, objects, strip item)"
    "\<forall>b \<in> set objects. 1 + compact_len K (length bs) + bo_offset b < encoded_size K item"
    using drain_objects_mappable by blast
  have "global_object_of K idx base bs b \<noteq> None" if "b \<in> set objects" for b
  proof -
    have "base + 1 + compact_len K (length bs) + bo_offset b < NUM_RAW_RECORDS * RawRecord_SIZE"
      using bspec [OF drain(2) that] Cons.prems(2) by (simp add: RecordedHistorySegment_SIZE_def mult.commute)
    then show ?thesis using assms(3)
      by (simp add: global_object_of_def Let_def less_mult_imp_div_less)
  qed
  then obtain mapping where "those (map (global_object_of K idx base bs) objects) = Some mapping"
    using those_map_defined [of objects "global_object_of K idx base bs"] by blast
  moreover obtain maps where "object_mappings_from K idx (base + encoded_size K item) items = Some (maps, map strip items)"
    using Cons.IH [of "base + encoded_size K item"] Cons.prems by (auto simp: add.assoc)
  ultimately show ?case using drain(1) by simp
qed simp

lemma produce_object_mappings_defined:
  assumes "\<forall>item \<in> set items. mappable item" "segment_size K items \<le> RecordedHistorySegment_SIZE"
  obtains maps where "produce_object_mappings K i items = Some (maps, map strip items)"
proof -
  have "length (segment_piece_indexes i) = NUM_PIECES" by (simp add: segment_piece_indexes_def Let_def min_def del: upt_Suc)
  then have "length (take NUM_RAW_RECORDS (segment_piece_indexes_source_first i)) = NUM_RAW_RECORDS"
    by (simp add: segment_piece_indexes_source_first_def Let_def history_sizes)
  from object_mappings_defined [OF assms(1) _ this, of 1 K] assms(2) that show thesis
    by (auto simp: produce_object_mappings_def segment_size_items)
qed

lemma mappable_strip: "item \<noteq> Padding \<Longrightarrow> mappable (strip item)"
  by (cases item) simp_all

lemma spill_mappable:
  assumes "spill_item n lab item = Some (a, b, lab')" "mappable item"
  shows "mappable a" "mappable b"
  using assms
  by (cases item; auto simp: Let_def bind_eq_Some_conv objects_before_def objects_after_def less_diff_conv split: if_splits)+

section \<open>One segment\<close>

lemma produce_segment_Some:
  assumes "produce_segment K P incremental st = Some (Some items, st')"
  shows "\<exists>sz its lab buffer.
    collect_items K 1 [] (ar_last_archived_block st) (ar_buffer st) = Some (Some (sz, its, lab, buffer)) \<and>
    (if sz \<le> RecordedHistorySegment_SIZE then items = its \<and> ar_buffer st' = buffer
     else \<exists>a b lab'. spill_item (sz - RecordedHistorySegment_SIZE) lab (last its) = Some (a, b, lab') \<and>
       its \<noteq> [] \<and> items = butlast its @ [a] \<and> ar_buffer st' = b # buffer)"
proof -
  from assms obtain collected where col: "collect_items K 1 [] (ar_last_archived_block st) (ar_buffer st) = Some collected"
    by (auto simp: produce_segment_def bind_eq_Some_conv)
  with assms obtain sz its lab buffer where c: "collected = Some (sz, its, lab, buffer)"
    by (cases collected) (auto simp: produce_segment_def Let_def bind_eq_Some_conv split: if_splits)
  then show ?thesis
    using assms col
    by (intro exI [of _ sz] exI [of _ its] exI [of _ lab] exI [of _ buffer])
      (auto simp: produce_segment_def Let_def bind_eq_Some_conv split: if_splits)
qed

text \<open>The whole of a buffer that does not fill a segment opens the next segment.\<close>

lemma segment_keeps_prefix:
  assumes run: "produce_segment K P incremental st = Some (Some items, st')"
    and buf: "ar_buffer st = buf @ rest" "segment_size K buf < RecordedHistorySegment_SIZE - 2"
  obtains extra where "items = buf @ extra"
proof -
  from produce_segment_Some [OF run] obtain sz its lab buffer where
    col: "collect_items K 1 [] (ar_last_archived_block st) (ar_buffer st) = Some (Some (sz, its, lab, buffer))"
    and items: "if sz \<le> RecordedHistorySegment_SIZE then items = its else \<exists>a. its \<noteq> [] \<and> items = butlast its @ [a]"
    by (auto split: if_splits)
  from collect_items_taken [OF col] have its: "ar_buffer st = its @ buffer" "sz = 1 + items_size K its"
    and stop: "sz < RecordedHistorySegment_SIZE - 2 \<Longrightarrow> \<exists>item inner. buffer \<noteq> [] \<and> hd buffer = item \<and>
       inner_bytes_size item = Some inner \<and> sz + encoded_size K item > RecordedHistorySegment_SIZE + inner" by auto
  from its(1) buf(1) obtain x where x: "its = buf @ x \<or> buf = its @ x" by (auto simp: append_eq_append_conv2)
  have "\<exists>x. its = buf @ x"
  proof (cases x)
    case (Cons y ys)
    have False if b: "buf = its @ y # ys"
    proof -
      have "sz + encoded_size K y < RecordedHistorySegment_SIZE - 2" using buf(2) its(2) by (simp add: b segment_size_items)
      moreover have "hd buffer = y" using its(1) buf(1) by (auto simp: b)
      ultimately show False using stop by auto
    qed
    with x Cons show ?thesis by blast
  qed (use x in auto)
  then obtain x where x: "its = buf @ x" by blast
  show thesis
  proof (cases "sz \<le> RecordedHistorySegment_SIZE")
    case False
    with buf(2) its(2) x have "x \<noteq> []" by (auto simp: segment_size_items)
    with items False x that show thesis by (auto simp: butlast_append)
  qed (use items x that in auto)
qed

lemma prefix_data: "take (segment_size K buf) (segment_data K (buf @ extra)) = encode_segment K buf"
  by (simp add: segment_data_def encode_segment_def segment_size_def)

lemma committed_extend:
  assumes "committed K P cs buf" "segment_size K (buf @ rest) < RecordedHistorySegment_SIZE - 2"
  shows "committed K P cs (buf @ rest)"
proof -
  have "take RawRecord_SIZE (drop (i * RawRecord_SIZE) (encode_segment K (buf @ rest))) =
      take RawRecord_SIZE (drop (i * RawRecord_SIZE) (encode_segment K buf))" if "i < length cs" for i
  proof -
    have "Suc i * RawRecord_SIZE \<le> length cs * RawRecord_SIZE" using that by (intro mult_le_mono1) simp
    also have "\<dots> \<le> segment_size K buf" using assms(1) by (simp add: committed_def)
    finally have "RawRecord_SIZE + i * RawRecord_SIZE \<le> length (encode_segment K buf)" by (simp add: segment_size_def)
    moreover have "encode_segment K (buf @ rest) = encode_segment K buf @ concat (map (encode_item K) rest)"
      by (simp add: encode_segment_def)
    ultimately show ?thesis by simp
  qed
  moreover have "length cs * RawRecord_SIZE \<le> segment_size K (buf @ rest)" using assms(1) by (simp add: committed_def)
  ultimately show ?thesis using assms by (simp add: committed_def)
qed

text \<open>What is committed to, and the objects of the buffer.\<close>

definition growing :: "scale_codec \<Rightarrow> ('s, 'c, 'p) coding \<Rightarrow> 'c archiver \<Rightarrow> bool" where
  "growing K P st \<longleftrightarrow>
     (\<exists>buf rest. ar_buffer st = buf @ rest \<and> committed K P (ar_incremental_record_commitments st) buf) \<and>
     (\<forall>item \<in> set (ar_buffer st). mappable item)"

abbreviation with_commitments :: "'c archiver \<Rightarrow> 'c list \<Rightarrow> 'c archiver" where
  "with_commitments st cs \<equiv> st\<lparr>ar_incremental_record_commitments := cs\<rparr>"

text \<open>Where the buffer does not fill a segment, at most the commitments change.\<close>

lemma produce_segment_None:
  assumes laws: "coding_laws P" and st: "growing K P st"
    and col: "collect_items K 1 [] (ar_last_archived_block st) (ar_buffer st) = Some None"
  obtains cs where "produce_segment K P incremental st = Some (None, with_commitments st cs)" "committed K P cs (ar_buffer st)"
proof -
  let ?cs = "ar_incremental_record_commitments st"
  from collect_items_short [OF col] have "segment_size K (ar_buffer st) < RecordedHistorySegment_SIZE - 2"
    by (simp add: segment_size_items)
  then have cs: "committed K P ?cs (ar_buffer st)" using st committed_extend by (auto simp: growing_def)
  then have "length ?cs * RawRecord_SIZE \<le> segment_size K (ar_buffer st)" by (simp add: committed_def)
  then obtain rest where rest: "checked_sub (segment_size K (ar_buffer st)) (length ?cs * RawRecord_SIZE) = Some rest"
    by (simp add: checked_sub_def)
  obtain cs' where upd: "update_record_commitments K P (ar_buffer st) ?cs = Some cs'" "committed K P cs' (ar_buffer st)"
    using update_record_commitments_committed [OF laws cs] by blast
  show thesis
  proof (cases "incremental \<and> rest \<ge> RawRecord_SIZE * 2")
    case True
    with col rest upd that [of cs'] show thesis by (simp add: produce_segment_def Let_def)
  next
    case False
    with col rest cs that [of ?cs] show thesis by (auto simp: produce_segment_def Let_def)
  qed
qed

lemma produce_segment_any:
  assumes "collect_items K 1 [] (ar_last_archived_block st) (ar_buffer st) = Some (Some c)"
  shows "produce_segment K P incremental (with_commitments st cs) =
    map_option (\<lambda>(items, s). (items, with_commitments s cs)) (produce_segment K P incremental' st)"
proof -
  obtain sz its lab buffer where c: "c = (sz, its, lab, buffer)" by (cases c)
  show ?thesis
    using assms by (cases "spill_item (sz - RecordedHistorySegment_SIZE) lab (last its)") (auto simp: c produce_segment_def Let_def)
qed

lemma segment_mappable:
  assumes run: "produce_segment K P incremental st = Some (Some items, st')" and "\<forall>item \<in> set (ar_buffer st). mappable item"
  shows "\<forall>item \<in> set items. mappable item" "\<forall>item \<in> set (ar_buffer st'). mappable item"
proof -
  from produce_segment_Some [OF run] obtain sz its lab buffer where
    col: "collect_items K 1 [] (ar_last_archived_block st) (ar_buffer st) = Some (Some (sz, its, lab, buffer))"
    and items: "if sz \<le> RecordedHistorySegment_SIZE then items = its \<and> ar_buffer st' = buffer
      else \<exists>a b lab'. spill_item (sz - RecordedHistorySegment_SIZE) lab (last its) = Some (a, b, lab') \<and>
        its \<noteq> [] \<and> items = butlast its @ [a] \<and> ar_buffer st' = b # buffer" by auto
  from collect_items_taken [OF col] have "ar_buffer st = its @ buffer" by auto
  with assms(2) have m: "\<forall>item \<in> set its. mappable item" "\<forall>item \<in> set buffer. mappable item" by auto
  have "mappable a \<and> mappable b"
    if "spill_item (sz - RecordedHistorySegment_SIZE) lab (last its) = Some (a, b, lab')" "its \<noteq> []" for a b lab'
    using spill_mappable [OF that(1)] m(1) that(2) by simp
  with items m show "\<forall>item \<in> set items. mappable item" "\<forall>item \<in> set (ar_buffer st'). mappable item"
    by (auto split: if_splits dest!: in_set_butlastD)
qed

section \<open>Runs of segments\<close>

definition next_index :: "segment_header option \<Rightarrow> segment_index" where
  "next_index prev = (case prev of None \<Rightarrow> 0 | Some h \<Rightarrow> sh_segment_index h + 1)"

definition parent_hash :: "scale_codec \<Rightarrow> ('s, 'c, 'p) coding \<Rightarrow> segment_header option \<Rightarrow> octets" where
  "parent_hash K P prev = (case prev of None \<Rightarrow> replicate 32 0 | Some h \<Rightarrow> SegmentHeader_hash K P h)"

text \<open>Segments one after the other, from a position and the header before it to another position.\<close>

inductive archived_run ::
    "scale_codec \<Rightarrow> ('s, 'c, 'p) coding \<Rightarrow> octets list \<Rightarrow> nat \<times> nat option \<times> segment_header option \<Rightarrow>
       new_archived_segment list \<Rightarrow> nat \<times> nat option \<times> segment_header option \<Rightarrow> bool" for K P B where
  run_done: "archived_run K P B p [] p"
| run_segment:
    "before k po k' po' \<Longrightarrow> pos_ok B k' po' \<Longrightarrow>
     segment_size K (parent_items prev @ between B k po k' po') \<le> RecordedHistorySegment_SIZE \<Longrightarrow>
     archives K P (parent_items prev @ between B k po k' po') (next_index prev) (parent_hash K P prev) (lab_at k' po') a \<Longrightarrow>
     wf_header (na_segment_header a) \<Longrightarrow>
     archived_run K P B (k', po', Some (na_segment_header a)) segments p \<Longrightarrow>
     archived_run K P B (k, po, prev) (a # segments) p"

inductive_cases run_doneE: "archived_run K P B p [] p'"
inductive_cases run_segmentE: "archived_run K P B p (a # segments) p'"

lemma archived_run_append:
  "archived_run K P B p xs p' \<Longrightarrow> archived_run K P B p' ys p'' \<Longrightarrow> archived_run K P B p (xs @ ys) p''"
  by (induction rule: archived_run.induct) (auto intro: archived_run.intros)

text \<open>Every segment is closer to the end of the blocks.\<close>

definition rank :: "octets list \<Rightarrow> nat \<Rightarrow> nat option \<Rightarrow> nat" where
  "rank B k po = sum_list (map (\<lambda>b. Suc (length b)) (drop k B)) - (case po of None \<Rightarrow> 0 | Some m \<Rightarrow> Suc m)"

lemma before_rank:
  assumes "before k po k' po'" "pos_ok B k po" "pos_ok B k' po'"
  shows "rank B k' po' < rank B k po"
proof -
  let ?S = "\<lambda>k. sum_list (map (\<lambda>b. Suc (length b)) (drop k B))"
  have step: "?S k = Suc (length (B ! k)) + ?S (Suc k)" if "k < length B" for k
    using that by (simp flip: Cons_nth_drop_Suc)
  have k: "k < length B" using assms by (auto simp: before_def pos_ok_def split: option.splits)
  show ?thesis
  proof (cases "k = k'")
    case True
    with assms k step [OF k] show ?thesis by (auto simp: before_def pos_ok_def rank_def split: option.splits)
  next
    case False
    with assms(1) have "Suc k \<le> k'" by (auto simp: before_def)
    moreover have "?S (Suc n) \<le> ?S n" for n using step [of n] by (cases "n < length B") simp_all
    ultimately have "?S k' \<le> ?S (Suc k)" using lift_Suc_antimono_le [of ?S] by blast
    then show ?thesis using step [OF k] assms(2) by (auto simp: rank_def pos_ok_def split: option.splits)
  qed
qed

lemma standing_parent:
  assumes "standing K P B k po prev st"
  shows "ar_segment_index st = next_index prev" "ar_prev_segment_header_hash st = parent_hash K P prev"
  using assms by (auto simp: standing_def next_index_def parent_hash_def split: option.splits)

lemma lab_at_wf:
  assumes "blocks_ok B" "pos_ok B k po"
  shows "lab_number (lab_at k po) < 2 ^ 32" "wf_progress (lab_archived_progress (lab_at k po))"
proof -
  have "m < 2 ^ 32" if "po = Some m" for m
    using that assms(2) less_trans [OF _ blocks_ok_nth [OF assms(1)], of m k] by (simp add: pos_ok_def)
  then show "lab_number (lab_at k po) < 2 ^ 32" "wf_progress (lab_archived_progress (lab_at k po))"
    using assms by (auto simp: lab_at_def pos_ok_def blocks_ok_def INITIAL_LAST_ARCHIVED_BLOCK_def split: option.split)
qed

lemma archives_wf_header:
  assumes "coding_laws P" "blocks_ok B" "pos_ok B k po" "archives K P items i (parent_hash K P prev) (lab_at k po) a"
  shows "wf_header (na_segment_header a)" "sh_segment_index (na_segment_header a) = i"
    "sh_last_archived_block (na_segment_header a) = lab_at k po"
proof -
  have "length (parent_hash K P prev) = 32"
    using coding_lawsD(5) [OF assms(1)] by (simp add: parent_hash_def SegmentHeader_hash_def split: option.split)
  with assms(4) lab_at_wf [OF assms(2,3)] coding_lawsD(12) [OF assms(1)]
  show "wf_header (na_segment_header a)" "sh_segment_index (na_segment_header a) = i"
    "sh_last_archived_block (na_segment_header a) = lab_at k po"
    by (auto simp: archives_def wf_header_def)
qed

lemma standing_commitments [simp]: "standing K P B k po prev (with_commitments st cs) = standing K P B k po prev st"
  by (simp add: standing_def split: option.split)

lemma committed_nothing: "committed K P [] []"
  by (simp add: committed_def history_sizes)

lemma archive_strip:
  assumes P: "coding_laws P" and run: "produce_segment K P incremental (with_commitments st cs) = Some (Some items, with_commitments st1 cs)"
    and size: "segment_size K items \<le> RecordedHistorySegment_SIZE" and st: "growing K P (with_commitments st cs)"
  obtains a where "produce_archived_segment K P (map strip items) (with_commitments st1 cs) = Some (a, after_segment K P a st1)"
    "archives K P (map strip items) (ar_segment_index st1) (ar_prev_segment_header_hash st1) (ar_last_archived_block st1) a"
proof -
  from st obtain buf rest where buf: "ar_buffer (with_commitments st cs) = buf @ rest" "committed K P cs buf"
    by (auto simp: growing_def)
  from segment_keeps_prefix [OF run buf(1)] buf(2) obtain extra where "items = buf @ extra" by (auto simp: committed_def)
  then have "take (segment_size K buf) (segment_data K (map strip items)) = encode_segment K buf"
    using segment_data_strip [of "map strip items" items K] prefix_data by (simp add: comp_def)
  with produce_archived_segment_result [OF P, of K "map strip items" "with_commitments st1 cs" buf] size buf(2) that
  show thesis by (auto simp: segment_size_items after_segment_def)
qed

text \<open>One round of the loop, whatever the commitments are.\<close>

lemma segment_step:
  assumes K: "scale_laws K" and P: "coding_laws P" and blocks: "blocks_ok B" and st: "standing K P B k po prev st"
    and col: "collect_items K 1 [] (ar_last_archived_block st) (ar_buffer st) = Some (Some c)"
    and map: "\<forall>item \<in> set (ar_buffer st). mappable item"
  obtains items st1 maps a st2 k' po' where
    "\<forall>incremental cs. growing K P (with_commitments st cs) \<longrightarrow>
       produce_segment K P incremental (with_commitments st cs) = Some (Some items, with_commitments st1 cs) \<and>
       produce_archived_segment K P (map strip items) (with_commitments st1 cs) = Some (a, st2)"
    "produce_object_mappings K (ar_segment_index st1) items = Some (maps, map strip items)"
    "before k po k' po'" "pos_ok B k' po'"
    "segment_size K (parent_items prev @ between B k po k' po') \<le> RecordedHistorySegment_SIZE"
    "archives K P (parent_items prev @ between B k po k' po') (next_index prev) (parent_hash K P prev) (lab_at k' po') a"
    "standing K P B k' po' (Some (na_segment_header a)) st2" "growing K P st2"
proof -
  obtain sz its lab buffer where "c = (sz, its, lab, buffer)" by (cases c)
  from segment_cut [OF K blocks st col [unfolded this]] obtain items st1 k' po' where
    run: "produce_segment K P False st = Some (Some items, st1)" and cut: "cut_at K B k po prev st items st1 k' po'" by blast
  from cut have pos': "before k po k' po'" "pos_ok B k' po'" and items: "map strip items = parent_items prev @ between B k po k' po'"
    and buffer: "map strip (ar_buffer st1) = rest_items B k' po'" and size: "segment_size K items \<le> RecordedHistorySegment_SIZE"
    and st1: "st1 = st\<lparr>ar_buffer := ar_buffer st1, ar_last_archived_block := lab_at k' po'\<rparr>" by (simp_all add: cut_at_def)
  have fields: "ar_segment_index st1 = next_index prev" "ar_prev_segment_header_hash st1 = parent_hash K P prev"
    "ar_last_archived_block st1 = lab_at k' po'"
    using standing_parent [OF st] by (simp_all add: arg_cong [OF st1, of ar_segment_index]
      arg_cong [OF st1, of ar_prev_segment_header_hash] arg_cong [OF st1, of ar_last_archived_block])
  have any: "produce_segment K P incremental (with_commitments st cs) = Some (Some items, with_commitments st1 cs)" for incremental cs
    using produce_segment_any [OF col, of P incremental cs False] run by simp
  note mappable = segment_mappable [OF run map]
  have "growing K P (with_commitments st [])" using map committed_nothing by (auto simp: growing_def)
  from archive_strip [OF P any size this] obtain a where a: "archives K P (map strip items) (next_index prev) (parent_hash K P prev) (lab_at k' po') a"
    by (auto simp: fields)
  have archived: "produce_archived_segment K P (map strip items) (with_commitments st1 cs) = Some (a, after_segment K P a st1)"
    if "growing K P (with_commitments st cs)" for cs
    using archive_strip [OF P any size that] archives_unique [OF a] by (auto simp: fields)
  note h = archives_wf_header [OF P blocks pos'(2) a]
  have "standing K P B k' po' (Some (na_segment_header a)) (after_segment K P a st1)"
    using pos'(2) h buffer fields by (simp add: standing_def after_segment_def parent_items_def)
  moreover have "growing K P (after_segment K P a st1)"
    using mappable(2) committed_nothing by (auto simp: growing_def after_segment_def)
  moreover obtain maps where "produce_object_mappings K (ar_segment_index st1) items = Some (maps, map strip items)"
    using produce_object_mappings_defined [OF mappable(1) size] by blast
  moreover have "segment_size K (parent_items prev @ between B k po k' po') \<le> RecordedHistorySegment_SIZE"
    using size unfolding items [symmetric] by (simp add: segment_size_items)
  ultimately show thesis using any archived pos' a [unfolded items] by (intro that) blast+
qed

lemma produce_segments_run:
  assumes laws: "scale_laws K" "coding_laws P" "blocks_ok B"
    and "standing K P B k po prev st" "\<forall>item \<in> set (ar_buffer st). mappable item"
  shows "\<exists>segments maps st' k' po' prev'. archived_run K P B (k, po, prev) segments (k', po', prev') \<and>
    standing K P B k' po' prev' st' \<and> (\<forall>item \<in> set (ar_buffer st'). mappable item) \<and>
    (\<forall>incremental cs. growing K P (with_commitments st cs) \<longrightarrow>
      (\<exists>cs'. produce_segments K P incremental (with_commitments st cs) = Some (segments, maps, with_commitments st' cs') \<and>
        committed K P cs' (ar_buffer st')))"
  using assms(4,5)
proof (induction "rank B k po" arbitrary: k po prev st rule: less_induct)
  case less
  obtain collected where col: "collect_items K 1 [] (ar_last_archived_block st) (ar_buffer st) = Some collected"
    using collect_items_total [OF laws(1,3) less.prems(1)] by blast
  show ?case
  proof (cases collected)
    case None
    have "\<exists>cs'. produce_segments K P incremental (with_commitments st cs) = Some ([], [], with_commitments st cs') \<and>
        committed K P cs' (ar_buffer st)" if "growing K P (with_commitments st cs)" for incremental cs
    proof -
      from col None have "collect_items K 1 [] (ar_last_archived_block (with_commitments st cs)) (ar_buffer (with_commitments st cs)) = Some None"
        by simp
      from produce_segment_None [OF laws(2) that this, of incremental] obtain cs' where
        "produce_segment K P incremental (with_commitments st cs) = Some (None, with_commitments st cs')" "committed K P cs' (ar_buffer st)"
        by auto
      then show ?thesis by (subst produce_segments.simps) auto
    qed
    with less.prems run_done show ?thesis by blast
  next
    case (Some c)
    show ?thesis
    proof (rule segment_step [OF laws less.prems(1) col [unfolded Some] less.prems(2)])
      fix items st1 maps a st2 k' po'
      assume step: "\<forall>incremental cs. growing K P (with_commitments st cs) \<longrightarrow>
         produce_segment K P incremental (with_commitments st cs) = Some (Some items, with_commitments st1 cs) \<and>
         produce_archived_segment K P (map strip items) (with_commitments st1 cs) = Some (a, st2)"
      and mapping: "produce_object_mappings K (ar_segment_index st1) items = Some (maps, map strip items)"
      and pos': "before k po k' po'" "pos_ok B k' po'"
      and size: "segment_size K (parent_items prev @ between B k po k' po') \<le> RecordedHistorySegment_SIZE"
      and a: "archives K P (parent_items prev @ between B k po k' po') (next_index prev) (parent_hash K P prev) (lab_at k' po') a"
      and st2: "standing K P B k' po' (Some (na_segment_header a)) st2" "growing K P st2"
      have "rank B k' po' < rank B k po"
        using before_rank [OF pos'(1) _ pos'(2)] less.prems(1) by (simp add: standing_def)
      from less.hyps [OF this st2(1)] st2(2) obtain segments maps' st' k'' po'' prev'' where
        rest: "archived_run K P B (k', po', Some (na_segment_header a)) segments (k'', po'', prev'')"
          "standing K P B k'' po'' prev'' st'" "\<forall>item \<in> set (ar_buffer st'). mappable item"
        and loop: "\<forall>incremental cs. growing K P (with_commitments st2 cs) \<longrightarrow>
          (\<exists>cs'. produce_segments K P incremental (with_commitments st2 cs) = Some (segments, maps', with_commitments st' cs') \<and>
            committed K P cs' (ar_buffer st'))" unfolding growing_def by blast
      have "\<exists>cs'. produce_segments K P incremental (with_commitments st cs) =
          Some (a # segments, maps @ maps', with_commitments st' cs') \<and> committed K P cs' (ar_buffer st')"
        if "growing K P (with_commitments st cs)" for incremental cs
      proof -
        obtain cs' where "produce_segments K P incremental st2 = Some (segments, maps', with_commitments st' cs')"
          "committed K P cs' (ar_buffer st')"
          using loop [rule_format, of "ar_incremental_record_commitments st2" incremental] st2(2) by auto
        with step [rule_format, OF that] mapping show ?thesis
          by (subst produce_segments.simps) auto
      qed
      moreover have "archived_run K P B (k, po, prev) (a # segments) (k'', po'', prev'')"
        using pos' size a archives_wf_header(1) [OF laws(2,3) pos'(2) a] rest(1) by (rule run_segment)
      ultimately show ?thesis using rest(2,3) by blast
    qed
  qed
qed

section \<open>Adding blocks\<close>

text \<open>A state between two blocks: the buffer does not fill a segment.\<close>

definition settled ::
    "scale_codec \<Rightarrow> ('s, 'c, 'p) coding \<Rightarrow> octets list \<Rightarrow> nat \<times> nat option \<times> segment_header option \<Rightarrow> 'c archiver \<Rightarrow> bool" where
  "settled K P B p st \<longleftrightarrow>
     standing K P B (fst p) (fst (snd p)) (snd (snd p)) st \<and> (\<forall>item \<in> set (ar_buffer st). mappable item) \<and>
     segment_size K (ar_buffer st) < RecordedHistorySegment_SIZE - 2"

lemma archiver_new_settled: "settled K P [] (0, None, None) archiver_new"
  by (simp add: settled_def standing_def archiver_new_def pos_ok_def parent_items_def rest_items_def lab_at_def history_sizes)

text \<open>More blocks do not change what lies before a position.\<close>

lemma pos_ok_append: "pos_ok B k po \<Longrightarrow> pos_ok (B @ C) k po"
  by (auto simp: pos_ok_def nth_append)

lemma rest_items_append: "pos_ok B k po \<Longrightarrow> rest_items (B @ C) k po = rest_items B k po @ map (\<lambda>b. Block b []) C"
  by (auto simp: rest_items_def pos_ok_def nth_append split: option.split)

lemma between_append:
  assumes "pos_ok B k po" "pos_ok B k' po'" "before k po k' po'"
  shows "between (B @ C) k po k' po' = between B k po k' po'"
proof -
  have "k' - k \<le> length (rest_items B k po)" using assms(2) length_rest_items [OF assms(1)] by (auto simp: pos_ok_def)
  moreover have "cut_item (B @ C) k po k' m' = cut_item B k po k' m'" if "po' = Some m'" for m'
    using assms that by (auto simp: cut_item_def before_def pos_ok_def nth_append split: option.splits)
  ultimately show ?thesis using rest_items_append [OF assms(1)] by (simp add: between_def split: option.split)
qed

lemma archived_run_blocks:
  "archived_run K P B p segments p' \<Longrightarrow> pos_ok B (fst p) (fst (snd p)) \<Longrightarrow> archived_run K P (B @ C) p segments p'"
proof (induction rule: archived_run.induct)
  case (run_segment k po k' po' prev a segments p)
  then have "between (B @ C) k po k' po' = between B k po k' po'" by (intro between_append) simp_all
  with run_segment show ?case by (intro archived_run.run_segment) (simp_all add: pos_ok_append)
qed (rule run_done)

lemma committed_strip: "committed K P cs (map strip buf) = committed K P cs buf"
  using encode_segment_strip [of "map strip buf" buf K] by (simp add: committed_def segment_size_def comp_def)

lemma standing_strip: "standing K P B k po prev (st\<lparr>ar_buffer := map strip (ar_buffer st)\<rparr>) = standing K P B k po prev st"
  by (simp add: standing_def comp_def split: option.split)

lemma with_commitments_buffer: "(with_commitments st cs)\<lparr>ar_buffer := b\<rparr> = with_commitments (st\<lparr>ar_buffer := b\<rparr>) cs"
  by simp

lemma add_block_run:
  assumes laws: "scale_laws K" "coding_laws P" and blocks: "blocks_ok (B @ [bs])" and st: "settled K P B p st"
    and objects: "\<forall>b \<in> set objects. bo_offset b < length bs"
  shows "\<exists>outcome st' p'. archived_run K P (B @ [bs]) p (ao_archived_segments outcome) p' \<and> settled K P (B @ [bs]) p' st' \<and>
    (\<forall>incremental cs. committed K P cs (ar_buffer st) \<longrightarrow>
      (\<exists>cs'. add_block K P bs objects incremental (with_commitments st cs) = Some (outcome, with_commitments st' cs') \<and>
        committed K P cs' (ar_buffer st')))"
proof -
  obtain k po prev where p: "p = (k, po, prev)" by (cases p)
  let ?st = "st\<lparr>ar_buffer := ar_buffer st @ [Block bs objects]\<rparr>"
  from st have "pos_ok B k po" by (simp add: settled_def standing_def p)
  with st have s1: "standing K P (B @ [bs]) k po prev ?st"
    by (simp add: settled_def standing_def p pos_ok_append rest_items_append split: option.splits)
  have s2: "\<forall>item \<in> set (ar_buffer ?st). mappable item" using st objects by (auto simp: settled_def)
  from produce_segments_run [OF laws blocks s1 s2] obtain segments maps st1 k' po' prev' where
    run: "archived_run K P (B @ [bs]) (k, po, prev) segments (k', po', prev')" and
    st1: "standing K P (B @ [bs]) k' po' prev' st1" "\<forall>item \<in> set (ar_buffer st1). mappable item" and
    loop: "\<forall>incremental cs. growing K P (with_commitments ?st cs) \<longrightarrow>
      (\<exists>cs'. produce_segments K P incremental (with_commitments ?st cs) = Some (segments, maps, with_commitments st1 cs') \<and>
        committed K P cs' (ar_buffer st1))"
    by (elim exE conjE)
  have growing: "growing K P (with_commitments ?st cs)" if "committed K P cs (ar_buffer st)" for cs
    using that s2 by (auto simp: growing_def)
  have "committed K P [] (ar_buffer st)" using st by (simp add: settled_def committed_def)
  from loop [rule_format, OF growing [OF this]] have size: "segment_size K (ar_buffer st1) < RecordedHistorySegment_SIZE - 2"
    by (auto simp: committed_def)
  then obtain maps' where maps': "produce_object_mappings K (ar_segment_index st1) (ar_buffer st1) = Some (maps', map strip (ar_buffer st1))"
    using produce_object_mappings_defined [OF st1(2)] by (meson less_imp_le_nat less_le_trans diff_le_self)
  let ?st' = "st1\<lparr>ar_buffer := map strip (ar_buffer st1)\<rparr>"
  have "\<exists>cs'. add_block K P bs objects incremental (with_commitments st cs) =
      Some (\<lparr>ao_archived_segments = segments, ao_object_mapping = maps @ maps'\<rparr>, with_commitments ?st' cs') \<and>
      committed K P cs' (ar_buffer ?st')" if "committed K P cs (ar_buffer st)" for incremental cs
  proof -
    note g = growing [OF that]
    obtain cs' where "produce_segments K P incremental (with_commitments ?st cs) = Some (segments, maps, with_commitments st1 cs')"
      "committed K P cs' (ar_buffer st1)" using loop [rule_format, OF g] by blast
    then show ?thesis using maps'
      by (intro exI [of _ cs']) (simp add: add_block_def produce_next_segment_mappings_def committed_strip with_commitments_buffer)
  qed
  moreover have "settled K P (B @ [bs]) (k', po', prev') ?st'"
  proof -
    have "mappable (strip item)" if "item \<in> set (ar_buffer st1)" for item
      using that st1(2) by (intro mappable_strip) auto
    then show ?thesis using st1(1) size by (simp add: settled_def standing_strip segment_size_items)
  qed
  ultimately show ?thesis using run unfolding p
    by (intro exI [of _ "\<lparr>ao_archived_segments = segments, ao_object_mapping = maps @ maps'\<rparr>"] exI [of _ ?st'] exI [of _ "(k', po', prev')"])
      simp
qed

text \<open>Blocks with their objects, each added with or without incremental commitments.\<close>

fun add_blocks ::
    "scale_codec \<Rightarrow> ('s, 'c, 'p) coding \<Rightarrow> (octets \<times> block_object_mapping \<times> bool) list \<Rightarrow> 'c archiver \<Rightarrow>
       (archive_block_outcome list \<times> 'c archiver) option" where
  "add_blocks K P [] st = Some ([], st)"
| "add_blocks K P ((bs, objects, incremental) # inputs) st = do {
     (outcome, st) \<leftarrow> add_block K P bs objects incremental st;
     (outcomes, st) \<leftarrow> add_blocks K P inputs st;
     Some (outcome # outcomes, st) }"

lemma add_blocks_append:
  "add_blocks K P (xs @ ys) st = do {
     (o1, st) \<leftarrow> add_blocks K P xs st;
     (o2, st) \<leftarrow> add_blocks K P ys st;
     Some (o1 @ o2, st) }"
proof (induction xs arbitrary: st)
  case (Cons x xs)
  obtain bs objects i where "x = (bs, objects, i)" by (cases x)
  with Cons show ?case by (auto split: bind_splits)
qed (auto split: bind_split)

definition objects_ok :: "octets \<times> block_object_mapping \<Rightarrow> bool" where
  "objects_ok x \<longleftrightarrow> (\<forall>b \<in> set (snd x). bo_offset b < length (fst x))"

lemma blocks_ok_prefix: "blocks_ok (B @ C) \<Longrightarrow> blocks_ok B"
  by (simp add: blocks_ok_def)

lemma add_blocks_run:
  assumes laws: "scale_laws K" "coding_laws P"
  shows "settled K P B p st \<Longrightarrow> blocks_ok (B @ map fst xs) \<Longrightarrow> list_all objects_ok xs \<Longrightarrow>
    \<exists>outcomes st' p'. archived_run K P (B @ map fst xs) p (concat (map ao_archived_segments outcomes)) p' \<and>
      settled K P (B @ map fst xs) p' st' \<and> length outcomes = length xs \<and>
      (\<forall>inputs cs. map (\<lambda>(bs, objects, i). (bs, objects)) inputs = xs \<longrightarrow> committed K P cs (ar_buffer st) \<longrightarrow>
        (\<exists>cs'. add_blocks K P inputs (with_commitments st cs) = Some (outcomes, with_commitments st' cs') \<and>
          committed K P cs' (ar_buffer st')))"
proof (induction xs arbitrary: B p st)
  case Nil
  then show ?case by (intro exI [of _ "[]"] exI [of _ st] exI [of _ p]) (auto intro: run_done)
next
  case (Cons x xs)
  obtain bs objects where x: "x = (bs, objects)" by (cases x)
  have blocks: "blocks_ok ((B @ [bs]) @ map fst xs)" using Cons.prems(2) by (simp add: x)
  from Cons.prems(3) have objects: "\<forall>b \<in> set objects. bo_offset b < length bs" by (simp add: x objects_ok_def)
  from add_block_run [OF laws blocks_ok_prefix [OF blocks] Cons.prems(1) objects] obtain outcome st1 p1 where
    one: "archived_run K P (B @ [bs]) p (ao_archived_segments outcome) p1" "settled K P (B @ [bs]) p1 st1"
      "\<forall>incremental cs. committed K P cs (ar_buffer st) \<longrightarrow>
        (\<exists>cs'. add_block K P bs objects incremental (with_commitments st cs) = Some (outcome, with_commitments st1 cs') \<and>
          committed K P cs' (ar_buffer st1))" by blast
  from Cons.IH [OF one(2) blocks] Cons.prems(3) obtain outcomes st' p' where
    more: "archived_run K P ((B @ [bs]) @ map fst xs) p1 (concat (map ao_archived_segments outcomes)) p'"
      "settled K P ((B @ [bs]) @ map fst xs) p' st'" "length outcomes = length xs"
      "\<forall>inputs cs. map (\<lambda>(bs, objects, i). (bs, objects)) inputs = xs \<longrightarrow> committed K P cs (ar_buffer st1) \<longrightarrow>
        (\<exists>cs'. add_blocks K P inputs (with_commitments st1 cs) = Some (outcomes, with_commitments st' cs') \<and>
          committed K P cs' (ar_buffer st'))" by auto
  have "pos_ok B (fst p) (fst (snd p))" using Cons.prems(1) by (simp add: settled_def standing_def)
  from archived_run_blocks [OF one(1) pos_ok_append [OF this]] more(1)
  have "archived_run K P ((B @ [bs]) @ map fst xs) p (concat (map ao_archived_segments (outcome # outcomes))) p'"
    by (auto intro: archived_run_append)
  moreover have "\<exists>cs'. add_blocks K P inputs (with_commitments st cs) = Some (outcome # outcomes, with_commitments st' cs') \<and>
      committed K P cs' (ar_buffer st')"
    if inputs: "map (\<lambda>(bs, objects, i). (bs, objects)) inputs = x # xs" and cs: "committed K P cs (ar_buffer st)" for inputs cs
  proof -
    from inputs obtain i rest where i: "inputs = (bs, objects, i) # rest" "map (\<lambda>(bs, objects, i). (bs, objects)) rest = xs"
      by (auto simp: x)
    from one(3) cs obtain cs1 where cs1: "add_block K P bs objects i (with_commitments st cs) = Some (outcome, with_commitments st1 cs1)"
      "committed K P cs1 (ar_buffer st1)" by blast
    from more(4) i(2) cs1(2) obtain cs' where "add_blocks K P rest (with_commitments st1 cs1) = Some (outcomes, with_commitments st' cs')"
      "committed K P cs' (ar_buffer st')" by blast
    with cs1(1) i(1) show ?thesis by auto
  qed
  ultimately show ?case using more(2,3)
    by (intro exI [of _ "outcome # outcomes"] exI [of _ st'] exI [of _ p']) (simp add: x)
qed

end
