(* ===== verification/Reconstructor.thy ===== *)
theory Reconstructor
  imports Archiver_Run
begin

text \<open>
  The reconstructor (crates/subspace-archiving/src/reconstructor.rs): blocks are put together again from the pieces of
  one segment after the other. A segment whose pieces are given is decoded, the block that was cut at its beginning is
  completed and the one that is cut at its end is kept for the next segment.
\<close>

section \<open>Model\<close>

record reconstructor =
  re_last_segment_index :: "segment_index option"
  re_partial_block :: "octets option"

record reconstructed_contents =
  co_segment_header :: "segment_header option"
  co_blocks :: "(block_number \<times> octets) list"

definition reconstructor_new :: reconstructor where
  "reconstructor_new = \<lparr>re_last_segment_index = None, re_partial_block = None\<rparr>"

text \<open>What the loop of \<open>add_segment\<close> changes.\<close>

record reconstruction =
  rl_contents :: reconstructed_contents
  rl_next_block_number :: block_number
  rl_partial_block :: octets
  rl_last_segment_index :: "segment_index option"

definition push_block :: "octets \<Rightarrow> reconstruction \<Rightarrow> reconstructor_error + reconstruction" where
  "push_block bs l =
     and_then (ok_or ReconstructorPanic (checked_add 32 (rl_next_block_number l) 1)) (\<lambda>n.
     Inr (l\<lparr>rl_contents := (rl_contents l)\<lparr>co_blocks := co_blocks (rl_contents l) @ [(rl_next_block_number l, bs)]\<rparr>,
            rl_next_block_number := n\<rparr>))"

definition flush_partial_block :: "reconstruction \<Rightarrow> reconstructor_error + reconstruction" where
  "flush_partial_block l =
     (if rl_partial_block l = [] then Inr l
      else and_then (push_block (rl_partial_block l) l) (\<lambda>l. Inr (l\<lparr>rl_partial_block := []\<rparr>)))"

definition reconstruct_header :: "segment_header \<Rightarrow> reconstruction \<Rightarrow> reconstructor_error + reconstruction" where
  "reconstruct_header h l =
     (let segment_index = sh_segment_index h;
          wrong_order = (case rl_last_segment_index l of
            Some last_segment_index \<Rightarrow>
              if last_segment_index \<noteq> segment_index
              then Some (IncorrectSegmentOrder (last_segment_index + 1) (segment_index + 1)) else None
          | None \<Rightarrow> None) in
      case wrong_order of
        Some e \<Rightarrow> Inl e
      | None \<Rightarrow>
          let l = l\<lparr>rl_last_segment_index := Some (segment_index + 1),
                    rl_contents := (rl_contents l)\<lparr>co_segment_header := Some h\<rparr>\<rparr>;
              number = lab_number (sh_last_archived_block h) in
          case lab_archived_progress (sh_last_archived_block h) of
            Complete \<Rightarrow>
              and_then (ok_or ReconstructorPanic (checked_add 32 number 1)) (\<lambda>n.
              Inr (l\<lparr>rl_contents := (rl_contents l)
                       \<lparr>co_blocks := co_blocks (rl_contents l) @ [(rl_next_block_number l, rl_partial_block l)]\<rparr>,
                     rl_partial_block := [], rl_next_block_number := n\<rparr>))
          | Partial _ \<Rightarrow>
              if rl_partial_block l = [] then
                and_then (ok_or ReconstructorPanic (checked_add 32 number 1)) (\<lambda>n. Inr (l\<lparr>rl_next_block_number := n\<rparr>))
              else Inr (l\<lparr>rl_next_block_number := number\<rparr>))"

fun reconstruct_item :: "segment_item \<Rightarrow> reconstruction \<Rightarrow> reconstructor_error + reconstruction" where
  "reconstruct_item Padding l = Inr l"
| "reconstruct_item (Block bs m) l = and_then (flush_partial_block l) (push_block bs)"
| "reconstruct_item (BlockStart bs m) l = and_then (flush_partial_block l) (\<lambda>l. Inr (l\<lparr>rl_partial_block := bs\<rparr>))"
| "reconstruct_item (BlockContinuation bs m) l =
     Inr (if rl_partial_block l = [] then l else l\<lparr>rl_partial_block := rl_partial_block l @ bs\<rparr>)"
| "reconstruct_item (ParentSegmentHeader h) l = reconstruct_header h l"

text \<open>An error leaves the loop with what was changed before it.\<close>

fun reconstruct_items :: "segment_item list \<Rightarrow> reconstruction \<Rightarrow> reconstructor_error option \<times> reconstruction" where
  "reconstruct_items [] l = (None, l)"
| "reconstruct_items (item # items) l =
     (case reconstruct_item item l of Inl e \<Rightarrow> (Some e, l) | Inr l \<Rightarrow> reconstruct_items items l)"

definition add_segment ::
    "scale_codec \<Rightarrow> ('s, 'c, 'p) coding \<Rightarrow> piece option list \<Rightarrow> reconstructor \<Rightarrow>
       (reconstructor_error + reconstructed_contents) \<times> reconstructor" where
  "add_segment K P segment_pieces r =
     (case reconstruct_segment K P segment_pieces of
        Inl e \<Rightarrow> (Inl e, r)
      | Inr items \<Rightarrow>
          case reconstruct_items items
                 \<lparr>rl_contents = \<lparr>co_segment_header = None, co_blocks = []\<rparr>, rl_next_block_number = 0,
                  rl_partial_block = (case re_partial_block r of Some bs \<Rightarrow> bs | None \<Rightarrow> []),
                  rl_last_segment_index = re_last_segment_index r\<rparr> of
            (Some e, l) \<Rightarrow> (Inl e, \<lparr>re_last_segment_index = rl_last_segment_index l, re_partial_block = None\<rparr>)
          | (None, l) \<Rightarrow>
              (Inr (rl_contents l),
               \<lparr>re_last_segment_index =
                  Some (case rl_last_segment_index l of Some i \<Rightarrow> i | None \<Rightarrow> 0),
                re_partial_block = (if rl_partial_block l = [] then None else Some (rl_partial_block l))\<rparr>))"

section \<open>The items between two positions\<close>

lemma reconstruct_items_append:
  assumes "reconstruct_items xs l = (None, l')"
  shows "reconstruct_items (xs @ ys) l = reconstruct_items ys l'"
  using assms by (induction xs arbitrary: l) (auto split: sum.splits)

lemma reconstruct_padding: "reconstruct_items (replicate n Padding) l = (None, l)"
  by (induction n) simp_all

abbreviation with_blocks :: "reconstruction \<Rightarrow> (block_number \<times> octets) list \<Rightarrow> block_number \<Rightarrow> octets \<Rightarrow> reconstruction" where
  "with_blocks l bs n partial \<equiv>
     l\<lparr>rl_contents := (rl_contents l)\<lparr>co_blocks := co_blocks (rl_contents l) @ bs\<rparr>, rl_next_block_number := n,
       rl_partial_block := partial\<rparr>"

lemma reconstruct_blocks:
  assumes "rl_partial_block l = []" "rl_next_block_number l + length C < 2 ^ 32"
  shows "reconstruct_items (map (\<lambda>b. Block b []) C) l =
    (None, with_blocks l (enumerate (rl_next_block_number l) C) (rl_next_block_number l + length C) [])"
  using assms
proof (induction C arbitrary: l)
  case (Cons b C)
  then have "checked_add 32 (rl_next_block_number l) 1 = Some (Suc (rl_next_block_number l))" by (simp add: checked_add_def)
  with Cons show ?case by (simp add: flush_partial_block_def push_block_def)
qed simp

lemma flush_nonempty:
  assumes "rl_partial_block l \<noteq> []" "rl_next_block_number l < 2 ^ 32 - 1"
  shows "flush_partial_block l = Inr (with_blocks l [(rl_next_block_number l, rl_partial_block l)] (Suc (rl_next_block_number l)) [])"
  using assms by (simp add: flush_partial_block_def push_block_def checked_add_def)

text \<open>Blocks and the beginning of the next one, after a block that is complete now.\<close>

lemma reconstruct_blocks_start:
  assumes "rl_next_block_number l + length C + 1 < 2 ^ 32"
  shows "reconstruct_items (map (\<lambda>b. Block b []) C @ [BlockStart s []]) l =
    (None, with_blocks l
       (enumerate (rl_next_block_number l) ((if rl_partial_block l = [] then [] else [rl_partial_block l]) @ C))
       (rl_next_block_number l + length C + (if rl_partial_block l = [] then 0 else 1)) s)"
proof (cases "rl_partial_block l = []")
  case True
  with assms reconstruct_items_append [OF reconstruct_blocks [OF True]] show ?thesis
    by (simp add: flush_partial_block_def)
next
  case False
  let ?l = "with_blocks l [(rl_next_block_number l, rl_partial_block l)] (Suc (rl_next_block_number l)) []"
  have flush: "flush_partial_block l = Inr ?l" using assms by (intro flush_nonempty [OF False]) simp
  have "flush_partial_block ?l = Inr ?l" by (simp add: flush_partial_block_def)
  with assms flush have "reconstruct_items (map (\<lambda>b. Block b []) C @ [BlockStart s []]) l =
      reconstruct_items (map (\<lambda>b. Block b []) C @ [BlockStart s []]) ?l"
    by (cases C) (simp_all add: push_block_def checked_add_def)
  also have "\<dots> = (None, with_blocks ?l (enumerate (Suc (rl_next_block_number l)) C) (Suc (rl_next_block_number l) + length C) s)"
    using assms reconstruct_items_append [OF reconstruct_blocks [of ?l C]] by (simp add: flush_partial_block_def)
  finally show ?thesis using False by simp
qed

text \<open>The part of a block before a position.\<close>

definition part_of :: "octets list \<Rightarrow> nat \<Rightarrow> nat option \<Rightarrow> octets" where
  "part_of B k po = (case po of None \<Rightarrow> [] | Some m \<Rightarrow> take m (B ! k))"

lemma reconstruct_between:
  assumes pos: "pos_ok B k po" "pos_ok B k' (Some m')" "before k po k' (Some m')" and blocks: "blocks_ok B" "length B < 2 ^ 32 - 1"
    and l: "rl_next_block_number l = k" "rl_partial_block l = part_of B k po" "po \<noteq> Some 0"
  shows "reconstruct_items (between B k po k' (Some m')) l =
    (None, with_blocks l (enumerate k (take (k' - k) (drop k B))) k' (take m' (B ! k')))"
proof (cases po)
  case None
  have "between B k po k' (Some m') = map (\<lambda>b. Block b []) (take (k' - k) (drop k B)) @ [BlockStart (take m' (B ! k')) []]"
    by (simp add: between_def rest_items_def cut_item_def None take_map)
  moreover have "k + (k' - k) = k'" "length (take (k' - k) (drop k B)) = k' - k" "k' + 1 < 2 ^ 32"
    using pos blocks by (auto simp: before_def pos_ok_def)
  ultimately show ?thesis
    using reconstruct_blocks_start [of l "take (k' - k) (drop k B)"] l by (simp add: part_of_def None)
next
  case (Some m)
  then have m: "0 < m" "m < length (B ! k)" "k < length B" using pos(1) l(3) by (auto simp: pos_ok_def)
  then have part: "rl_partial_block l \<noteq> []" by (auto simp: l(2) part_of_def Some)
  show ?thesis
  proof (cases "k' = k")
    case True
    with pos(3) Some have "m < m'" by (simp add: before_def)
    then have "take m (B ! k) @ take (m' - m) (drop m (B ! k)) = take m' (B ! k)" by (simp flip: take_add)
    with True l m part Some show ?thesis
      by (simp add: between_def cut_item_def part_of_def)
  next
    case False
    with pos(3) have "k < k'" by (simp add: before_def)
    then obtain n where k': "k' = Suc (k + n)" by (metis less_iff_Suc_add add.commute)
    let ?l = "l\<lparr>rl_partial_block := B ! k\<rparr>"
    let ?C = "take n (drop (Suc k) B)"
    have "between B k po k' (Some m') =
        BlockContinuation (drop m (B ! k)) [] # map (\<lambda>b. Block b []) ?C @ [BlockStart (take m' (B ! k')) []]"
      by (simp add: between_def rest_items_def cut_item_def Some k' take_map)
    moreover have "reconstruct_item (BlockContinuation (drop m (B ! k)) []) l = Inr ?l"
      using part by (simp add: l(2) part_of_def Some)
    moreover have "length ?C = n" "k + n + 2 < 2 ^ 32" using pos(2) blocks(2) by (auto simp: pos_ok_def k')
    moreover have "B ! k # ?C = take (Suc n) (drop k B)" using m(3) by (simp flip: Cons_nth_drop_Suc)
    moreover have "B ! k \<noteq> []" using m by auto
    ultimately show ?thesis
      using reconstruct_blocks_start [of ?l ?C "take m' (B ! k')"] l(1) by (simp add: k' Suc_diff_le)
  qed
qed

section \<open>A segment from any half of its pieces\<close>

lemma between_items:
  assumes "blocks_ok B" "pos_ok B k po" "pos_ok B k' po'" "item \<in> set (between B k po k' po')"
  shows "wf_item item" "strip item = item"
proof -
  have nth: "length (B ! k) < 2 ^ 32" if "po = Some m" for m
    using that assms(2) blocks_ok_nth [OF assms(1)] by (simp add: pos_ok_def)
  have nth': "length (B ! k') < 2 ^ 32" if "po' = Some m'" for m'
    using that assms(3) blocks_ok_nth [OF assms(1)] by (simp add: pos_ok_def)
  have block: "length b < 2 ^ 32" if "b \<in> set (drop n B)" for b n
    using that assms(1) by (auto simp: blocks_ok_def dest: in_set_dropD)
  have "wf_item item \<and> strip item = item"
    using assms(4) nth nth' block
    by (auto simp: between_def rest_items_def cut_item_def less_imp_diff_less min_less_iff_disj
        split: option.splits if_splits dest!: in_set_takeD)
  then show "wf_item item" "strip item = item" by simp_all
qed

text \<open>What the reconstructor remembers at a position.\<close>

definition awaiting :: "octets list \<Rightarrow> nat \<Rightarrow> nat option \<Rightarrow> segment_header option \<Rightarrow> reconstructor \<Rightarrow> bool" where
  "awaiting B k po prev r \<longleftrightarrow>
     re_last_segment_index r = map_option sh_segment_index prev \<and> re_partial_block r = map_option (\<lambda>m. take m (B ! k)) po \<and>
     (case prev of
        None \<Rightarrow> k = 0 \<and> po = None
      | Some h \<Rightarrow> wf_header h \<and> sh_last_archived_block h = lab_at k po \<and> (\<exists>m > 0. po = Some m))"

lemma reconstruct_segment_archived:
  assumes "scale_laws K" "coding_laws P" and items: "\<forall>item \<in> set items. wf_item item \<and> strip item = item"
    and "segment_size K items \<le> RecordedHistorySegment_SIZE"
    and a: "archives K P items i prev_hash lab a" and samples: "samples_of (na_pieces a) shards"
  obtains z where "reconstruct_segment K P shards = Inr (items @ replicate z Padding)"
proof -
  let ?z = "RecordedHistorySegment_SIZE - segment_size K items"
  have "map strip items = items" using items by (simp add: map_idI)
  with decode_encode_segment [OF assms(1), of items ?z] items
  have "decode_segment K (segment_data K items) = Some (items @ replicate ?z Padding)" by (simp add: segment_data_def)
  moreover have "map pc_record (na_pieces a) = records_of P (segment_data K items)"
    using a pieces_of_records [OF assms(2)] by (auto simp: archives_def)
  ultimately show thesis
    using segment_recovered [OF assms(2) length_segment_data [OF assms(4)] _ samples, of K] that by simp
qed

lemma add_segment_archived:
  assumes laws: "scale_laws K" "coding_laws P" and blocks: "blocks_ok B" "length B < 2 ^ 32 - 1"
    and pos: "pos_ok B k po" "pos_ok B k' (Some m')" "before k po k' (Some m')" "0 < m'"
    and size: "segment_size K (parent_items prev @ between B k po k' (Some m')) \<le> RecordedHistorySegment_SIZE"
    and a: "archives K P (parent_items prev @ between B k po k' (Some m')) i prev_hash lab a"
    and samples: "samples_of (na_pieces a) shards" and r: "awaiting B k po prev r"
  shows "add_segment K P shards r =
    (Inr \<lparr>co_segment_header = prev, co_blocks = enumerate k (take (k' - k) (drop k B))\<rparr>,
     \<lparr>re_last_segment_index = Some (next_index prev), re_partial_block = Some (take m' (B ! k'))\<rparr>)"
proof -
  let ?l = "\<lambda>last n. \<lparr>rl_contents = \<lparr>co_segment_header = prev, co_blocks = []\<rparr>, rl_next_block_number = n,
    rl_partial_block = part_of B k po, rl_last_segment_index = last\<rparr>"
  from r have po: "po \<noteq> Some 0" by (auto simp: awaiting_def split: option.splits)
  have wf: "\<forall>item \<in> set (parent_items prev @ between B k po k' (Some m')). wf_item item \<and> strip item = item"
    using between_items [OF blocks(1) pos(1,2)] r by (auto simp: parent_items_def awaiting_def split: option.splits)
  obtain z where seg: "reconstruct_segment K P shards = Inr ((parent_items prev @ between B k po k' (Some m')) @ replicate z Padding)"
    by (rule reconstruct_segment_archived [OF laws wf size a samples])
  let ?start = "\<lparr>rl_contents = \<lparr>co_segment_header = None, co_blocks = []\<rparr>, rl_next_block_number = 0,
    rl_partial_block = (case re_partial_block r of Some bs \<Rightarrow> bs | None \<Rightarrow> []), rl_last_segment_index = re_last_segment_index r\<rparr>"
  obtain last where header: "reconstruct_items (parent_items prev) ?start = (None, ?l last k)"
    and last: "(case last of Some i \<Rightarrow> i | None \<Rightarrow> 0) = next_index prev"
  proof (cases prev)
    case None
    with r show thesis by (intro that [of None]) (simp_all add: awaiting_def parent_items_def part_of_def next_index_def)
  next
    case (Some h)
    with r obtain m where m: "po = Some m" "0 < m" "sh_last_archived_block h = lab_at k po"
      "re_last_segment_index r = Some (sh_segment_index h)" "re_partial_block r = Some (take m (B ! k))" by (auto simp: awaiting_def)
    moreover have "take m (B ! k) \<noteq> []" using m pos(1) by (auto simp: pos_ok_def)
    ultimately show thesis using Some
      by (intro that [of "Some (sh_segment_index h + 1)"])
        (simp_all add: parent_items_def reconstruct_header_def part_of_def next_index_def lab_at_def Let_def)
  qed
  have "reconstruct_items (between B k po k' (Some m')) (?l last k) =
      (None, with_blocks (?l last k) (enumerate k (take (k' - k) (drop k B))) k' (take m' (B ! k')))"
    by (rule reconstruct_between [OF pos(1-3) blocks]) (simp_all add: po)
  then have "reconstruct_items ((parent_items prev @ between B k po k' (Some m')) @ replicate z Padding) ?start =
      (None, with_blocks (?l last k) (enumerate k (take (k' - k) (drop k B))) k' (take m' (B ! k')))"
    using reconstruct_items_append [OF header] reconstruct_items_append reconstruct_padding by simp
  moreover have "take m' (B ! k') \<noteq> []" using pos(2,4) by (auto simp: pos_ok_def)
  ultimately show ?thesis using last by (simp add: add_segment_def seg)
qed

section \<open>Segments one after the other\<close>

fun add_segments ::
    "scale_codec \<Rightarrow> ('s, 'c, 'p) coding \<Rightarrow> piece option list list \<Rightarrow> reconstructor \<Rightarrow>
       (reconstructor_error + reconstructed_contents list) \<times> reconstructor" where
  "add_segments K P [] r = (Inr [], r)"
| "add_segments K P (pieces # rest) r =
     (case add_segment K P pieces r of
        (Inl e, r) \<Rightarrow> (Inl e, r)
      | (Inr contents, r) \<Rightarrow>
          (case add_segments K P rest r of
             (Inl e, r) \<Rightarrow> (Inl e, r)
           | (Inr more_contents, r) \<Rightarrow> (Inr (contents # more_contents), r)))"

text \<open>A segment whose last block is cut somewhere inside.\<close>

definition ends_inside_block :: "segment_header \<Rightarrow> bool" where
  "ends_inside_block h \<longleftrightarrow>
     (case lab_archived_progress (sh_last_archived_block h) of Complete \<Rightarrow> False | Partial m \<Rightarrow> 0 < m)"

lemma ends_inside_block_at: "ends_inside_block h \<Longrightarrow> sh_last_archived_block h = lab_at k po \<Longrightarrow> \<exists>m > 0. po = Some m"
  by (auto simp: ends_inside_block_def lab_at_def INITIAL_LAST_ARCHIVED_BLOCK_def split: option.splits if_splits)

lemma run_reconstructed:
  assumes laws: "scale_laws K" "coding_laws P" and blocks: "blocks_ok B" "length B < 2 ^ 32 - 1"
  shows "archived_run K P B p segments p' \<Longrightarrow> pos_ok B (fst p) (fst (snd p)) \<Longrightarrow>
    awaiting B (fst p) (fst (snd p)) (snd (snd p)) r \<Longrightarrow> \<forall>a \<in> set segments. ends_inside_block (na_segment_header a) \<Longrightarrow>
    list_all2 (\<lambda>a. samples_of (na_pieces a)) segments pieces \<Longrightarrow>
    \<exists>contents r'. add_segments K P pieces r = (Inr contents, r') \<and> awaiting B (fst p') (fst (snd p')) (snd (snd p')) r' \<and>
      concat (map co_blocks contents) = enumerate (fst p) (take (fst p' - fst p) (drop (fst p) B)) \<and> fst p \<le> fst p'"
proof (induction arbitrary: r pieces rule: archived_run.induct)
  case (run_done p)
  then show ?case by auto
next
  case (run_segment k po k' po' prev a segments p')
  from run_segment.prems(4) obtain shards rest where pieces: "pieces = shards # rest" "samples_of (na_pieces a) shards"
    "list_all2 (\<lambda>a. samples_of (na_pieces a)) segments rest" by (auto simp: list_all2_Cons1)
  note h = archives_wf_header [OF laws(2) blocks(1) run_segment.hyps(2,4)]
  from run_segment.prems(3) ends_inside_block_at [OF _ h(3)] obtain m' where m': "po' = Some m'" "0 < m'" by auto
  let ?r = "\<lparr>re_last_segment_index = Some (next_index prev), re_partial_block = Some (take m' (B ! k'))\<rparr>"
  have one: "add_segment K P shards r = (Inr \<lparr>co_segment_header = prev, co_blocks = enumerate k (take (k' - k) (drop k B))\<rparr>, ?r)"
    using run_segment.hyps(1-4) run_segment.prems(1,2) pieces(2) m'
    by (intro add_segment_archived [OF laws blocks, of k po k' m' prev "next_index prev" "parent_hash K P prev" "lab_at k' po'" a]) simp_all
  have "awaiting B k' po' (Some (na_segment_header a)) ?r" using h m' by (simp add: awaiting_def)
  with run_segment.IH [of ?r rest] run_segment.hyps(2) run_segment.prems(3) pieces(3) obtain contents r' where
    rest: "add_segments K P rest ?r = (Inr contents, r')" "awaiting B (fst p') (fst (snd p')) (snd (snd p')) r'"
      "concat (map co_blocks contents) = enumerate k' (take (fst p' - k') (drop k' B))" "k' \<le> fst p'" by auto
  have k: "k \<le> k'" "k' \<le> length B" using run_segment.hyps(1,2) by (auto simp: before_def pos_ok_def)
  have "take (k' - k) (drop k B) @ take (fst p' - k') (drop k' B) = take (fst p' - k) (drop k B)"
    using k(1) rest(4) take_add [of "k' - k" "fst p' - k'" "drop k B"] by simp
  moreover have "length (take (k' - k) (drop k B)) = k' - k" using k by simp
  ultimately have "enumerate k (take (fst p' - k) (drop k B)) =
      enumerate k (take (k' - k) (drop k B)) @ enumerate k' (take (fst p' - k') (drop k' B))"
    using k(1) enumerate_append_eq [of k "take (k' - k) (drop k B)" "take (fst p' - k') (drop k' B)"] by simp
  with one rest k(1) pieces(1) show ?case by (auto)
qed

end
