(* ===== verification/Spec2Isabelle.thy ===== *)
theory Spec2Isabelle
  imports Receipt_Chain Call_Safety Nominator_Position Channel_Delivery Transfer_Accounting Reconstructor
begin

text \<open>
  Placeholder header.
\<close>

end
